(* ===== verification/Prelude.thy ===== *)
theory Prelude
  imports Main "HOL-Library.Word"
begin

text \<open>
  Shared vocabulary of the development.

  A C++ function that can run into undefined behaviour (an index outside a
  vector, a read of an indeterminate value, a division by zero, a dangling
  pointer, an exception nobody catches) is modelled with result type \<open>'a outcome\<close>: \<open>Inl f\<close> names the
  fault, \<open>Inr x\<close> is the value of a run that stays defined.  \<open>ubind\<close> sequences
  two such computations, \<open>ufold\<close> is a \<open>for\<close> loop over a container,
  \<open>vec_get\<close> is \<open>std::vector::operator[]\<close>.
\<close>

section \<open>Collections of rules the component theories share\<close>

named_theorems outcome_simps \<open>evaluation rules for outcomes\<close>
named_theorems inv_defs \<open>definitions of component invariants\<close>

section \<open>Machine types\<close>

type_synonym u8 = "8 word"
type_synonym i32 = "32 word"
type_synonym i64 = "64 word"

section \<open>Outcomes: values or undefined behaviour\<close>

datatype fault =
    Out_Of_Bounds int
  | Indeterminate
  | Division_By_Zero
  | Arith_Overflow
  | Dangling
  | Uncaught

type_synonym 'a outcome = "fault + 'a"

definition ubind :: "'a outcome \<Rightarrow> ('a \<Rightarrow> 'b outcome) \<Rightarrow> 'b outcome" where
  "ubind m f = (case m of Inl e \<Rightarrow> Inl e | Inr x \<Rightarrow> f x)"

lemma ubind_simps [simp, outcome_simps]:
  "ubind (Inl e) f = Inl e"
  "ubind (Inr x) f = f x"
  by (simp_all add: ubind_def)

lemma ubind_Inr_right [simp]: "ubind m Inr = m"
  by (cases m) simp_all

lemma ubind_Inr_iff:
  "ubind m f = Inr y \<longleftrightarrow> (\<exists>x. m = Inr x \<and> f x = Inr y)"
  by (cases m) auto

lemma ubind_Inl_iff:
  "ubind m f = Inl e \<longleftrightarrow> m = Inl e \<or> (\<exists>x. m = Inr x \<and> f x = Inl e)"
  by (cases m) auto

lemma ubind_assoc: "ubind (ubind m f) g = ubind m (\<lambda>x. ubind (f x) g)"
  by (cases m) auto

lemma ubind_cong [fundef_cong]:
  "m = m' \<Longrightarrow> (\<And>x. m' = Inr x \<Longrightarrow> f x = f' x) \<Longrightarrow> ubind m f = ubind m' f'"
  by (cases m') auto

lemma map_sum_Inr: "map_sum id f m = Inr y \<longleftrightarrow> (\<exists>x. m = Inr x \<and> f x = y)"
  by (cases m) auto

primrec ufold :: "('a \<Rightarrow> 's \<Rightarrow> 's outcome) \<Rightarrow> 'a list \<Rightarrow> 's \<Rightarrow> 's outcome" where
  "ufold f [] s = Inr s"
| "ufold f (x # xs) s = ubind (f x s) (ufold f xs)"

lemma ufold_append [simp]:
  "ufold f (xs @ ys) s = ubind (ufold f xs s) (ufold f ys)"
proof (induction xs arbitrary: s)
  case (Cons x xs)
  then show ?case by (cases "f x s") simp_all
qed simp

lemma ufold_cong [fundef_cong]:
  "xs = ys \<Longrightarrow> s = t \<Longrightarrow> (\<And>x u. x \<in> set ys \<Longrightarrow> f x u = g x u)
    \<Longrightarrow> ufold f xs s = ufold g ys t"
proof (induction xs arbitrary: ys s t)
  case (Cons x xs)
  then show ?case by (cases "g x t") auto
qed simp

lemma ufold_invariant:
  assumes "P s" and "\<And>x t u. x \<in> set xs \<Longrightarrow> P t \<Longrightarrow> f x t = Inr u \<Longrightarrow> P u"
    and "ufold f xs s = Inr s'"
  shows "P s'"
  using assms
proof (induction xs arbitrary: s)
  case (Cons x xs)
  then obtain t where "f x s = Inr t" "ufold f xs t = Inr s'"
    by (auto simp: ubind_Inr_iff)
  with Cons show ?case by (metis list.set_intros)
qed simp

lemma ufold_total:
  assumes "P s" and "\<And>x t. x \<in> set xs \<Longrightarrow> P t \<Longrightarrow> \<exists>u. f x t = Inr u \<and> P u"
  shows "\<exists>s'. ufold f xs s = Inr s' \<and> P s'"
  using assms
proof (induction xs arbitrary: s)
  case (Cons x xs)
  then obtain t where "f x s = Inr t" "P t" by (metis list.set_intros(1))
  with Cons show ?case by simp
qed simp

text \<open>\<open>for (int i = a; i < b; i++)\<close> with an invariant of the loop index.\<close>

lemma upto_nat: "[int a .. int b - 1] = map int [a..<b]"
proof (induction b)
  case (Suc b)
  then show ?case by (cases "a \<le> b") (simp_all add: upto_rec2)
qed simp

lemma for_loop_total:
  assumes "a \<le> b" "P a s"
    and "\<And>i t. a \<le> i \<Longrightarrow> i < b \<Longrightarrow> P i t \<Longrightarrow> \<exists>u. f (int i) t = Inr u \<and> P (Suc i) u"
  shows "\<exists>s'. ufold f [int a .. int b - 1] s = Inr s' \<and> P b s'"
  unfolding upto_nat using assms
proof (induction arbitrary: s rule: inc_induct)
  case (step a)
  from step.prems(2) [of a s] step.hyps step.prems(1) obtain t where
    "f (int a) s = Inr t" "P (Suc a) t" by auto
  with step.IH [of t] step.prems(2) step.hyps show ?case
    by (simp add: upt_conv_Cons)
qed simp

section \<open>Signed arithmetic\<close>

text \<open>The result of a signed operation of \<open>w\<close> bits; overflow is undefined.\<close>

definition signed_result :: "nat \<Rightarrow> int \<Rightarrow> int outcome" where
  "signed_result w x = (if - (2 ^ (w - 1)) \<le> x \<and> x < 2 ^ (w - 1) then Inr x else Inl Arith_Overflow)"

lemma signed_result_in [simp, outcome_simps]:
  "- (2 ^ (w - 1)) \<le> x \<Longrightarrow> x < 2 ^ (w - 1) \<Longrightarrow> signed_result w x = Inr x"
  by (simp add: signed_result_def)

lemma signed_result_Inr: "signed_result w x = Inr y \<longleftrightarrow> y = x \<and> - (2 ^ (w - 1)) \<le> x \<and> x < 2 ^ (w - 1)"
  by (auto simp: signed_result_def)

section \<open>Vectors\<close>

definition vec_get :: "'a list \<Rightarrow> int \<Rightarrow> 'a outcome" where
  "vec_get xs i = (if 0 \<le> i \<and> i < int (length xs) then Inr (xs ! nat i) else Inl (Out_Of_Bounds i))"

definition vec_set :: "'a list \<Rightarrow> int \<Rightarrow> 'a \<Rightarrow> 'a list outcome" where
  "vec_set xs i x =
     (if 0 \<le> i \<and> i < int (length xs) then Inr (xs[nat i := x]) else Inl (Out_Of_Bounds i))"

lemma vec_get_in [simp, outcome_simps]:
  "0 \<le> i \<Longrightarrow> i < int (length xs) \<Longrightarrow> vec_get xs i = Inr (xs ! nat i)"
  by (simp add: vec_get_def)

lemma vec_get_out [outcome_simps]:
  "i < 0 \<or> int (length xs) \<le> i \<Longrightarrow> vec_get xs i = Inl (Out_Of_Bounds i)"
  by (auto simp: vec_get_def)

lemma vec_get_nat [simp]: "n < length xs \<Longrightarrow> vec_get xs (int n) = Inr (xs ! n)"
  by simp

lemma vec_set_in [simp, outcome_simps]:
  "0 \<le> i \<Longrightarrow> i < int (length xs) \<Longrightarrow> vec_set xs i x = Inr (xs[nat i := x])"
  by (simp add: vec_set_def)

lemma vec_get_Inr_iff:
  "vec_get xs i = Inr x \<longleftrightarrow> 0 \<le> i \<and> i < int (length xs) \<and> xs ! nat i = x"
  by (auto simp: vec_get_def)

text \<open>
  A C++ \<open>int\<close> compared with a \<open>size_t\<close> is first converted to \<open>size_t\<close>: a negative
  value becomes a value near \<open>2 ^ 64\<close>.
\<close>

definition int_lt_size :: "int \<Rightarrow> nat \<Rightarrow> bool" where
  "int_lt_size i n = (if i < 0 then 2 ^ 64 + i < int n else i < int n)"

lemma int_lt_size_nonneg [simp]: "0 \<le> i \<Longrightarrow> int_lt_size i n \<longleftrightarrow> i < int n"
  by (simp add: int_lt_size_def)

lemma int_lt_size_bound: "int_lt_size i n \<Longrightarrow> i < int n"
  by (auto simp: int_lt_size_def split: if_splits)

lemma int_lt_size_minus_one [simp]:
  "n < 2 ^ 31 \<Longrightarrow> \<not> int_lt_size (- 1) n"
  by (simp add: int_lt_size_def)

end
