(* ===== verification/Base64.thy ===== *)
theory Base64
  imports Prelude
begin

text \<open>
  \<open>nimblenet/util/src/base64.cpp\<close>: the base64 encoder and decoder.  \<open>BYTE\<close> is
  \<open>char\<close>; every byte operation of the source masks before it shifts, so the
  8-bit word operations compute the same bytes as the C++ \<open>int\<close> promotions.
\<close>

unbundle bit_operations_syntax

section \<open>Alphabet\<close>

definition base64_chars :: string where
  "base64_chars =
     ''ABCDEFGHIJKLMNOPQRSTUVWXYZ'' @
     ''abcdefghijklmnopqrstuvwxyz'' @
     ''0123456789+/''"

text \<open>\<open>isalnum\<close> of the C locale is false for every byte above 127.\<close>

definition isalnum :: "char \<Rightarrow> bool" where
  "isalnum c = (let n = (of_char c :: nat) in
     (48 \<le> n \<and> n \<le> 57) \<or> (65 \<le> n \<and> n \<le> 90) \<or> (97 \<le> n \<and> n \<le> 122))"

definition is_base64 :: "char \<Rightarrow> bool" where
  "is_base64 c = (isalnum c \<or> c = CHR ''+'' \<or> c = CHR ''/'')"

text \<open>\<open>base64_chars.find\<close>, stored into a \<open>BYTE\<close>: \<open>npos\<close> is truncated to 255.\<close>

fun string_find :: "char list \<Rightarrow> char \<Rightarrow> nat option" where
  "string_find [] c = None"
| "string_find (d # ds) c = (if d = c then Some 0 else map_option Suc (string_find ds c))"

definition b64_index :: "char \<Rightarrow> u8" where
  "b64_index c = (case string_find base64_chars c of None \<Rightarrow> 255 | Some n \<Rightarrow> word_of_nat n)"

section \<open>Encoder\<close>

definition enc_quad :: "u8 \<Rightarrow> u8 \<Rightarrow> u8 \<Rightarrow> u8 list" where
  "enc_quad a b c =
     [drop_bit 2 (a AND 0xfc),
      push_bit 4 (a AND 0x03) + drop_bit 4 (b AND 0xf0),
      push_bit 2 (b AND 0x0f) + drop_bit 6 (c AND 0xc0),
      c AND 0x3f]"

definition b64_char :: "u8 \<Rightarrow> char" where
  "b64_char x = base64_chars ! unat x"

text \<open>\<open>acc\<close> is the filled prefix \<open>char_array_3[0 .. i-1]\<close>, \<open>i = length acc\<close>.\<close>

fun encode_loop :: "u8 list \<Rightarrow> u8 list \<Rightarrow> string \<Rightarrow> u8 list \<times> string" where
  "encode_loop [] acc ret = (acc, ret)"
| "encode_loop (b # bs) acc ret =
     (let acc' = acc @ [b] in
      if length acc' = 3
      then encode_loop bs [] (ret @ map b64_char (enc_quad (acc' ! 0) (acc' ! 1) (acc' ! 2)))
      else encode_loop bs acc' ret)"

definition encode_tail :: "u8 list \<Rightarrow> string" where
  "encode_tail acc =
     (let i = length acc; arr = acc @ replicate (3 - i) 0 in
      if i = 0 then []
      else map b64_char (take (i + 1) (enc_quad (arr ! 0) (arr ! 1) (arr ! 2)))
           @ replicate (3 - i) (CHR ''=''))"

definition base64_encode :: "u8 list \<Rightarrow> string" where
  "base64_encode buf = (case encode_loop buf [] [] of (acc, ret) \<Rightarrow> ret @ encode_tail acc)"

section \<open>Decoder\<close>

definition dec_triple :: "u8 list \<Rightarrow> u8 list" where
  "dec_triple q =
     [push_bit 2 (q ! 0) + drop_bit 4 (q ! 1 AND 0x30),
      push_bit 4 (q ! 1 AND 0x0f) + drop_bit 2 (q ! 2 AND 0x3c),
      push_bit 6 (q ! 2 AND 0x03) + q ! 3]"

fun decode_loop :: "string \<Rightarrow> string \<Rightarrow> u8 list \<Rightarrow> string \<times> u8 list" where
  "decode_loop [] acc ret = (acc, ret)"
| "decode_loop (c # cs) acc ret =
     (if c \<noteq> CHR ''='' \<and> is_base64 c
      then let acc' = acc @ [c] in
           if length acc' = 4
           then decode_loop cs [] (ret @ dec_triple (map b64_index acc'))
           else decode_loop cs acc' ret
      else (acc, ret))"

definition decode_tail :: "string \<Rightarrow> u8 list" where
  "decode_tail acc =
     (let i = length acc; arr = acc @ replicate (4 - i) (CHR 0x00) in
      if i = 0 then [] else take (i - 1) (dec_triple (map b64_index arr)))"

definition base64_decode :: "string \<Rightarrow> u8 list" where
  "base64_decode s = (case decode_loop s [] [] of (acc, ret) \<Rightarrow> ret @ decode_tail acc)"

section \<open>Specification vocabulary\<close>

text \<open>The characters the decoder consumes, and the block structure of a buffer.\<close>

definition b64_valid :: "char \<Rightarrow> bool" where
  "b64_valid c = (c \<noteq> CHR ''='' \<and> is_base64 c)"

fun in_threes :: "'a list \<Rightarrow> nat" where
  "in_threes (a # b # c # xs) = Suc (in_threes xs)"
| "in_threes xs = 0"

fun in_fours :: "'a list \<Rightarrow> nat" where
  "in_fours (a # b # c # d # xs) = Suc (in_fours xs)"
| "in_fours xs = 0"

section \<open>Bit-level facts\<close>

lemma u8_eqI: "(\<And>n. n \<in> {0,1,2,3,4,5,6,7} \<Longrightarrow> bit a n = bit b n) \<Longrightarrow> a = (b :: u8)"
proof (rule bit_word_eqI)
  fix n assume *: "\<And>n. n \<in> {0,1,2,3,4,5,6,7} \<Longrightarrow> bit a n = bit b n" and "n < LENGTH(8)"
  from this(2) have "n = 0 \<or> n = 1 \<or> n = 2 \<or> n = 3 \<or> n = 4 \<or> n = 5 \<or> n = 6 \<or> n = 7"
    by simp arith
  then show "bit a n = bit b n" by (intro *) blast
qed

lemma u8_less_64_iff: "(x :: u8) < 64 \<longleftrightarrow> drop_bit 6 x = 0"
proof -
  have "unat (drop_bit 6 x) = unat x div 64"
    by (subst unat_drop_bit_eq) (simp add: drop_bit_eq_div)
  then have "drop_bit 6 x = 0 \<longleftrightarrow> unat x div 64 = 0"
    by (metis unat_0_iff)
  then show ?thesis by (simp add: word_less_nat_alt div_eq_0_iff)
qed

lemma enc_quad_or:
  "enc_quad a b c =
     [drop_bit 2 a AND 0x3f,
      push_bit 4 (a AND 0x03) OR (drop_bit 4 b AND 0x0f),
      push_bit 2 (b AND 0x0f) OR (drop_bit 6 c AND 0x03),
      c AND 0x3f]"
proof -
  have 1: "push_bit 4 (a AND 0x03) AND drop_bit 4 (b AND 0xf0) = 0"
    and 2: "push_bit 2 (b AND 0x0f) AND drop_bit 6 (c AND 0xc0) = 0"
    by (rule u8_eqI; auto simp: bit_simps)+
  show ?thesis
    unfolding enc_quad_def disjunctive_add_eq_or [OF 1] disjunctive_add_eq_or [OF 2] by simp
qed
lemma dec_enc: "dec_triple (enc_quad a b c) = [a,b,c]"
proof -
  define q where "q = enc_quad a b c"
  have q: "q ! 0 = drop_bit 2 a AND 0x3f"
    "q ! 1 = push_bit 4 (a AND 0x03) OR (drop_bit 4 b AND 0x0f)"
    "q ! 2 = push_bit 2 (b AND 0x0f) OR (drop_bit 6 c AND 0x03)" "q ! 3 = c AND 0x3f"
    by (simp_all add: q_def enc_quad_or)
  have 1: "push_bit 2 (q ! 0) AND drop_bit 4 (q ! 1 AND 0x30) = 0"
    and 2: "push_bit 4 (q ! 1 AND 0x0f) AND drop_bit 2 (q ! 2 AND 0x3c) = 0"
    and 3: "push_bit 6 (q ! 2 AND 0x03) AND q ! 3 = 0"
    unfolding q by (rule u8_eqI; auto simp: bit_simps; simp add: numeral_2_eq_2 numeral_3_eq_3)+
  have a: "push_bit 2 (q ! 0) OR drop_bit 4 (q ! 1 AND 0x30) = a"
    and b: "push_bit 4 (q ! 1 AND 0x0f) OR drop_bit 2 (q ! 2 AND 0x3c) = b"
    and c: "push_bit 6 (q ! 2 AND 0x03) OR q ! 3 = c"
    unfolding q by (rule u8_eqI; auto simp: bit_simps; simp add: numeral_2_eq_2 numeral_3_eq_3)+
  show ?thesis
    unfolding dec_triple_def q_def[symmetric] disjunctive_add_eq_or [OF 1] disjunctive_add_eq_or [OF 2]
      disjunctive_add_eq_or [OF 3] a b c by simp
qed
lemma enc_quad_cases:
  assumes "q \<in> set (enc_quad a b c)"
  obtains "q = drop_bit 2 a AND 0x3f" | "q = push_bit 4 (a AND 0x03) OR (drop_bit 4 b AND 0x0f)"
    | "q = push_bit 2 (b AND 0x0f) OR (drop_bit 6 c AND 0x03)" | "q = c AND 0x3f"
  using assms by (auto simp: enc_quad_or)

lemma enc_quad_small: "q \<in> set (enc_quad a b c) \<Longrightarrow> q < 64"
proof -
  assume "q \<in> set (enc_quad a b c)"
  then have "drop_bit 6 q = 0"
    by (rule enc_quad_cases; simp only:; intro u8_eqI) (auto simp: bit_simps)
  then show ?thesis by (simp add: u8_less_64_iff)
qed

section \<open>The alphabet is a bijection on 6-bit values\<close>

lemma length_base64_chars [simp]: "length base64_chars = 64"
  by (simp add: base64_chars_def)

lemma b64_alphabet_check:
  "\<forall>n \<in> set [0..<64]. let c = base64_chars ! n in
     string_find base64_chars c = Some n \<and> is_base64 c \<and> c \<noteq> CHR ''=''"
  by code_simp

lemma b64_alphabet:
  assumes "n < 64"
  shows "string_find base64_chars (base64_chars ! n) = Some n"
    and "is_base64 (base64_chars ! n)" and "base64_chars ! n \<noteq> CHR ''=''"
  using b64_alphabet_check assms by (auto simp: Let_def)

lemma unat_less_64: "(x :: u8) < 64 \<Longrightarrow> unat x < 64"
  by (simp add: word_less_nat_alt)

lemma b64_index_char [simp]: "x < 64 \<Longrightarrow> b64_index (b64_char x) = x"
  by (simp add: b64_index_def b64_char_def b64_alphabet unat_less_64)

lemma b64_char_valid [simp]:
  assumes "x < 64" shows "is_base64 (b64_char x)" "b64_char x \<noteq> CHR ''=''"
  using assms by (simp_all add: b64_char_def b64_alphabet unat_less_64)

section \<open>Encoder and decoder, block by block\<close>

lemma encode_loop_ret:
  "encode_loop bs acc (r @ ret) = map_prod id ((@) r) (encode_loop bs acc ret)"
proof (induction bs arbitrary: acc ret)
  case (Cons b bs)
  show ?case
    using Cons.IH [of "acc @ [b]" ret] Cons.IH [of "[]"]
    by (simp add: Let_def)
qed simp

lemma decode_loop_ret:
  "decode_loop cs acc (r @ ret) = map_prod id ((@) r) (decode_loop cs acc ret)"
proof (induction cs arbitrary: acc ret)
  case (Cons c cs)
  show ?case
    using Cons.IH [of "acc @ [c]" ret] Cons.IH [of "[]"]
    by (simp add: Let_def)
qed simp

lemma base64_encode_Cons3:
  "base64_encode (a # b # c # bs) = map b64_char (enc_quad a b c) @ base64_encode bs"
  using encode_loop_ret [of bs "[]" "map b64_char (enc_quad a b c)" "[]"]
  by (simp add: base64_encode_def Let_def split: prod.splits)

lemma base64_encode_short:
  "base64_encode [] = []"
  "base64_encode [a] = map b64_char (take 2 (enc_quad a 0 0)) @ ''==''"
  "base64_encode [a, b] = map b64_char (take 3 (enc_quad a b 0)) @ ''=''"
  by (simp_all add: base64_encode_def encode_tail_def Let_def enc_quad_def eval_nat_numeral)

lemma base64_decode_Cons4:
  assumes "\<forall>c \<in> {w, x, y, z}. is_base64 c \<and> c \<noteq> CHR ''=''"
  shows "base64_decode (w # x # y # z # cs) = dec_triple (map b64_index [w, x, y, z]) @ base64_decode cs"
  using assms decode_loop_ret [of cs "[]" "dec_triple (map b64_index [w, x, y, z])" "[]"]
  by (simp add: base64_decode_def Let_def split: prod.splits)

lemma enc_quad_length [simp]: "length (enc_quad a b c) = 4"
  by (simp add: enc_quad_def)

lemma enc_quad_nth_small [simp]: "i < 4 \<Longrightarrow> enc_quad a b c ! i < 64"
  by (rule enc_quad_small [of _ a b c]) simp

lemma enc_quad_expand:
  "enc_quad a b c = [enc_quad a b c ! 0, enc_quad a b c ! 1, enc_quad a b c ! 2, enc_quad a b c ! 3]"
  by (simp add: enc_quad_def)

lemma base64_decode_quad:
  "base64_decode (map b64_char (enc_quad a b c) @ cs) = [a, b, c] @ base64_decode cs"
proof -
  let ?q = "enc_quad a b c"
  have "base64_decode (map b64_char ?q @ cs)
      = dec_triple (map b64_index (map b64_char ?q)) @ base64_decode cs"
    by (subst (1 2) enc_quad_expand) (simp add: base64_decode_Cons4)
  also have "map b64_index (map b64_char ?q) = ?q"
    by (subst (1 2) enc_quad_expand) simp
  finally show ?thesis by (simp add: dec_enc)
qed

lemma dec_triple_0: "dec_triple q ! 0 = push_bit 2 (q ! 0) + drop_bit 4 (q ! 1 AND 0x30)"
  by (simp add: dec_triple_def)
lemma dec_triple_1: "dec_triple q ! 1 = push_bit 4 (q ! 1 AND 0x0f) + drop_bit 2 (q ! 2 AND 0x3c)"
  by (simp add: dec_triple_def)

lemma base64_decode_pad:
  "base64_decode (map b64_char (take 2 (enc_quad a b c)) @ CHR ''='' # cs) = [a]" (is ?A)
  "base64_decode (map b64_char (take 3 (enc_quad a b c)) @ CHR ''='' # cs) = [a, b]" (is ?B)
proof -
  let ?q = "enc_quad a b c"
  have "take 1 (dec_triple ?q) = [a]" "take 2 (dec_triple ?q) = [a, b]"
    by (simp_all add: dec_enc)
  moreover have "take 2 ?q = [?q ! 0, ?q ! 1]" "take 3 ?q = [?q ! 0, ?q ! 1, ?q ! 2]"
    by (simp_all add: enc_quad_def)
  ultimately show ?A ?B
    by (simp_all add: base64_decode_def decode_tail_def Let_def dec_triple_def)
qed


text \<open>the encoding of n bytes has exactly 4 * ceil(n / 3) characters.\<close>
theorem base64_encode_length: "length (base64_encode buf) = 4 * ((length buf + 2) div 3)"
proof (induction buf rule: in_threes.induct)
  case (1 a b c xs)
  have "(5 + length xs) div 3 = Suc ((2 + length xs) div 3)" by arith
  with 1 show ?case by (simp add: base64_encode_Cons3)
qed (simp_all add: base64_encode_short)

lemma decode_loop_prefix: "decode_loop cs acc ret = decode_loop (takeWhile b64_valid cs) acc ret"
  by (induction cs acc ret rule: decode_loop.induct) (auto simp: b64_valid_def Let_def)

lemma base64_decode_prefix: "base64_decode s = base64_decode (takeWhile b64_valid s)"
  unfolding base64_decode_def by (subst decode_loop_prefix) simp

text \<open>the decoder stops silently at the first character that is not of the alphabet: what follows it never changes the result.\<close>
theorem base64_decode_stops:
  assumes "\<not> is_base64 c \<or> c = CHR ''=''"
  shows "base64_decode (xs @ c # ys) = base64_decode xs"
proof -
  have "takeWhile b64_valid (xs @ c # ys) = takeWhile b64_valid xs"
    using assms by (induction xs) (auto simp: b64_valid_def)
  then show ?thesis by (metis base64_decode_prefix)
qed

lemma length_decode_valid:
  "list_all b64_valid s \<Longrightarrow> length (base64_decode s) = 3 * length s div 4"
proof (induction s rule: in_fours.induct)
  case (1 a b c d xs)
  have "(12 + 3 * length xs) div 4 = 3 + 3 * length xs div 4" by arith
  with 1 show ?case by (simp add: base64_decode_Cons4 b64_valid_def dec_triple_def)
qed (simp_all add: base64_decode_def decode_tail_def b64_valid_def dec_triple_def Let_def)

text \<open>the number of decoded bytes is determined by the valid prefix: 3 * n / 4 rounded down.\<close>
theorem base64_decode_length:
  "length (base64_decode s) = 3 * length (takeWhile b64_valid s) div 4"
  by (subst base64_decode_prefix, rule length_decode_valid)
     (auto simp: list_all_iff dest: set_takeWhileD)

lemma enc_chars_valid: "list_all b64_valid (map b64_char (take n (enc_quad a b c)))"
  by (auto simp: list_all_iff b64_valid_def dest!: in_set_takeD enc_quad_small)

text \<open>the encoder emits alphabet characters followed by at most two padding characters.\<close>
theorem base64_encode_alphabet:
  "\<exists>k cs. k \<le> 2 \<and> base64_encode buf = cs @ replicate k (CHR ''='') \<and> list_all b64_valid cs"
proof (induction buf rule: in_threes.induct, goal_cases)
  case (1 a b c xs)
  then obtain k cs where "k \<le> 2" "base64_encode xs = cs @ replicate k (CHR ''='')"
    "list_all b64_valid cs"
    by auto
  moreover have "list_all b64_valid (map b64_char (take 4 (enc_quad a b c)) @ cs)"
    using enc_chars_valid calculation by (simp only: list_all_append)
  ultimately show ?case
    by (intro exI [of _ k] exI [of _ "map b64_char (take 4 (enc_quad a b c)) @ cs"])
      (simp add: base64_encode_Cons3)
next
  case 2
  show ?case by (simp add: base64_encode_short)
next
  case (3 a)
  show ?case
    by (intro exI [of _ 2] exI [of _ "map b64_char (take 2 (enc_quad a 0 0))"] conjI enc_chars_valid)
      (simp_all only: base64_encode_short, simp_all add: numeral_2_eq_2)
next
  case (4 a b)
  show ?case
    by (intro exI [of _ 1] exI [of _ "map b64_char (take 3 (enc_quad a b 0))"] conjI enc_chars_valid)
      (simp_all only: base64_encode_short, simp_all)
qed

end
