(* ===== verification/Value_Type.thy ===== *)
theory Value_Type
  imports Prelude "HOL-Library.Signed_Division"
begin

text \<open>
  The template parameter \<open>T\<close> of the user-event classes: \<open>template <class T>\<close> is a
  record of the operations the templates use on \<open>T\<close>.  The instances \<open>int32_t\<close>
  and \<open>int64_t\<close> are \<open>int_type\<close> at width 32 and 64 (two's complement, wrapping
  addition).  The instances \<open>float\<close> and \<open>double\<close> are records the model is
  parametric in: the compiler's IEEE arithmetic is not part of the repository.

  Reading a cell of an event row goes through \<open>operator>>\<close> of a
  \<open>std::stringstream\<close> (\<open>GetAs\<close>); window ages are compared as \<open>float\<close>.
\<close>

section \<open>Operations of \<open>T\<close>\<close>

record 'v value_type =
  vt_zero :: 'v
  vt_one :: 'v
  vt_add :: "'v \<Rightarrow> 'v \<Rightarrow> 'v"
  vt_sub :: "'v \<Rightarrow> 'v \<Rightarrow> 'v"
  vt_less :: "'v \<Rightarrow> 'v \<Rightarrow> bool"
  vt_eq :: "'v \<Rightarrow> 'v \<Rightarrow> bool"
  vt_div :: "'v \<Rightarrow> int \<Rightarrow> 'v outcome"
  vt_extract :: "string \<Rightarrow> bool \<times> 'v option"

text \<open>\<open>std::max\<close> and \<open>std::min\<close>.\<close>

definition std_max :: "'v value_type \<Rightarrow> 'v \<Rightarrow> 'v \<Rightarrow> 'v" where
  "std_max T a b = (if vt_less T a b then b else a)"

definition std_min :: "'v value_type \<Rightarrow> 'v \<Rightarrow> 'v \<Rightarrow> 'v" where
  "std_min T a b = (if vt_less T b a then b else a)"

text \<open>
  \<open>GetAs\<close>: \<open>vt_extract\<close> is \<open>ss >> t\<close>, the stream state after it and what it stored
  in \<open>t\<close>.  A failed extraction only logs (\<open>LOG_TO_FATAL\<close> does not stop the
  program) and \<open>t\<close> is returned all the same: if nothing was stored in it, its
  value is indeterminate.
\<close>

definition GetAs :: "'v value_type \<Rightarrow> string \<Rightarrow> 'v outcome" where
  "GetAs T s = (case vt_extract T s of (ok, None) \<Rightarrow> Inl Indeterminate | (ok, Some t) \<Rightarrow> Inr t)"

section \<open>Formatted extraction of an integer\<close>

definition isspace :: "char \<Rightarrow> bool" where
  "isspace c = (let n = (of_char c :: nat) in n = 32 \<or> (9 \<le> n \<and> n \<le> 13))"

definition isdigit :: "char \<Rightarrow> bool" where
  "isdigit c = (let n = (of_char c :: nat) in 48 \<le> n \<and> n \<le> 57)"

fun digits_value :: "nat \<Rightarrow> string \<Rightarrow> nat" where
  "digits_value acc [] = acc"
| "digits_value acc (c # cs) = digits_value (10 * acc + (of_char c - 48)) cs"

text \<open>
  \<open>operator>>\<close> for a signed integer of range \<open>lo .. hi\<close>: skip white space (at end
  of input nothing is stored), an optional sign, the digits; no digits stores 0
  and a value out of range stores the nearest bound, both with failure.
\<close>

definition extract_int :: "int \<Rightarrow> int \<Rightarrow> string \<Rightarrow> bool \<times> int option" where
  "extract_int lo hi s =
     (case dropWhile isspace s of
        [] \<Rightarrow> (False, None)
      | c # r \<Rightarrow>
          (let neg = (c = CHR ''-'');
               ds = takeWhile isdigit (if neg \<or> c = CHR ''+'' then r else c # r) in
           if ds = [] then (False, Some 0)
           else let v = (if neg then - int (digits_value 0 ds) else int (digits_value 0 ds)) in
                if v < lo then (False, Some lo)
                else if hi < v then (False, Some hi)
                else (True, Some v)))"

section \<open>The instances \<open>int32_t\<close> and \<open>int64_t\<close>\<close>

text \<open>
  \<open>_sum / _totalCount\<close>: integer division truncates; dividing by zero, or a quotient
  above the range, is undefined.
\<close>

definition int_div_count :: "'w::len word \<Rightarrow> int \<Rightarrow> 'w word outcome" where
  "int_div_count x n =
     (if n = 0 then Inl Division_By_Zero
      else let q = sint x sdiv n in
           if 2 ^ (LENGTH('w) - 1) \<le> q then Inl Arith_Overflow else Inr (word_of_int q))"

definition int_type :: "'w::len word value_type" where
  "int_type =
     \<lparr>vt_zero = 0, vt_one = 1, vt_add = (+), vt_sub = (-),
      vt_less = (\<lambda>a b. sint a < sint b), vt_eq = (=), vt_div = int_div_count,
      vt_extract = (\<lambda>s. map_prod id (map_option word_of_int)
        (extract_int (- (2 ^ (LENGTH('w) - 1))) (2 ^ (LENGTH('w) - 1) - 1) s))\<rparr>"

section \<open>Integers as \<open>float\<close>\<close>

text \<open>
  The conversion of an integer to \<open>float\<close>: 24 significant bits, ties to even.  The
  result is again an integer.
\<close>

fun bit_length :: "nat \<Rightarrow> nat" where
  "bit_length n = (if n = 0 then 0 else Suc (bit_length (n div 2)))"

declare bit_length.simps [simp del]

definition round_shift :: "nat \<Rightarrow> nat \<Rightarrow> nat" where
  "round_shift e m =
     (let q = m div 2 ^ e; r = m mod 2 ^ e; half = 2 ^ (e - 1) in
      (if r > half \<or> (r = half \<and> odd q) then q + 1 else q) * 2 ^ e)"

definition f32_of_int :: "int \<Rightarrow> int" where
  "f32_of_int x =
     (if \<bar>x\<bar> \<le> 2 ^ 24 then x
      else let m = nat \<bar>x\<bar> in sgn x * int (round_shift (bit_length m - 24) m))"

section \<open>Laws of \<open>T\<close> that the aggregates rely on\<close>

locale value_laws =
  fixes T :: "'v value_type"
  assumes add_assoc: "vt_add T (vt_add T a b) c = vt_add T a (vt_add T b c)"
    and add_commute: "vt_add T a b = vt_add T b a"
    and add_zero: "vt_add T a (vt_zero T) = a"
    and sub_add: "vt_sub T (vt_add T a b) b = a"
    and eq_iff: "vt_eq T a b \<longleftrightarrow> a = b"
    and less_irrefl: "\<not> vt_less T a a"
    and less_trans: "vt_less T a b \<Longrightarrow> vt_less T b c \<Longrightarrow> vt_less T a c"
    and less_total: "vt_less T a b \<or> a = b \<or> vt_less T b a"
    and div_pos: "0 < n \<Longrightarrow> \<exists>q. vt_div T x n = Inr q"

definition vt_sum :: "'v value_type \<Rightarrow> 'v list \<Rightarrow> 'v" where
  "vt_sum T xs = foldr (vt_add T) xs (vt_zero T)"

definition vt_count :: "'v value_type \<Rightarrow> nat \<Rightarrow> 'v" where
  "vt_count T n = vt_sum T (replicate n (vt_one T))"

definition is_greatest :: "'v value_type \<Rightarrow> 'v \<Rightarrow> 'v list \<Rightarrow> bool" where
  "is_greatest T x xs = (x \<in> set xs \<and> list_all (\<lambda>y. \<not> vt_less T x y) xs)"

definition is_least :: "'v value_type \<Rightarrow> 'v \<Rightarrow> 'v list \<Rightarrow> bool" where
  "is_least T x xs = (x \<in> set xs \<and> list_all (\<lambda>y. \<not> vt_less T y x) xs)"

lemma vt_sum_simps [simp]:
  "vt_sum T [] = vt_zero T" "vt_sum T (x # xs) = vt_add T x (vt_sum T xs)"
  by (simp_all add: vt_sum_def)

lemma vt_count_simps [simp]:
  "vt_count T 0 = vt_zero T" "vt_count T (Suc n) = vt_add T (vt_one T) (vt_count T n)"
  by (simp_all add: vt_count_def)

context value_laws
begin

lemma zero_add: "vt_add T (vt_zero T) a = a"
  by (metis add_commute add_zero)

lemma add_left_commute: "vt_add T a (vt_add T b c) = vt_add T b (vt_add T a c)"
  by (metis add_assoc add_commute)

lemma sum_append: "vt_sum T (xs @ ys) = vt_add T (vt_sum T xs) (vt_sum T ys)"
  by (induction xs) (simp_all add: zero_add add_assoc)

lemma sub_head: "vt_sub T (vt_add T x a) x = a"
  by (metis add_commute sub_add)

lemma count_Suc: "vt_count T (Suc n) = vt_add T (vt_count T n) (vt_one T)"
  by (simp add: add_commute)

lemma less_asym: "vt_less T a b \<Longrightarrow> \<not> vt_less T b a"
  using less_irrefl less_trans by blast

lemma greatest_unique: "is_greatest T x xs \<Longrightarrow> is_greatest T y xs \<Longrightarrow> x = y"
  unfolding is_greatest_def list_all_iff using less_total by blast

lemma least_unique: "is_least T x xs \<Longrightarrow> is_least T y xs \<Longrightarrow> x = y"
  unfolding is_least_def list_all_iff using less_total by blast

lemma greatest_snoc: "is_greatest T x xs \<Longrightarrow> is_greatest T (std_max T x y) (xs @ [y])"
  unfolding is_greatest_def list_all_iff std_max_def
  by (auto dest: less_trans less_asym simp: less_irrefl) 

lemma least_snoc: "is_least T x xs \<Longrightarrow> is_least T (std_min T x y) (xs @ [y])"
  unfolding is_least_def list_all_iff std_min_def
  by (auto dest: less_trans less_asym simp: less_irrefl)

lemma greatest_single: "is_greatest T x [x]"
  by (simp add: is_greatest_def less_irrefl)

lemma least_single: "is_least T x [x]"
  by (simp add: is_least_def less_irrefl)

text \<open>Dropping a prefix that does not contain the greatest value keeps it greatest.\<close>

lemma greatest_drop: "is_greatest T x (ys @ xs) \<Longrightarrow> x \<notin> set ys \<Longrightarrow> is_greatest T x xs"
  by (simp add: is_greatest_def)

lemma least_drop: "is_least T x (ys @ xs) \<Longrightarrow> x \<notin> set ys \<Longrightarrow> is_least T x xs"
  by (simp add: is_least_def)

end

lemma sdiv_le:
  assumes "(0 :: int) < n" "x < b" "0 < b"
  shows "x sdiv n < b"
proof (cases "0 \<le> x")
  case True
  then have "x sdiv n = x div n" using assms by (simp add: signed_divide_int_def sgn_if)
  also have "\<dots> \<le> x" using zdiv_mono2 [of x 1 n] True assms by simp
  finally show ?thesis using assms by simp
next
  case False
  then have "x sdiv n = - ((- x) div n)" using assms by (simp add: signed_divide_int_def sgn_if)
  also have "\<dots> \<le> 0" using False assms by (simp add: pos_imp_zdiv_nonneg_iff)
  finally show ?thesis using assms by simp
qed

lemma int_div_count_pos:
  fixes x :: "'a::len word"
  shows "0 < n \<Longrightarrow> \<exists>q. int_div_count x n = Inr q"
  using sdiv_le [of n "sint x" "2 ^ (LENGTH('a) - 1)"] sint_lt [of x]
  by (auto simp: int_div_count_def Let_def not_le)

interpretation int_t: value_laws "int_type :: 'w::len word value_type"
proof unfold_locales
  fix x :: "'w word" and n :: int
  assume "0 < n"
  then show "\<exists>q. vt_div int_type x n = Inr q"
    by (simp add: int_type_def int_div_count_pos)
qed (auto simp: int_type_def algebra_simps linorder_neq_iff intro: signed_word_eqI)

section \<open>Facts about the integer instances\<close>

lemma int_type_sel [simp]:
  "vt_zero (int_type :: 'w::len word value_type) = 0"
  "vt_one (int_type :: 'w word value_type) = 1"
  "vt_add (int_type :: 'w word value_type) = (+)"
  "vt_sub (int_type :: 'w word value_type) = (-)"
  "vt_less (int_type :: 'w word value_type) = (\<lambda>a b. sint a < sint b)"
  "vt_eq (int_type :: 'w word value_type) = (=)"
  "vt_div (int_type :: 'w word value_type) = int_div_count"
  by (simp_all add: int_type_def)

lemma vt_sum_int: "vt_sum int_type xs = sum_list xs"
  by (induction xs) simp_all

lemma vt_count_int: "vt_count int_type n = of_nat n"
  by (induction n) simp_all

lemma f32_small: "\<bar>x\<bar> \<le> 2 ^ 24 \<Longrightarrow> f32_of_int x = x"
  by (simp add: f32_of_int_def)

lemma extract_int_range:
  assumes "lo \<le> 0" "0 \<le> hi" "extract_int lo hi s = (ok, Some v)"
  shows "lo \<le> v \<and> v \<le> hi"
  using assms by (auto simp: extract_int_def Let_def split: list.splits if_splits)

lemma extract_int_blank: "list_all isspace s \<Longrightarrow> extract_int lo hi s = (False, None)"
proof -
  assume "list_all isspace s"
  then have "dropWhile isspace s = []" by (simp add: list_all_iff)
  then show ?thesis by (simp only: extract_int_def list.case)
qed

end
