(* ===== verification/Std_Map.thy ===== *)
theory Std_Map
  imports Prelude "HOL-Library.Char_ord" "HOL-Library.List_Lexorder"
begin

text \<open>
  \<open>std::map\<close>: a finite map whose iteration order is the key order.  It is an
  association list with strictly increasing keys; \<open>std::string\<close> keys compare
  lexicographically by unsigned byte, which is the order \<open>List_Lexorder\<close> and
  \<open>Char_ord\<close> put on \<open>string\<close>.  The iteration order matters to the program:
  \<open>TableStore\<close> numbers its columns, and lays out its rows, in this order.
\<close>

section \<open>Operations\<close>

type_synonym ('k, 'v) smap = "('k \<times> 'v) list"

definition smap_find :: "('k, 'v) smap \<Rightarrow> 'k \<Rightarrow> 'v option" where
  "smap_find m k = map_of m k"

definition smap_has :: "('k, 'v) smap \<Rightarrow> 'k \<Rightarrow> bool" where
  "smap_has m k = (smap_find m k \<noteq> None)"

fun smap_put :: "'k::linorder \<Rightarrow> 'v \<Rightarrow> ('k, 'v) smap \<Rightarrow> ('k, 'v) smap" where
  "smap_put k v [] = [(k, v)]"
| "smap_put k v ((k', v') # m) =
     (if k < k' then (k, v) # (k', v') # m
      else if k = k' then (k, v) # m
      else (k', v') # smap_put k v m)"

text \<open>\<open>m[k]\<close> creates a value-initialised entry when there is none.\<close>

definition smap_at :: "'v \<Rightarrow> ('k, 'v) smap \<Rightarrow> 'k \<Rightarrow> 'v" where
  "smap_at d m k = (case smap_find m k of None \<Rightarrow> d | Some v \<Rightarrow> v)"

definition smap_ensure :: "'v \<Rightarrow> 'k::linorder \<Rightarrow> ('k, 'v) smap \<Rightarrow> ('k, 'v) smap" where
  "smap_ensure d k m = (if smap_has m k then m else smap_put k d m)"

definition smap_keys :: "('k, 'v) smap \<Rightarrow> 'k list" where
  "smap_keys m = map fst m"

definition smap_of :: "('k::linorder \<times> 'v) list \<Rightarrow> ('k, 'v) smap" where
  "smap_of kvs = fold (\<lambda>(k, v). smap_put k v) kvs []"

definition smap_ok :: "('k::linorder, 'v) smap \<Rightarrow> bool" where
  "smap_ok m = sorted_wrt (<) (smap_keys m)"

definition smap_erase :: "'k \<Rightarrow> ('k, 'v) smap \<Rightarrow> ('k, 'v) smap" where
  "smap_erase k m = filter (\<lambda>(k', v). k' \<noteq> k) m"

section \<open>The interface of a map\<close>

locale std_map =
  fixes empty :: "'m"
    and put :: "'k \<Rightarrow> 'v \<Rightarrow> 'm \<Rightarrow> 'm"
    and find :: "'m \<Rightarrow> 'k \<Rightarrow> 'v option"
    and ok :: "'m \<Rightarrow> bool"
  assumes find_empty: "find empty k = None"
    and find_put: "ok m \<Longrightarrow> find (put k v m) k' = (if k' = k then Some v else find m k')"
    and ok_empty: "ok empty"
    and ok_put: "ok m \<Longrightarrow> ok (put k v m)"
begin

lemma ok_fold: "ok m \<Longrightarrow> ok (fold (\<lambda>(k, v). put k v) kvs m)"
  by (induction kvs arbitrary: m) (auto simp: ok_put)

lemma find_fold:
  "ok m \<Longrightarrow> find (fold (\<lambda>(k, v). put k v) kvs m) k =
    (case map_of (rev kvs) k of None \<Rightarrow> find m k | Some v \<Rightarrow> Some v)"
proof (induction kvs arbitrary: m)
  case (Cons kv kvs)
  obtain k' v where "kv = (k', v)" by fastforce
  with Cons show ?case
    by (auto simp: ok_put find_put map_add_def split: option.splits)
qed simp

lemma put_other: "ok m \<Longrightarrow> k' \<noteq> k \<Longrightarrow> find (put k v m) k' = find m k'"
  by (simp add: find_put)

lemma put_same: "ok m \<Longrightarrow> find (put k v m) k = Some v"
  by (simp add: find_put)

end

section \<open>The association list implements it\<close>

lemma smap_keys_simps [simp]:
  "smap_keys [] = []" "smap_keys (kv # m) = fst kv # smap_keys m"
  by (simp_all add: smap_keys_def)

lemma smap_ok_simps [simp]:
  "smap_ok []"
  "smap_ok ((k, v) # m) \<longleftrightarrow> (\<forall>k' \<in> set (smap_keys m). k < k') \<and> smap_ok m"
  by (simp_all add: smap_ok_def)

lemma smap_find_simps [simp]:
  "smap_find [] k = None"
  "smap_find ((k', v) # m) k = (if k = k' then Some v else smap_find m k)"
  by (simp_all add: smap_find_def)

lemma smap_put_keys [simp]: "set (smap_keys (smap_put k v m)) = insert k (set (smap_keys m))"
  by (induction k v m rule: smap_put.induct) auto

lemma smap_ok_put [simp]: "smap_ok m \<Longrightarrow> smap_ok (smap_put k v m)"
  by (induction k v m rule: smap_put.induct) (auto dest: order.strict_trans)

lemma smap_find_put [simp]:
  "smap_find (smap_put k v m) k' = (if k' = k then Some v else smap_find m k')"
  by (induction k v m rule: smap_put.induct) auto

lemma smap_find_None_iff: "smap_find m k = None \<longleftrightarrow> k \<notin> set (smap_keys m)"
  by (induction m) (auto split: if_splits)

lemma smap_find_erase [simp]: "smap_find (smap_erase k m) k' = (if k' = k then None else smap_find m k')"
  by (induction m) (auto simp: smap_find_def smap_erase_def)

lemma smap_ok_erase [simp]: "smap_ok m \<Longrightarrow> smap_ok (smap_erase k m)"
  by (induction m) (auto simp: smap_ok_def smap_erase_def smap_keys_def)

lemma smap_has_iff: "smap_has m k \<longleftrightarrow> k \<in> set (smap_keys m)"
  by (simp add: smap_has_def smap_find_None_iff)

lemma smap_ok_ensure [simp]: "smap_ok m \<Longrightarrow> smap_ok (smap_ensure d k m)"
  by (simp add: smap_ensure_def)

lemma smap_find_ensure [simp]:
  "smap_find (smap_ensure d k m) k' =
    (if k' = k then Some (smap_at d m k) else smap_find m k')"
  by (auto simp: smap_ensure_def smap_at_def smap_has_def split: option.splits)

lemma smap_ok_distinct: "smap_ok m \<Longrightarrow> distinct (smap_keys m)"
  by (simp add: smap_ok_def strict_sorted_iff)

interpretation smap: std_map "[]" smap_put smap_find smap_ok
  by unfold_locales simp_all

lemma smap_ok_of [simp]: "smap_ok (smap_of kvs)"
  unfolding smap_of_def by (rule smap.ok_fold) simp

lemma smap_find_of: "smap_find (smap_of kvs) k = map_of (rev kvs) k"
  unfolding smap_of_def by (subst smap.find_fold) (auto split: option.splits)

lemma smap_find_in: "smap_ok m \<Longrightarrow> (k, v) \<in> set m \<longleftrightarrow> smap_find m k = Some v"
  unfolding smap_find_def
  by (auto simp: smap_keys_def dest: smap_ok_distinct intro: map_of_is_SomeI map_of_SomeD)

text \<open>Two maps with the same keys iterate over the same keys in the same order.\<close>

lemma smap_keys_unique:
  assumes "smap_ok m" "smap_ok m'" "set (smap_keys m) = set (smap_keys m')"
  shows "smap_keys m = smap_keys m'"
  using assms unfolding smap_ok_def by (simp add: strict_sorted_equal)

lemma smap_nth:
  assumes "smap_ok m" and "i < length m" and "smap_keys m ! i = k"
  shows "smap_find m k = Some (map snd m ! i)"
proof -
  have "m ! i = (k, snd (m ! i))" using assms by (simp add: smap_keys_def prod_eq_iff)
  with assms(2) have "(k, map snd m ! i) \<in> set m" by (metis nth_map nth_mem)
  with assms(1) show ?thesis by (simp add: smap_find_in)
qed

end
