(* ===== verification/User_Events_Struct.thy ===== *)
theory User_Events_Struct
  imports Complex_Main Std_Map
begin

text \<open>
  \<open>nimblenet/UserEvents/UserEventsManager/include/UserEventsStruct.h\<close>: the data of
  the user-event pipeline.  A \<open>float\<close> read from the configuration is the rational
  number it stands for; a \<open>ModelInput\<close> is the buffer it owns, its length is the
  length of the list.
\<close>

record table_event =
  te_groups :: "string list"
  te_timestamp :: int
  te_row :: "string list"

record table_row =
  tr_timestamp :: int
  tr_row :: "(string, string) smap"

record table_info =
  ti_valid :: bool
  ti_name :: string
  ti_schema :: "(string, string) smap"
  ti_expiryTimeInMins :: int

record 'v preprocessor_info =
  pi_rollingWindowsInSecs :: "rat list"
  pi_columnsToAggregate :: "string list"
  pi_aggregateOperators :: "string list"
  pi_groupColumns :: "string list"
  pi_defaultVector :: "'v list"
  pi_tableName :: string
  pi_valid :: bool

type_synonym 'v model_input = "'v list"

end
