(* ===== verification/Aggregate_Column.thy ===== *)
theory Aggregate_Column
  imports Value_Type User_Events_Struct
begin

text \<open>
  \<open>nimblenet/UserEvents/AggregateColumn\<close>: the five classes derived from
  \<open>AggregateColumn<T>\<close>.  A column keeps one number of a feature vector up to
  date while events enter and leave a window of the event log.

  A column object is the record \<open>column\<close>; its dynamic class is \<open>ac_class\<close>.
  The cell \<open>*_storeValue\<close> it writes lives in the feature vector of its group
  (\<open>PreProcessor::_groupWiseFeatureMap\<close>); the operations take the content of the
  cell and return the new content with the new column.  Event indices are the
  C++ \<open>int\<close>s of the source, so that -1 is the source's -1.
\<close>

section \<open>Column objects\<close>

datatype column_class = SumColumn | CountColumn | MinColumn | MaxColumn | AverageColumn

record 'v column =
  ac_class :: column_class
  ac_preprocessorId :: int
  ac_columnId :: int
  ac_group :: string
  ac_storeSlot :: int
  ac_defaultValue :: 'v
  ac_totalCount :: int
  ac_oldestIndex :: int
  ac_sum :: 'v

definition new_column ::
  "'v value_type \<Rightarrow> column_class \<Rightarrow> int \<Rightarrow> int \<Rightarrow> string \<Rightarrow> int \<Rightarrow> 'v \<Rightarrow> 'v column" where
  "new_column T cls preprocessorId columnId grp slot stored =
     \<lparr>ac_class = cls, ac_preprocessorId = preprocessorId, ac_columnId = columnId,
      ac_group = grp, ac_storeSlot = slot, ac_defaultValue = stored,
      ac_totalCount = 0, ac_oldestIndex = -1, ac_sum = vt_zero T\<rparr>"

text \<open>\<open>allEvents[i].groups[_preprocessorId]\<close> and \<open>GetAs<T>(allEvents[i].row[_columnId])\<close>.\<close>

definition event_group :: "'v column \<Rightarrow> table_event list \<Rightarrow> int \<Rightarrow> string outcome" where
  "event_group c evs i = ubind (vec_get evs i) (\<lambda>e. vec_get (te_groups e) (ac_preprocessorId c))"

definition event_value :: "'v value_type \<Rightarrow> 'v column \<Rightarrow> table_event list \<Rightarrow> int \<Rightarrow> 'v outcome" where
  "event_value T c evs i =
     ubind (vec_get evs i) (\<lambda>e. ubind (vec_get (te_row e) (ac_columnId c)) (GetAs T))"

definition count_up :: "'v column \<Rightarrow> 'v column" where
  "count_up c = c\<lparr>ac_totalCount := ac_totalCount c + 1\<rparr>"

definition count_down :: "'v column \<Rightarrow> 'v column" where
  "count_down c = c\<lparr>ac_totalCount := ac_totalCount c - 1\<rparr>"

section \<open>\<open>add_event\<close>\<close>

definition SumColumn_add_event ::
  "'v value_type \<Rightarrow> 'v column \<Rightarrow> 'v \<Rightarrow> table_event list \<Rightarrow> int \<Rightarrow> ('v column \<times> 'v) outcome" where
  "SumColumn_add_event T c v evs newEventIndex =
     ubind (event_group c evs newEventIndex) (\<lambda>g.
       if g \<noteq> ac_group c then Inr (c, v)
       else if ac_oldestIndex c = -1
       then ubind (event_value T c evs newEventIndex) (\<lambda>x.
              Inr ((count_up c)\<lparr>ac_oldestIndex := newEventIndex\<rparr>, x))
       else ubind (event_value T c evs newEventIndex) (\<lambda>x.
              Inr (count_up c, vt_add T v x)))"

definition CountColumn_add_event ::
  "'v value_type \<Rightarrow> 'v column \<Rightarrow> 'v \<Rightarrow> table_event list \<Rightarrow> int \<Rightarrow> ('v column \<times> 'v) outcome" where
  "CountColumn_add_event T c v evs newEventIndex =
     ubind (event_group c evs newEventIndex) (\<lambda>g.
       if g \<noteq> ac_group c then Inr (c, v)
       else if ac_oldestIndex c = -1
       then Inr ((count_up c)\<lparr>ac_oldestIndex := newEventIndex\<rparr>, vt_one T)
       else Inr (count_up c, vt_add T v (vt_one T)))"

text \<open>\<open>MaxColumn\<close> and \<open>MinColumn\<close> differ in \<open>max\<close> and \<open>min\<close> only; \<open>pick\<close> is the one.\<close>

definition Extremum_add_event ::
  "'v value_type \<Rightarrow> ('v \<Rightarrow> 'v \<Rightarrow> 'v) \<Rightarrow> 'v column \<Rightarrow> 'v \<Rightarrow> table_event list \<Rightarrow> int
    \<Rightarrow> ('v column \<times> 'v) outcome" where
  "Extremum_add_event T pick c v evs newEventIndex =
     ubind (event_group c evs newEventIndex) (\<lambda>g.
       if g \<noteq> ac_group c then Inr (c, v)
       else if ac_oldestIndex c = -1
       then ubind (event_value T c evs newEventIndex) (\<lambda>x.
              Inr ((count_up c)\<lparr>ac_oldestIndex := newEventIndex\<rparr>, x))
       else ubind (event_value T c evs newEventIndex) (\<lambda>x.
              Inr (count_up c, pick v x)))"

definition MaxColumn_add_event where
  "MaxColumn_add_event T = Extremum_add_event T (std_max T)"

definition MinColumn_add_event where
  "MinColumn_add_event T = Extremum_add_event T (std_min T)"

definition AverageColumn_add_event ::
  "'v value_type \<Rightarrow> 'v column \<Rightarrow> 'v \<Rightarrow> table_event list \<Rightarrow> int \<Rightarrow> ('v column \<times> 'v) outcome" where
  "AverageColumn_add_event T c v evs newEventIndex =
     ubind (event_group c evs newEventIndex) (\<lambda>g.
       if g \<noteq> ac_group c then Inr (c, v)
       else let c1 = (if ac_oldestIndex c = -1
                      then (count_up c)\<lparr>ac_oldestIndex := newEventIndex\<rparr> else count_up c) in
            ubind (event_value T c evs newEventIndex) (\<lambda>x.
              let s = vt_add T (ac_sum c1) x in
              ubind (vt_div T s (ac_totalCount c1)) (\<lambda>q. Inr (c1\<lparr>ac_sum := s\<rparr>, q))))"

section \<open>\<open>remove_events\<close>\<close>

text \<open>The end of every \<open>remove_events\<close> but the one of \<open>AverageColumn\<close>.\<close>

definition settle :: "int \<Rightarrow> 'v column \<times> 'v \<Rightarrow> 'v column \<times> 'v" where
  "settle oldestValidIndex cv = (case cv of (c, v) \<Rightarrow>
     if ac_totalCount c = 0 then (c\<lparr>ac_oldestIndex := -1\<rparr>, ac_defaultValue c)
     else (c\<lparr>ac_oldestIndex := oldestValidIndex\<rparr>, v))"

definition Sum_remove_step ::
  "'v value_type \<Rightarrow> table_event list \<Rightarrow> int \<Rightarrow> 'v column \<times> 'v \<Rightarrow> ('v column \<times> 'v) outcome" where
  "Sum_remove_step T evs i cv = (case cv of (c, v) \<Rightarrow>
     ubind (event_group c evs i) (\<lambda>g.
       if g = ac_group c
       then ubind (event_value T c evs i) (\<lambda>x. Inr (count_down c, vt_sub T v x))
       else Inr (c, v)))"

definition SumColumn_remove_events ::
  "'v value_type \<Rightarrow> 'v column \<Rightarrow> 'v \<Rightarrow> table_event list \<Rightarrow> int \<Rightarrow> ('v column \<times> 'v) outcome" where
  "SumColumn_remove_events T c v evs oldestValidIndex =
     ubind (ufold (Sum_remove_step T evs) [ac_oldestIndex c .. oldestValidIndex - 1] (c, v))
       (\<lambda>cv. Inr (settle oldestValidIndex cv))"

definition Count_remove_step ::
  "'v value_type \<Rightarrow> table_event list \<Rightarrow> int \<Rightarrow> 'v column \<times> 'v \<Rightarrow> ('v column \<times> 'v) outcome" where
  "Count_remove_step T evs i cv = (case cv of (c, v) \<Rightarrow>
     ubind (event_group c evs i) (\<lambda>g.
       if g = ac_group c then Inr (count_down c, vt_sub T v (vt_one T)) else Inr (c, v)))"

definition CountColumn_remove_events ::
  "'v value_type \<Rightarrow> 'v column \<Rightarrow> 'v \<Rightarrow> table_event list \<Rightarrow> int \<Rightarrow> ('v column \<times> 'v) outcome" where
  "CountColumn_remove_events T c v evs oldestValidIndex =
     ubind (ufold (Count_remove_step T evs) [ac_oldestIndex c .. oldestValidIndex - 1] (c, v))
       (\<lambda>cv. Inr (settle oldestValidIndex cv))"

definition Average_remove_step ::
  "'v value_type \<Rightarrow> table_event list \<Rightarrow> int \<Rightarrow> 'v column \<Rightarrow> 'v column outcome" where
  "Average_remove_step T evs i c =
     ubind (event_group c evs i) (\<lambda>g.
       if g = ac_group c
       then ubind (event_value T c evs i) (\<lambda>x.
              Inr ((count_down c)\<lparr>ac_sum := vt_sub T (ac_sum c) x\<rparr>))
       else Inr c)"

definition AverageColumn_remove_events ::
  "'v value_type \<Rightarrow> 'v column \<Rightarrow> 'v \<Rightarrow> table_event list \<Rightarrow> int \<Rightarrow> ('v column \<times> 'v) outcome" where
  "AverageColumn_remove_events T c v evs oldestValidIndex =
     ubind (ufold (Average_remove_step T evs) [ac_oldestIndex c .. oldestValidIndex - 1] c) (\<lambda>c1.
       if ac_totalCount c1 = 0
       then Inr (c1\<lparr>ac_sum := vt_zero T, ac_oldestIndex := -1\<rparr>, ac_defaultValue c1)
       else ubind (vt_div T (ac_sum c1) (ac_totalCount c1)) (\<lambda>q.
              Inr (c1\<lparr>ac_oldestIndex := oldestValidIndex\<rparr>, q)))"

text \<open>
  The loop of \<open>MaxColumn\<close>/\<open>MinColumn\<close>.  While no expired event carried the
  extreme value it only counts down; the first one that does resets the column
  and moves \<open>i\<close> to \<open>oldestValidIndex - 1\<close>, and the rest of the loop recomputes
  the extremum over the events that are left.  The loop condition compares the
  \<open>int\<close> \<open>i\<close> with a \<open>size_t\<close>.
\<close>

function extremum_loop ::
  "'v value_type \<Rightarrow> ('v \<Rightarrow> 'v \<Rightarrow> 'v) \<Rightarrow> table_event list \<Rightarrow> int \<Rightarrow> int \<Rightarrow> bool \<Rightarrow> 'v column \<Rightarrow> 'v
    \<Rightarrow> ('v column \<times> 'v) outcome" where
  "extremum_loop T pick evs oldestValidIndex i changed c v =
     (if \<not> int_lt_size i (length evs) then Inr (c, v)
      else if \<not> changed \<and> oldestValidIndex \<le> i then Inr (c, v)
      else ubind (event_group c evs i) (\<lambda>g.
        if g = ac_group c
        then ubind (event_value T c evs i) (\<lambda>val.
          if changed
          then if ac_totalCount c = 0
               then extremum_loop T pick evs oldestValidIndex (i + 1) True
                      (count_up (c\<lparr>ac_oldestIndex := i\<rparr>)) val
               else extremum_loop T pick evs oldestValidIndex (i + 1) True (count_up c) (pick v val)
          else if vt_eq T val v
          then extremum_loop T pick evs oldestValidIndex oldestValidIndex True
                 (c\<lparr>ac_totalCount := 0\<rparr>) (ac_defaultValue c)
          else extremum_loop T pick evs oldestValidIndex (i + 1) False (count_down c) v)
        else extremum_loop T pick evs oldestValidIndex (i + 1) changed c v))"
  by pat_completeness auto
termination
  by (relation "measure (\<lambda>(T, pick, evs, k, i, changed, c, v). nat (int (length evs) - i))")
    (auto dest: int_lt_size_bound)

declare extremum_loop.simps [simp del]

definition Extremum_remove_events ::
  "'v value_type \<Rightarrow> ('v \<Rightarrow> 'v \<Rightarrow> 'v) \<Rightarrow> 'v column \<Rightarrow> 'v \<Rightarrow> table_event list \<Rightarrow> int
    \<Rightarrow> ('v column \<times> 'v) outcome" where
  "Extremum_remove_events T pick c v evs oldestValidIndex =
     ubind (extremum_loop T pick evs oldestValidIndex (ac_oldestIndex c) False c v)
       (\<lambda>cv. Inr (settle oldestValidIndex cv))"

definition MaxColumn_remove_events where
  "MaxColumn_remove_events T = Extremum_remove_events T (std_max T)"

definition MinColumn_remove_events where
  "MinColumn_remove_events T = Extremum_remove_events T (std_min T)"

section \<open>Virtual dispatch\<close>

fun column_add_event ::
  "'v value_type \<Rightarrow> 'v column \<Rightarrow> 'v \<Rightarrow> table_event list \<Rightarrow> int \<Rightarrow> ('v column \<times> 'v) outcome" where
  "column_add_event T c =
     (case ac_class c of
        SumColumn \<Rightarrow> SumColumn_add_event T c
      | CountColumn \<Rightarrow> CountColumn_add_event T c
      | MinColumn \<Rightarrow> MinColumn_add_event T c
      | MaxColumn \<Rightarrow> MaxColumn_add_event T c
      | AverageColumn \<Rightarrow> AverageColumn_add_event T c)"

fun column_remove_events ::
  "'v value_type \<Rightarrow> 'v column \<Rightarrow> 'v \<Rightarrow> table_event list \<Rightarrow> int \<Rightarrow> ('v column \<times> 'v) outcome" where
  "column_remove_events T c =
     (case ac_class c of
        SumColumn \<Rightarrow> SumColumn_remove_events T c
      | CountColumn \<Rightarrow> CountColumn_remove_events T c
      | MinColumn \<Rightarrow> MinColumn_remove_events T c
      | MaxColumn \<Rightarrow> MaxColumn_remove_events T c
      | AverageColumn \<Rightarrow> AverageColumn_remove_events T c)"

end
