(* ===== verification/Column_Contract.thy ===== *)
theory Column_Contract
  imports Aggregate_Column
begin

text \<open>
  What \<open>AggregateColumn<T>\<close> promises: \<open>tracks T c v evs lo hi\<close> says that the
  column \<open>c\<close>, with cell content \<open>v\<close>, represents the events \<open>lo .. hi - 1\<close> of the
  log, that is \<open>v\<close> is the sum, count, least, greatest or average value of the
  events of its group in that range, or the default when there is none.

  The locale \<open>column_contract\<close> is the interface of the class: \<open>add_event\<close>
  extends the range by one event, \<open>remove_events\<close> cuts it at the left.  It is
  interpreted for the five classes.
\<close>

section \<open>The reference: the members of a window\<close>

definition event_fits :: "'v value_type \<Rightarrow> 'v column \<Rightarrow> table_event \<Rightarrow> bool" where
  "event_fits T c e =
     (0 \<le> ac_preprocessorId c \<and> ac_preprocessorId c < int (length (te_groups e)) \<and>
      (ac_class c = CountColumn \<or>
       0 \<le> ac_columnId c \<and> ac_columnId c < int (length (te_row e)) \<and>
       \<not> isl (GetAs T (te_row e ! nat (ac_columnId c)))))"

definition in_group :: "'v column \<Rightarrow> table_event list \<Rightarrow> nat \<Rightarrow> bool" where
  "in_group c evs i = (te_groups (evs ! i) ! nat (ac_preprocessorId c) = ac_group c)"

definition members :: "'v column \<Rightarrow> table_event list \<Rightarrow> nat \<Rightarrow> nat \<Rightarrow> nat list" where
  "members c evs lo hi = filter (in_group c evs) [lo..<hi]"

definition value_at :: "'v value_type \<Rightarrow> 'v column \<Rightarrow> table_event list \<Rightarrow> nat \<Rightarrow> 'v" where
  "value_at T c evs i =
     (case GetAs T (te_row (evs ! i) ! nat (ac_columnId c)) of Inr x \<Rightarrow> x | Inl f \<Rightarrow> vt_zero T)"

definition window_values :: "'v value_type \<Rightarrow> 'v column \<Rightarrow> table_event list \<Rightarrow> nat \<Rightarrow> nat \<Rightarrow> 'v list" where
  "window_values T c evs lo hi = map (value_at T c evs) (members c evs lo hi)"

definition summary :: "'v value_type \<Rightarrow> column_class \<Rightarrow> 'v list \<Rightarrow> 'v \<Rightarrow> bool" where
  "summary T cls xs v = (case cls of
      SumColumn \<Rightarrow> v = vt_sum T xs
    | CountColumn \<Rightarrow> v = vt_count T (length xs)
    | MinColumn \<Rightarrow> is_least T v xs
    | MaxColumn \<Rightarrow> is_greatest T v xs
    | AverageColumn \<Rightarrow> vt_div T (vt_sum T xs) (int (length xs)) = Inr v)"

definition average_sum_ok :: "'v value_type \<Rightarrow> 'v column \<Rightarrow> 'v list \<Rightarrow> bool" where
  "average_sum_ok T c xs = (ac_class c = AverageColumn \<longrightarrow> ac_sum c = vt_sum T xs)"

definition tracks ::
  "'v value_type \<Rightarrow> 'v column \<Rightarrow> 'v \<Rightarrow> table_event list \<Rightarrow> nat \<Rightarrow> nat \<Rightarrow> bool" where
  "tracks T c v evs lo hi =
     (let ms = members c evs lo hi; xs = window_values T c evs lo hi in
      ac_totalCount c = int (length ms) \<and> average_sum_ok T c xs \<and>
      (if ms = [] then ac_oldestIndex c = -1 \<and> v = ac_defaultValue c
       else 0 \<le> ac_oldestIndex c \<and> ac_oldestIndex c \<le> int hi \<and>
            members c evs (nat (ac_oldestIndex c)) hi = ms \<and> summary T (ac_class c) xs v))"

definition same_column :: "'v column \<Rightarrow> 'v column \<Rightarrow> bool" where
  "same_column c d =
     (ac_class d = ac_class c \<and> ac_preprocessorId d = ac_preprocessorId c \<and>
      ac_columnId d = ac_columnId c \<and> ac_group d = ac_group c \<and>
      ac_storeSlot d = ac_storeSlot c \<and> ac_defaultValue d = ac_defaultValue c)"

section \<open>Elementary facts\<close>

lemma count_up_sel [simp]:
  "ac_class (count_up c) = ac_class c" "ac_preprocessorId (count_up c) = ac_preprocessorId c"
  "ac_columnId (count_up c) = ac_columnId c" "ac_group (count_up c) = ac_group c"
  "ac_storeSlot (count_up c) = ac_storeSlot c" "ac_defaultValue (count_up c) = ac_defaultValue c"
  "ac_totalCount (count_up c) = ac_totalCount c + 1" "ac_oldestIndex (count_up c) = ac_oldestIndex c"
  "ac_sum (count_up c) = ac_sum c"
  by (simp_all add: count_up_def)

lemma count_down_sel [simp]:
  "ac_class (count_down c) = ac_class c" "ac_preprocessorId (count_down c) = ac_preprocessorId c"
  "ac_columnId (count_down c) = ac_columnId c" "ac_group (count_down c) = ac_group c"
  "ac_storeSlot (count_down c) = ac_storeSlot c" "ac_defaultValue (count_down c) = ac_defaultValue c"
  "ac_totalCount (count_down c) = ac_totalCount c - 1" "ac_oldestIndex (count_down c) = ac_oldestIndex c"
  "ac_sum (count_down c) = ac_sum c"
  by (simp_all add: count_down_def)

lemma same_column_refl [simp]: "same_column c c"
  by (simp add: same_column_def)

lemma same_column_trans [trans]: "same_column a b \<Longrightarrow> same_column b c \<Longrightarrow> same_column a c"
  by (simp add: same_column_def)

lemma same_column_updates [simp]:
  "same_column c (count_up d) = same_column c d" "same_column c (count_down d) = same_column c d"
  "same_column c (d\<lparr>ac_oldestIndex := k\<rparr>) = same_column c d"
  "same_column c (d\<lparr>ac_totalCount := n\<rparr>) = same_column c d"
  "same_column c (d\<lparr>ac_sum := s\<rparr>) = same_column c d"
  by (simp_all add: same_column_def)

text \<open>Everything about the members depends on the identity of the column only.\<close>

lemma same_column_cong:
  assumes "same_column c d"
  shows "in_group d = in_group c" "members d = members c" "value_at T d = value_at T c"
    "window_values T d = window_values T c" "event_group d = event_group c"
    "event_value T d = event_value T c" "event_fits T d = event_fits T c"
    "ac_class d = ac_class c" "ac_defaultValue d = ac_defaultValue c"
proof -
  show g: "in_group d = in_group c" and v: "value_at T d = value_at T c"
    using assms by (simp_all add: same_column_def in_group_def value_at_def fun_eq_iff)
  show m: "members d = members c" by (simp add: members_def g fun_eq_iff)
  show "window_values T d = window_values T c" by (simp add: window_values_def m v fun_eq_iff)
qed (use assms in \<open>simp_all add: same_column_def event_group_def event_value_def event_fits_def fun_eq_iff\<close>)

lemma members_empty [simp]: "hi \<le> lo \<Longrightarrow> members c evs lo hi = []"
  by (simp add: members_def)

lemma members_Suc:
  "lo \<le> hi \<Longrightarrow> members c evs lo (Suc hi) = members c evs lo hi @ (if in_group c evs hi then [hi] else [])"
  by (simp add: members_def)

lemma members_split:
  "lo \<le> k \<Longrightarrow> k \<le> hi \<Longrightarrow> members c evs lo hi = members c evs lo k @ members c evs k hi"
  unfolding members_def using upt_add_eq_append [of lo k "hi - k"] by simp

lemma window_values_split:
  "lo \<le> k \<Longrightarrow> k \<le> hi \<Longrightarrow>
    window_values T c evs lo hi = window_values T c evs lo k @ window_values T c evs k hi"
  by (simp add: window_values_def members_split [of lo k hi])

lemma members_first:
  "i < hi \<Longrightarrow> members c evs i hi = (if in_group c evs i then [i] else []) @ members c evs (Suc i) hi"
  by (simp add: members_def upt_conv_Cons)

lemma window_values_first:
  "i < hi \<Longrightarrow> window_values T c evs i hi =
    (if in_group c evs i then [value_at T c evs i] else []) @ window_values T c evs (Suc i) hi"
  by (simp add: window_values_def members_first)

lemma length_window_values [simp]: "length (window_values T c evs lo hi) = length (members c evs lo hi)"
  by (simp add: window_values_def)

lemma window_values_Nil_iff [simp]: "window_values T c evs lo hi = [] \<longleftrightarrow> members c evs lo hi = []"
  by (simp add: window_values_def)

lemma event_group_eval:
  "event_fits T c (evs ! i) \<Longrightarrow> i < length evs \<Longrightarrow>
    event_group c evs (int i) = Inr (te_groups (evs ! i) ! nat (ac_preprocessorId c))"
  by (simp add: event_group_def event_fits_def)

lemma event_group_member:
  "event_fits T c (evs ! i) \<Longrightarrow> i < length evs \<Longrightarrow> in_group c evs i \<Longrightarrow>
    event_group c evs (int i) = Inr (ac_group c)"
  by (simp add: event_group_eval in_group_def)

lemma event_group_foreign:
  "event_fits T c (evs ! i) \<Longrightarrow> i < length evs \<Longrightarrow> \<not> in_group c evs i \<Longrightarrow>
    \<exists>g. event_group c evs (int i) = Inr g \<and> g \<noteq> ac_group c"
  by (simp add: event_group_eval in_group_def)

lemma event_value_eval:
  "event_fits T c (evs ! i) \<Longrightarrow> i < length evs \<Longrightarrow> ac_class c \<noteq> CountColumn \<Longrightarrow>
    event_value T c evs (int i) = Inr (value_at T c evs i)"
  by (auto simp: event_value_def event_fits_def value_at_def split: sum.splits)

text \<open>The members of a suffix of the range, when the first column is the same.\<close>

lemma members_suffix:
  assumes "members c evs o' hi = members c evs lo hi" "lo \<le> k" "k \<le> o'" "o' \<le> hi"
  shows "members c evs k hi = members c evs lo hi"
proof -
  have "members c evs lo hi = members c evs lo k @ members c evs k o' @ members c evs o' hi"
    using assms members_split [of lo k hi c evs] members_split [of k o' hi c evs] by simp
  with assms(1) have "members c evs lo k = []" "members c evs k o' = []" by simp_all
  then show ?thesis using assms members_split [of k o' hi c evs] by simp
qed

lemma events_fit_nth: "list_all (event_fits T c) evs \<Longrightarrow> i < length evs \<Longrightarrow> event_fits T c (evs ! i)"
  by (simp add: list_all_length)

section \<open>The interface\<close>

locale column_contract = value_laws T for T :: "'v value_type" +
  fixes cls :: column_class
    and add :: "'v column \<Rightarrow> 'v \<Rightarrow> table_event list \<Rightarrow> int \<Rightarrow> ('v column \<times> 'v) outcome"
    and remove :: "'v column \<Rightarrow> 'v \<Rightarrow> table_event list \<Rightarrow> int \<Rightarrow> ('v column \<times> 'v) outcome"
  assumes add_tracks:
    "\<lbrakk>ac_class c = cls; tracks T c v evs lo hi; lo \<le> hi; hi < length evs;
      event_fits T c (evs ! hi); in_group c evs hi\<rbrakk>
     \<Longrightarrow> \<exists>d w. add c v evs (int hi) = Inr (d, w) \<and> same_column c d \<and> tracks T d w evs lo (Suc hi)"
    and add_foreign:
    "\<lbrakk>ac_class c = cls; hi < length evs; event_fits T c (evs ! hi); \<not> in_group c evs hi\<rbrakk>
     \<Longrightarrow> add c v evs (int hi) = Inr (c, v)"
    and remove_tracks:
    "\<lbrakk>ac_class c = cls; tracks T c v evs lo (length evs); lo \<le> k; k \<le> length evs;
      list_all (event_fits T c) evs; members c evs lo (length evs) \<noteq> []\<rbrakk>
     \<Longrightarrow> \<exists>d w. remove c v evs (int k) = Inr (d, w) \<and> same_column c d \<and>
           tracks T d w evs k (length evs)"

lemma tracks_new: "tracks T (new_column T cls p n g slot v) v evs lo lo"
  by (simp add: tracks_def new_column_def average_sum_ok_def Let_def window_values_def)

text \<open>Events of other groups leave a column alone and change nothing in its window.\<close>

lemma tracks_foreign:
  assumes "tracks T c v evs lo hi" "lo \<le> hi" "\<not> in_group c evs hi"
  shows "tracks T c v evs lo (Suc hi)"
proof -
  have *: "members c evs lo (Suc hi) = members c evs lo hi"
    and "window_values T c evs lo (Suc hi) = window_values T c evs lo hi"
    using assms by (simp_all add: members_Suc window_values_def)
  moreover have "members c evs (nat (ac_oldestIndex c)) (Suc hi) = members c evs (nat (ac_oldestIndex c)) hi"
    if "ac_oldestIndex c \<le> int hi" using assms that by (simp add: members_Suc nat_le_iff)
  ultimately show ?thesis
    using assms(1) unfolding tracks_def Let_def by (auto split: if_splits)
qed

section \<open>Adding an event\<close>

lemma tracks_add_first:
  assumes "tracks T c v evs lo hi" "lo \<le> hi" "in_group c evs hi" "ac_oldestIndex c = -1"
    and "summary T (ac_class c) [value_at T c evs hi] w" "same_column c d"
    and "ac_totalCount d = ac_totalCount c + 1" "ac_oldestIndex d = int hi"
    and "average_sum_ok T d [value_at T c evs hi]"
  shows "tracks T d w evs lo (Suc hi)"
proof -
  have "members c evs lo hi = []" using assms(1,4) by (auto simp: tracks_def Let_def split: if_splits)
  moreover from this have "ac_totalCount c = 0" using assms(1) by (simp add: tracks_def Let_def)
  ultimately show ?thesis using assms
    by (simp add: tracks_def Let_def same_column_cong [OF assms(6)] members_Suc window_values_def)
qed

lemma tracks_add_next:
  assumes "tracks T c v evs lo hi" "lo \<le> hi" "in_group c evs hi" "ac_oldestIndex c \<noteq> -1"
    and "summary T (ac_class c) (window_values T c evs lo hi) v \<Longrightarrow>
         summary T (ac_class c) (window_values T c evs lo hi @ [value_at T c evs hi]) w"
    and "same_column c d" "ac_totalCount d = ac_totalCount c + 1" "ac_oldestIndex d = ac_oldestIndex c"
    and "average_sum_ok T d (window_values T c evs lo hi @ [value_at T c evs hi])"
  shows "tracks T d w evs lo (Suc hi)"
proof -
  let ?o = "nat (ac_oldestIndex c)"
  have ne: "members c evs lo hi \<noteq> []" and o: "0 \<le> ac_oldestIndex c" "?o \<le> hi"
    and eq: "members c evs ?o hi = members c evs lo hi"
    and sum: "summary T (ac_class c) (window_values T c evs lo hi) v"
    using assms(1,4) by (auto simp: tracks_def Let_def split: if_splits)
  have "window_values T c evs lo (Suc hi) = window_values T c evs lo hi @ [value_at T c evs hi]"
    using assms by (simp add: window_values_def members_Suc)
  moreover have "members c evs ?o (Suc hi) = members c evs lo (Suc hi)"
    using eq o assms by (simp add: members_Suc)
  ultimately show ?thesis using assms ne o sum
    by (simp add: tracks_def Let_def same_column_cong [OF assms(6)] members_Suc)
qed


section \<open>The five classes add events\<close>

context value_laws
begin

lemma Sum_add:
  assumes "ac_class c = SumColumn" "tracks T c v evs lo hi" "lo \<le> hi" "hi < length evs"
    "event_fits T c (evs ! hi)" "in_group c evs hi"
  shows "\<exists>d w. SumColumn_add_event T c v evs (int hi) = Inr (d, w) \<and> same_column c d \<and>
    tracks T d w evs lo (Suc hi)"
proof (cases "ac_oldestIndex c = -1")
  case True
  with assms show ?thesis
    by (auto simp: SumColumn_add_event_def event_group_member event_value_eval add_zero
        summary_def average_sum_ok_def intro: tracks_add_first)
next
  case False
  with assms show ?thesis
    by (auto simp: SumColumn_add_event_def event_group_member event_value_eval add_zero
        summary_def average_sum_ok_def sum_append intro: tracks_add_next)
qed

lemma Count_add:
  assumes "ac_class c = CountColumn" "tracks T c v evs lo hi" "lo \<le> hi" "hi < length evs"
    "event_fits T c (evs ! hi)" "in_group c evs hi"
  shows "\<exists>d w. CountColumn_add_event T c v evs (int hi) = Inr (d, w) \<and> same_column c d \<and>
    tracks T d w evs lo (Suc hi)"
proof (cases "ac_oldestIndex c = -1")
  case True
  with assms show ?thesis
    by (auto simp: CountColumn_add_event_def event_group_member add_zero
        summary_def average_sum_ok_def intro: tracks_add_first)
next
  case False
  with assms show ?thesis
    by (auto simp: CountColumn_add_event_def event_group_member add_commute
        summary_def average_sum_ok_def intro: tracks_add_next)
qed

lemma Max_add:
  assumes "ac_class c = MaxColumn" "tracks T c v evs lo hi" "lo \<le> hi" "hi < length evs"
    "event_fits T c (evs ! hi)" "in_group c evs hi"
  shows "\<exists>d w. MaxColumn_add_event T c v evs (int hi) = Inr (d, w) \<and> same_column c d \<and>
    tracks T d w evs lo (Suc hi)"
proof (cases "ac_oldestIndex c = -1")
  case True
  with assms show ?thesis
    by (auto simp: MaxColumn_add_event_def Extremum_add_event_def event_group_member event_value_eval
        summary_def average_sum_ok_def greatest_single intro: tracks_add_first)
next
  case False
  let ?w = "std_max T v (value_at T c evs hi)"
  have "MaxColumn_add_event T c v evs (int hi) = Inr (count_up c, ?w)"
    using False assms
    by (simp add: MaxColumn_add_event_def Extremum_add_event_def event_group_member event_value_eval)
  moreover have "tracks T (count_up c) ?w evs lo (Suc hi)"
    using False assms by (intro tracks_add_next [OF assms(2,3,6) False])
      (simp_all add: summary_def average_sum_ok_def greatest_snoc)
  ultimately show ?thesis by simp
qed

lemma Min_add:
  assumes "ac_class c = MinColumn" "tracks T c v evs lo hi" "lo \<le> hi" "hi < length evs"
    "event_fits T c (evs ! hi)" "in_group c evs hi"
  shows "\<exists>d w. MinColumn_add_event T c v evs (int hi) = Inr (d, w) \<and> same_column c d \<and>
    tracks T d w evs lo (Suc hi)"
proof (cases "ac_oldestIndex c = -1")
  case True
  with assms show ?thesis
    by (auto simp: MinColumn_add_event_def Extremum_add_event_def event_group_member event_value_eval
        summary_def average_sum_ok_def least_single intro: tracks_add_first)
next
  case False
  let ?w = "std_min T v (value_at T c evs hi)"
  have "MinColumn_add_event T c v evs (int hi) = Inr (count_up c, ?w)"
    using False assms
    by (simp add: MinColumn_add_event_def Extremum_add_event_def event_group_member event_value_eval)
  moreover have "tracks T (count_up c) ?w evs lo (Suc hi)"
    using False assms by (intro tracks_add_next [OF assms(2,3,6) False])
      (simp_all add: summary_def average_sum_ok_def least_snoc)
  ultimately show ?thesis by simp
qed

lemma Average_add:
  assumes "ac_class c = AverageColumn" "tracks T c v evs lo hi" "lo \<le> hi" "hi < length evs"
    "event_fits T c (evs ! hi)" "in_group c evs hi"
  shows "\<exists>d w. AverageColumn_add_event T c v evs (int hi) = Inr (d, w) \<and> same_column c d \<and>
    tracks T d w evs lo (Suc hi)"
proof -
  let ?xs = "window_values T c evs lo hi" and ?x = "value_at T c evs hi"
  have s: "ac_sum c = vt_sum T ?xs" and n: "ac_totalCount c = int (length ?xs)"
    using assms(1,2) by (simp_all add: tracks_def average_sum_ok_def Let_def)
  then have s': "vt_add T (ac_sum c) ?x = vt_sum T (?xs @ [?x])" by (simp add: sum_append add_zero)
  obtain q where q: "vt_div T (vt_sum T (?xs @ [?x])) (int (length (?xs @ [?x]))) = Inr q"
    using div_pos [of "int (length (?xs @ [?x]))"] by auto
  let ?d0 = "if ac_oldestIndex c = -1 then (count_up c)\<lparr>ac_oldestIndex := int hi\<rparr> else count_up c"
  let ?d = "?d0\<lparr>ac_sum := vt_sum T (?xs @ [?x])\<rparr>"
  have run: "AverageColumn_add_event T c v evs (int hi) = Inr (?d, q)"
    using assms q n s' by (simp add: AverageColumn_add_event_def event_group_member event_value_eval
        Let_def add.commute)
  have "tracks T ?d q evs lo (Suc hi)"
  proof (cases "ac_oldestIndex c = -1")
    case True
    then have "?xs = []" using assms(2) by (auto simp: tracks_def Let_def split: if_splits)
    with True assms q show ?thesis
      by (intro tracks_add_first [OF assms(2,3,6)])
        (simp_all add: summary_def average_sum_ok_def del: window_values_Nil_iff)
  next
    case False
    with assms q show ?thesis
      by (intro tracks_add_next [OF assms(2,3,6)]) (simp_all add: summary_def average_sum_ok_def)
  qed
  moreover have "same_column c ?d" by simp
  ultimately show ?thesis using run by blast
qed

end

section \<open>Removing events\<close>

lemma tracks_nonempty:
  assumes "tracks T c v evs lo hi" "members c evs lo hi \<noteq> []"
  obtains b where "ac_oldestIndex c = int b" "b \<le> hi" "members c evs b hi = members c evs lo hi"
    "window_values T c evs b hi = window_values T c evs lo hi"
    "ac_totalCount c = int (length (members c evs b hi))"
    "summary T (ac_class c) (window_values T c evs b hi) v"
    "average_sum_ok T c (window_values T c evs b hi)"
proof (rule that [of "nat (ac_oldestIndex c)"])
  from assms show "members c evs (nat (ac_oldestIndex c)) hi = members c evs lo hi"
    by (simp add: tracks_def Let_def)
  then show "window_values T c evs (nat (ac_oldestIndex c)) hi = window_values T c evs lo hi"
    by (simp add: window_values_def)
qed (use assms in \<open>auto simp: tracks_def Let_def window_values_def\<close>)

lemma removal_loop:
  assumes "P b s" "k < b \<Longrightarrow> P k s"
    and "\<And>i t. b \<le> i \<Longrightarrow> i < k \<Longrightarrow> P i t \<Longrightarrow> \<exists>u. f (int i) t = Inr u \<and> P (Suc i) u"
  shows "\<exists>s'. ufold f [int b .. int k - 1] s = Inr s' \<and> P k s'"
proof (cases "b \<le> k")
  case True
  then show ?thesis by (rule for_loop_total) (use assms in blast)+
qed (use assms in simp)

text \<open>A loop state that counts the members from index \<open>i\<close> on.\<close>

definition counts_from :: "'v column \<Rightarrow> table_event list \<Rightarrow> nat \<Rightarrow> nat \<Rightarrow> 'v column \<Rightarrow> bool" where
  "counts_from c evs i hi d =
     (same_column c d \<and> ac_totalCount d = int (length (members c evs i hi)))"

lemma counts_from_step:
  assumes "counts_from c evs i hi d" "i < hi"
  shows "in_group c evs i \<Longrightarrow> counts_from c evs (Suc i) hi (count_down d)"
    and "\<not> in_group c evs i \<Longrightarrow> counts_from c evs (Suc i) hi d"
  using assms by (simp_all add: counts_from_def members_first)

lemma tracks_settle:
  assumes "counts_from c evs k hi d" "k \<le> hi" "ac_class c \<noteq> AverageColumn"
    and "members c evs k hi \<noteq> [] \<Longrightarrow> summary T (ac_class c) (window_values T c evs k hi) w"
    and "settle (int k) (d, w) = (d', w')"
  shows "same_column c d' \<and> tracks T d' w' evs k hi"
proof -
  have sc: "same_column c d'" using assms(1,5)
    by (auto simp: settle_def counts_from_def split: if_splits)
  have "ac_totalCount d = int (length (members c evs k hi))" "ac_defaultValue d = ac_defaultValue c"
    using assms(1) by (auto simp: counts_from_def same_column_def)
  with assms(2-5) have "tracks T d' w' evs k hi"
    unfolding tracks_def same_column_cong [OF sc]
    by (auto simp: settle_def average_sum_ok_def same_column_cong [OF sc] split: if_splits)
  with sc show ?thesis ..
qed

context value_laws
begin

lemma Sum_remove:
  assumes "ac_class c = SumColumn" "tracks T c v evs lo (length evs)" "lo \<le> k" "k \<le> length evs"
    "list_all (event_fits T c) evs" "members c evs lo (length evs) \<noteq> []"
  shows "\<exists>d w. SumColumn_remove_events T c v evs (int k) = Inr (d, w) \<and> same_column c d \<and>
    tracks T d w evs k (length evs)"
proof -
  let ?n = "length evs"
  obtain b where b: "ac_oldestIndex c = int b" "b \<le> ?n" "members c evs b ?n = members c evs lo ?n"
    "window_values T c evs b ?n = window_values T c evs lo ?n"
    "ac_totalCount c = int (length (members c evs b ?n))"
    "summary T (ac_class c) (window_values T c evs b ?n) v"
    using assms(2,6) by (rule tracks_nonempty)
  let ?P = "\<lambda>i (d, w). counts_from c evs i ?n d \<and> w = vt_sum T (window_values T c evs i ?n)"
  have "\<exists>s. ufold (Sum_remove_step T evs) [int b .. int k - 1] (c, v) = Inr s \<and> ?P k s"
  proof (rule removal_loop)
    show "?P b (c, v)" using b assms(1) by (simp add: counts_from_def summary_def)
    show "?P k (c, v)" if "k < b"
      using b assms(1,3) that members_suffix [OF b(3) assms(3), of]
      by (simp add: counts_from_def summary_def window_values_def)
  next
    fix i s assume i: "i < k" and P: "?P i s"
    obtain d w where s: "s = (d, w)" by fastforce
    with P have sc: "same_column c d" by (simp add: counts_from_def)
    have i': "i < ?n" using i assms(4) by simp
    note fit = events_fit_nth [OF assms(5) i']
    show "\<exists>u. Sum_remove_step T evs (int i) s = Inr u \<and> ?P (Suc i) u"
    proof (cases "in_group c evs i")
      case True
      then show ?thesis using s P i' fit assms(1) sc counts_from_step(1)
        by (auto simp: Sum_remove_step_def same_column_cong [OF sc] event_group_member
            event_value_eval window_values_first [OF i'] sub_head same_column_def)
    next
      case False
      then show ?thesis using s P i' fit sc counts_from_step(2) event_group_foreign [OF fit i' False]
        by (auto simp: Sum_remove_step_def same_column_cong [OF sc] window_values_first [OF i']
            same_column_def)
    qed
  qed
  then obtain d w where run: "ufold (Sum_remove_step T evs) [int b .. int k - 1] (c, v) = Inr (d, w)"
    and cf: "counts_from c evs k ?n d" and w: "w = vt_sum T (window_values T c evs k ?n)" by auto
  obtain d' w' where st: "settle (int k) (d, w) = (d', w')" by fastforce
  have "same_column c d' \<and> tracks T d' w' evs k ?n"
    by (rule tracks_settle [OF cf assms(4) _ _ st]) (simp_all add: assms(1) w summary_def)
  with run st b(1) show ?thesis by (simp add: SumColumn_remove_events_def)
qed

lemma Count_remove:
  assumes "ac_class c = CountColumn" "tracks T c v evs lo (length evs)" "lo \<le> k" "k \<le> length evs"
    "list_all (event_fits T c) evs" "members c evs lo (length evs) \<noteq> []"
  shows "\<exists>d w. CountColumn_remove_events T c v evs (int k) = Inr (d, w) \<and> same_column c d \<and>
    tracks T d w evs k (length evs)"
proof -
  let ?n = "length evs"
  obtain b where b: "ac_oldestIndex c = int b" "b \<le> ?n" "members c evs b ?n = members c evs lo ?n"
    "ac_totalCount c = int (length (members c evs b ?n))"
    "summary T (ac_class c) (window_values T c evs b ?n) v"
    using assms(2,6) by (rule tracks_nonempty)
  let ?P = "\<lambda>i (d, w). counts_from c evs i ?n d \<and> w = vt_count T (length (members c evs i ?n))"
  have "\<exists>s. ufold (Count_remove_step T evs) [int b .. int k - 1] (c, v) = Inr s \<and> ?P k s"
  proof (rule removal_loop)
    show "?P b (c, v)" using b assms(1) by (simp add: counts_from_def summary_def)
    show "?P k (c, v)" if "k < b"
      using b assms(1,3) that members_suffix [OF b(3) assms(3)]
      by (simp add: counts_from_def summary_def)
  next
    fix i s assume i: "i < k" and P: "?P i s"
    obtain d w where s: "s = (d, w)" by fastforce
    with P have sc: "same_column c d" by (simp add: counts_from_def)
    have i': "i < ?n" using i assms(4) by simp
    note fit = events_fit_nth [OF assms(5) i']
    show "\<exists>u. Count_remove_step T evs (int i) s = Inr u \<and> ?P (Suc i) u"
    proof (cases "in_group c evs i")
      case True
      then show ?thesis using s P i' fit assms(1) sc counts_from_step(1)
        by (auto simp: Count_remove_step_def same_column_cong [OF sc] event_group_member
            members_first [OF i'] sub_head same_column_def)
    next
      case False
      then show ?thesis using s P i' fit sc counts_from_step(2) event_group_foreign [OF fit i' False]
        by (auto simp: Count_remove_step_def same_column_cong [OF sc] members_first [OF i']
            same_column_def)
    qed
  qed
  then obtain d w where run: "ufold (Count_remove_step T evs) [int b .. int k - 1] (c, v) = Inr (d, w)"
    and cf: "counts_from c evs k ?n d" and w: "w = vt_count T (length (members c evs k ?n))" by auto
  obtain d' w' where st: "settle (int k) (d, w) = (d', w')" by fastforce
  have "same_column c d' \<and> tracks T d' w' evs k ?n"
    by (rule tracks_settle [OF cf assms(4) _ _ st]) (simp_all add: assms(1) w summary_def)
  with run st b(1) show ?thesis by (simp add: CountColumn_remove_events_def)
qed

lemma Average_loop:
  assumes "ac_class c = AverageColumn" "k \<le> length evs" "lo \<le> k" "b \<le> length evs"
    "list_all (event_fits T c) evs" "members c evs b (length evs) = members c evs lo (length evs)"
    "ac_totalCount c = int (length (members c evs b (length evs)))"
    "average_sum_ok T c (window_values T c evs b (length evs))"
  shows "\<exists>d. ufold (Average_remove_step T evs) [int b .. int k - 1] c = Inr d \<and>
    counts_from c evs k (length evs) d \<and> ac_sum d = vt_sum T (window_values T c evs k (length evs))"
proof (rule removal_loop)
  let ?n = "length evs"
  show "counts_from c evs b ?n c \<and> ac_sum c = vt_sum T (window_values T c evs b ?n)"
    using assms by (simp add: counts_from_def average_sum_ok_def)
  show "counts_from c evs k ?n c \<and> ac_sum c = vt_sum T (window_values T c evs k ?n)" if "k < b"
    using assms that members_suffix [OF assms(6,3)]
    by (simp add: counts_from_def average_sum_ok_def window_values_def)
  fix i d assume i: "i < k"
    and P: "counts_from c evs i ?n d \<and> ac_sum d = vt_sum T (window_values T c evs i ?n)"
  then have sc: "same_column c d" by (simp add: counts_from_def)
  have i': "i < ?n" using i assms(2) by simp
  note fit = events_fit_nth [OF assms(5) i']
  show "\<exists>u. Average_remove_step T evs (int i) d = Inr u \<and> counts_from c evs (Suc i) ?n u \<and>
      ac_sum u = vt_sum T (window_values T c evs (Suc i) ?n)"
  proof (cases "in_group c evs i")
    case True
    have "counts_from c evs (Suc i) ?n (count_down d)"
      using P i' True counts_from_step(1) by blast
    then have "counts_from c evs (Suc i) ?n ((count_down d)\<lparr>ac_sum := x\<rparr>)" for x
      by (simp add: counts_from_def)
    with True show ?thesis using P i' fit assms(1) sc
      by (auto simp: Average_remove_step_def same_column_cong [OF sc] event_group_member
          event_value_eval window_values_first [OF i'] sub_head same_column_def)
  next
    case False
    then show ?thesis using P i' fit sc counts_from_step(2) event_group_foreign [OF fit i' False]
      by (auto simp: Average_remove_step_def same_column_cong [OF sc] window_values_first [OF i']
          same_column_def)
  qed
qed

lemma Average_remove:
  assumes "ac_class c = AverageColumn" "tracks T c v evs lo (length evs)" "lo \<le> k" "k \<le> length evs"
    "list_all (event_fits T c) evs" "members c evs lo (length evs) \<noteq> []"
  shows "\<exists>d w. AverageColumn_remove_events T c v evs (int k) = Inr (d, w) \<and> same_column c d \<and>
    tracks T d w evs k (length evs)"
proof -
  let ?n = "length evs"
  obtain b where b: "ac_oldestIndex c = int b" "b \<le> ?n" "members c evs b ?n = members c evs lo ?n"
    "ac_totalCount c = int (length (members c evs b ?n))"
    "average_sum_ok T c (window_values T c evs b ?n)"
    using assms(2,6) by (rule tracks_nonempty)
  obtain d where run: "ufold (Average_remove_step T evs) [int b .. int k - 1] c = Inr d"
    and cf: "counts_from c evs k ?n d" and s: "ac_sum d = vt_sum T (window_values T c evs k ?n)"
    using Average_loop [OF assms(1,4,3) b(2) assms(5) b(3,4,5)] by blast
  have sc: "same_column c d" and n: "ac_totalCount d = int (length (members c evs k ?n))"
    using cf by (simp_all add: counts_from_def)
  show ?thesis
  proof (cases "members c evs k ?n = []")
    case True
    let ?d = "d\<lparr>ac_sum := vt_zero T, ac_oldestIndex := -1\<rparr>"
    have sc': "same_column c ?d" using sc by simp
    have "window_values T c evs k ?n = []" using True by simp
    then have "tracks T ?d (ac_defaultValue d) evs k ?n"
      unfolding tracks_def same_column_cong [OF sc'] using True n sc
      by (simp add: average_sum_ok_def same_column_def Let_def del: window_values_Nil_iff)
    with run b(1) n True sc' show ?thesis by (auto simp: AverageColumn_remove_events_def)
  next
    case False
    then obtain q where q: "vt_div T (ac_sum d) (ac_totalCount d) = Inr q"
      using div_pos [of "ac_totalCount d"] n by auto
    let ?d = "d\<lparr>ac_oldestIndex := int k\<rparr>"
    have sc': "same_column c ?d" using sc by simp
    have "tracks T ?d q evs k ?n"
      unfolding tracks_def same_column_cong [OF sc'] using False n s q assms(1,4)
      by (simp add: average_sum_ok_def summary_def)
    with run b(1) n False q sc' show ?thesis by (auto simp: AverageColumn_remove_events_def)
  qed
qed

end

section \<open>Columns of an extreme value\<close>

locale extremum_column = value_laws T for T :: "'v value_type" +
  fixes cls :: column_class and pick :: "'v \<Rightarrow> 'v \<Rightarrow> 'v"
  assumes numeric: "cls \<noteq> CountColumn" "cls \<noteq> AverageColumn"
    and summary_single: "summary T cls [x] x"
    and summary_snoc: "summary T cls xs x \<Longrightarrow> summary T cls (xs @ [y]) (pick x y)"
    and summary_drop: "summary T cls (ys @ xs) x \<Longrightarrow> x \<notin> set ys \<Longrightarrow> summary T cls xs x"
    and summary_mem: "summary T cls xs x \<Longrightarrow> x \<in> set xs"
begin

lemma recompute:
  assumes "i \<le> length evs" "k \<le> i" "ac_class c = cls" "list_all (event_fits T c) evs"
    and "same_column c d" "ac_totalCount d = int (length (members c evs k i))"
    and "members c evs k i \<noteq> [] \<Longrightarrow> summary T cls (window_values T c evs k i) w"
  shows "\<exists>d' w'. extremum_loop T pick evs (int k) (int i) True d w = Inr (d', w') \<and>
    counts_from c evs k (length evs) d' \<and>
    (members c evs k (length evs) \<noteq> [] \<longrightarrow> summary T cls (window_values T c evs k (length evs)) w')"
  using assms
proof (induction arbitrary: d w rule: inc_induct)
  case base
  then show ?case by (simp add: extremum_loop.simps counts_from_def)
next
  case (step i)
  note sc = step.prems(4) and fit = events_fit_nth [OF step.prems(3) step.hyps(2)]
  note unfold = extremum_loop.simps [of T pick evs "int k" "int i" True d w]
  let ?x = "value_at T c evs i"
  show ?case
  proof (cases "in_group c evs i")
    case True
    have g: "event_group d evs (int i) = Inr (ac_group d)" and x: "event_value T d evs (int i) = Inr ?x"
      using True fit step.hyps(2) step.prems(2) numeric sc
      by (simp_all add: same_column_cong [OF sc] event_group_member event_value_eval same_column_def)
    have len: "length (members c evs k (Suc i)) = Suc (length (members c evs k i))"
      and wv: "window_values T c evs k (Suc i) = window_values T c evs k i @ [?x]"
      using True step.prems(1) by (simp_all add: members_Suc window_values_def)
    show ?thesis
    proof (cases "members c evs k i = []")
      case nil: True
      have "window_values T c evs k i = []" using nil by simp
      then have "\<exists>d' w'. extremum_loop T pick evs (int k) (int (Suc i)) True
            (count_up (d\<lparr>ac_oldestIndex := int i\<rparr>)) ?x = Inr (d', w') \<and>
          counts_from c evs k (length evs) d' \<and> (members c evs k (length evs) \<noteq> [] \<longrightarrow>
          summary T cls (window_values T c evs k (length evs)) w')"
        using step.prems sc nil len wv
        by (intro step.IH) (simp_all add: summary_single del: window_values_Nil_iff)
      with g x nil step.hyps(2) step.prems(5) show ?thesis by (simp add: unfold add.commute)
    next
      case ne: False
      then have "\<exists>d' w'. extremum_loop T pick evs (int k) (int (Suc i)) True
            (count_up d) (pick w ?x) = Inr (d', w') \<and>
          counts_from c evs k (length evs) d' \<and> (members c evs k (length evs) \<noteq> [] \<longrightarrow>
          summary T cls (window_values T c evs k (length evs)) w')"
        using step.prems sc len wv by (intro step.IH) (simp_all add: summary_snoc)
      with g x ne step.hyps(2) step.prems(5) show ?thesis by (simp add: unfold add.commute)
    qed
  next
    case False
    obtain g where "event_group d evs (int i) = Inr g" "g \<noteq> ac_group d"
      using event_group_foreign [OF fit step.hyps(2) False] sc
      by (auto simp: same_column_cong [OF sc] same_column_def)
    moreover have "\<exists>d' w'. extremum_loop T pick evs (int k) (int (Suc i)) True d w = Inr (d', w') \<and>
          counts_from c evs k (length evs) d' \<and> (members c evs k (length evs) \<noteq> [] \<longrightarrow>
          summary T cls (window_values T c evs k (length evs)) w')"
      using step.prems False by (intro step.IH) (simp_all add: members_Suc window_values_def)
    ultimately show ?thesis using step.hyps(2) by (simp add: unfold add.commute)
  qed
qed

lemma scan_expired:
  assumes "i \<le> k" "k \<le> length evs" "ac_class c = cls" "list_all (event_fits T c) evs"
    and "counts_from c evs i (length evs) d"
    and "summary T cls (window_values T c evs i (length evs)) w"
  shows "\<exists>d' w'. extremum_loop T pick evs (int k) (int i) False d w = Inr (d', w') \<and>
    counts_from c evs k (length evs) d' \<and>
    (members c evs k (length evs) \<noteq> [] \<longrightarrow> summary T cls (window_values T c evs k (length evs)) w')"
  using assms
proof (induction arbitrary: d w rule: inc_induct)
  case base
  then show ?case by (cases "k = length evs") (simp_all add: extremum_loop.simps)
next
  case (step i)
  let ?n = "length evs" and ?x = "value_at T c evs i"
  have i': "i < ?n" using step.hyps step.prems(1) by simp
  note fit = events_fit_nth [OF step.prems(3) i']
  note unfold = extremum_loop.simps [of T pick evs "int k" "int i" False d w]
  have sc: "same_column c d" using step.prems(4) by (simp add: counts_from_def)
  show ?case
  proof (cases "in_group c evs i")
    case True
    have g: "event_group d evs (int i) = Inr (ac_group d)" and x: "event_value T d evs (int i) = Inr ?x"
      using True fit i' step.prems(2) numeric sc
      by (simp_all add: same_column_cong [OF sc] event_group_member event_value_eval same_column_def)
    show ?thesis
    proof (cases "?x = w")
      case eq: True
      have "\<exists>d' w'. extremum_loop T pick evs (int k) (int k) True (d\<lparr>ac_totalCount := 0\<rparr>)
            (ac_defaultValue d) = Inr (d', w') \<and> counts_from c evs k ?n d' \<and>
          (members c evs k ?n \<noteq> [] \<longrightarrow> summary T cls (window_values T c evs k ?n) w')"
        using step.prems sc by (intro recompute) simp_all
      with g x eq i' step.hyps show ?thesis by (simp add: unfold eq_iff)
    next
      case ne: False
      have "window_values T c evs i ?n = [?x] @ window_values T c evs (Suc i) ?n"
        using True i' by (simp add: window_values_first)
      then have "summary T cls (window_values T c evs (Suc i) ?n) w"
        using step.prems(5) ne by (metis empty_iff insert_iff list.set summary_drop)
      then have "\<exists>d' w'. extremum_loop T pick evs (int k) (int (Suc i)) False (count_down d) w = Inr (d', w') \<and>
          counts_from c evs k ?n d' \<and>
          (members c evs k ?n \<noteq> [] \<longrightarrow> summary T cls (window_values T c evs k ?n) w')"
        using step.prems True i' counts_from_step(1) by (intro step.IH) blast+
      with g x ne i' step.hyps show ?thesis by (simp add: unfold eq_iff add.commute)
    qed
  next
    case False
    obtain g where "event_group d evs (int i) = Inr g" "g \<noteq> ac_group d"
      using event_group_foreign [OF fit i' False] sc
      by (auto simp: same_column_cong [OF sc] same_column_def)
    moreover have "\<exists>d' w'. extremum_loop T pick evs (int k) (int (Suc i)) False d w = Inr (d', w') \<and>
          counts_from c evs k ?n d' \<and>
          (members c evs k ?n \<noteq> [] \<longrightarrow> summary T cls (window_values T c evs k ?n) w')"
      using step.prems False i' counts_from_step(2)
      by (intro step.IH) (simp_all add: window_values_first)
    ultimately show ?thesis using i' step.hyps by (simp add: unfold add.commute)
  qed
qed

lemma Extremum_remove:
  assumes "ac_class c = cls" "tracks T c v evs lo (length evs)" "lo \<le> k" "k \<le> length evs"
    "list_all (event_fits T c) evs" "members c evs lo (length evs) \<noteq> []"
  shows "\<exists>d w. Extremum_remove_events T pick c v evs (int k) = Inr (d, w) \<and> same_column c d \<and>
    tracks T d w evs k (length evs)"
proof -
  let ?n = "length evs"
  obtain b where b: "ac_oldestIndex c = int b" "b \<le> ?n" "members c evs b ?n = members c evs lo ?n"
    "ac_totalCount c = int (length (members c evs b ?n))"
    "summary T (ac_class c) (window_values T c evs b ?n) v"
    using assms(2,6) by (rule tracks_nonempty)
  have "\<exists>d w. extremum_loop T pick evs (int k) (int b) False c v = Inr (d, w) \<and>
    counts_from c evs k ?n d \<and>
    (members c evs k ?n \<noteq> [] \<longrightarrow> summary T cls (window_values T c evs k ?n) w)"
  proof (cases "b \<le> k")
    case True
    then show ?thesis
      by (rule scan_expired) (use assms b in \<open>simp_all add: counts_from_def\<close>)
  next
    case False
    then have "members c evs k ?n = members c evs b ?n"
      using members_suffix [OF b(3) assms(3)] b by simp
    then show ?thesis using False b assms(1)
      by (simp add: extremum_loop.simps counts_from_def window_values_def)
  qed
  then obtain d w where run: "extremum_loop T pick evs (int k) (int b) False c v = Inr (d, w)"
    and cf: "counts_from c evs k ?n d"
    and w: "members c evs k ?n \<noteq> [] \<Longrightarrow> summary T cls (window_values T c evs k ?n) w" by blast
  obtain d' w' where st: "settle (int k) (d, w) = (d', w')" by fastforce
  have "same_column c d' \<and> tracks T d' w' evs k ?n"
    by (rule tracks_settle [OF cf assms(4) _ _ st]) (use assms(1) numeric w in simp_all)
  with run st b(1) show ?thesis by (simp add: Extremum_remove_events_def)
qed

end

sublocale value_laws \<subseteq> greatest: extremum_column T MaxColumn "std_max T"
  by unfold_locales
    (auto simp: summary_def greatest_single greatest_snoc dest: greatest_drop,
     auto simp: is_greatest_def)

sublocale value_laws \<subseteq> least: extremum_column T MinColumn "std_min T"
  by unfold_locales
    (auto simp: summary_def least_single least_snoc dest: least_drop,
     auto simp: is_least_def)

section \<open>The five classes meet the contract\<close>

lemma foreign_add:
  assumes "hi < length evs" "event_fits T c (evs ! hi)" "\<not> in_group c evs hi"
  shows "SumColumn_add_event T c v evs (int hi) = Inr (c, v)"
    "CountColumn_add_event T c v evs (int hi) = Inr (c, v)"
    "Extremum_add_event T pick c v evs (int hi) = Inr (c, v)"
    "AverageColumn_add_event T c v evs (int hi) = Inr (c, v)"
proof -
  obtain g where "event_group c evs (int hi) = Inr g" "g \<noteq> ac_group c"
    using event_group_foreign [OF assms(2,1,3)] by blast
  then show "SumColumn_add_event T c v evs (int hi) = Inr (c, v)"
    "CountColumn_add_event T c v evs (int hi) = Inr (c, v)"
    "Extremum_add_event T pick c v evs (int hi) = Inr (c, v)"
    "AverageColumn_add_event T c v evs (int hi) = Inr (c, v)"
    by (simp_all add: SumColumn_add_event_def CountColumn_add_event_def Extremum_add_event_def
        AverageColumn_add_event_def)
qed

sublocale value_laws \<subseteq> sum_column: column_contract T SumColumn
    "SumColumn_add_event T" "SumColumn_remove_events T"
  by unfold_locales (use Sum_add Sum_remove foreign_add in auto)

sublocale value_laws \<subseteq> count_column: column_contract T CountColumn
    "CountColumn_add_event T" "CountColumn_remove_events T"
  by unfold_locales (use Count_add Count_remove foreign_add in auto)

sublocale value_laws \<subseteq> max_column: column_contract T MaxColumn
    "MaxColumn_add_event T" "MaxColumn_remove_events T"
  by unfold_locales
    (use Max_add greatest.Extremum_remove foreign_add in
      \<open>auto simp: MaxColumn_remove_events_def MaxColumn_add_event_def\<close>)

sublocale value_laws \<subseteq> min_column: column_contract T MinColumn
    "MinColumn_add_event T" "MinColumn_remove_events T"
  by unfold_locales
    (use Min_add least.Extremum_remove foreign_add in
      \<open>auto simp: MinColumn_remove_events_def MinColumn_add_event_def\<close>)

sublocale value_laws \<subseteq> average_column: column_contract T AverageColumn
    "AverageColumn_add_event T" "AverageColumn_remove_events T"
  by unfold_locales (use Average_add Average_remove foreign_add in auto)

interpretation int_sum: column_contract "int_type :: 'w::len word value_type" SumColumn
    "SumColumn_add_event int_type" "SumColumn_remove_events int_type"
  by unfold_locales

interpretation int_count: column_contract "int_type :: 'w::len word value_type" CountColumn
    "CountColumn_add_event int_type" "CountColumn_remove_events int_type"
  by unfold_locales

interpretation int_max: column_contract "int_type :: 'w::len word value_type" MaxColumn
    "MaxColumn_add_event int_type" "MaxColumn_remove_events int_type"
  by unfold_locales

interpretation int_min: column_contract "int_type :: 'w::len word value_type" MinColumn
    "MinColumn_add_event int_type" "MinColumn_remove_events int_type"
  by unfold_locales

interpretation int_average: column_contract "int_type :: 'w::len word value_type" AverageColumn
    "AverageColumn_add_event int_type" "AverageColumn_remove_events int_type"
  by unfold_locales

interpretation int_greatest: extremum_column "int_type :: 'w::len word value_type" MaxColumn
    "std_max int_type"
  by unfold_locales

section \<open>Dispatched calls\<close>

context value_laws
begin

lemma column_add_member:
  assumes "tracks T c v evs lo hi" "lo \<le> hi" "hi < length evs" "event_fits T c (evs ! hi)"
    "in_group c evs hi"
  shows "\<exists>d w. column_add_event T c v evs (int hi) = Inr (d, w) \<and> same_column c d \<and>
    tracks T d w evs lo (Suc hi)"
proof (cases "ac_class c")
  case SumColumn
  then show ?thesis using sum_column.add_tracks [OF SumColumn assms] by simp
next
  case CountColumn
  then show ?thesis using count_column.add_tracks [OF CountColumn assms] by simp
next
  case MinColumn
  then show ?thesis using min_column.add_tracks [OF MinColumn assms] by simp
next
  case MaxColumn
  then show ?thesis using max_column.add_tracks [OF MaxColumn assms] by simp
next
  case AverageColumn
  then show ?thesis using average_column.add_tracks [OF AverageColumn assms] by simp
qed

lemma column_remove:
  assumes "tracks T c v evs lo (length evs)" "lo \<le> k" "k \<le> length evs"
    "list_all (event_fits T c) evs" "members c evs lo (length evs) \<noteq> []"
  shows "\<exists>d w. column_remove_events T c v evs (int k) = Inr (d, w) \<and> same_column c d \<and>
    tracks T d w evs k (length evs)"
proof (cases "ac_class c")
  case SumColumn
  then show ?thesis using sum_column.remove_tracks [OF SumColumn assms] by simp
next
  case CountColumn
  then show ?thesis using count_column.remove_tracks [OF CountColumn assms] by simp
next
  case MinColumn
  then show ?thesis using min_column.remove_tracks [OF MinColumn assms] by simp
next
  case MaxColumn
  then show ?thesis using max_column.remove_tracks [OF MaxColumn assms] by simp
next
  case AverageColumn
  then show ?thesis using average_column.remove_tracks [OF AverageColumn assms] by simp
qed

lemma column_add_foreign:
  assumes "hi < length evs" "event_fits T c (evs ! hi)" "\<not> in_group c evs hi"
  shows "column_add_event T c v evs (int hi) = Inr (c, v)"
  using foreign_add [OF assms]
  by (cases "ac_class c") (simp_all add: MaxColumn_add_event_def MinColumn_add_event_def)

text \<open>Whatever the group of the event: the window grows by one.\<close>

lemma column_add:
  assumes "tracks T c v evs lo hi" "lo \<le> hi" "hi < length evs" "event_fits T c (evs ! hi)"
  shows "\<exists>d w. column_add_event T c v evs (int hi) = Inr (d, w) \<and> same_column c d \<and>
    tracks T d w evs lo (Suc hi)"
proof (cases "in_group c evs hi")
  case True
  then show ?thesis by (rule column_add_member [OF assms])
next
  case False
  then have "column_add_event T c v evs (int hi) = Inr (c, v)" and "tracks T c v evs lo (Suc hi)"
    using column_add_foreign [OF assms(3,4)] tracks_foreign [OF assms(1,2)] by blast+
  then show ?thesis by simp
qed

end

section \<open>Prefixes of the log\<close>

definition same_for :: "'v column \<Rightarrow> table_event list \<Rightarrow> table_event list \<Rightarrow> nat \<Rightarrow> bool" where
  "same_for c evs evs' hi =
     (\<forall>i < hi. te_row (evs' ! i) = te_row (evs ! i) \<and>
        te_groups (evs' ! i) ! nat (ac_preprocessorId c) = te_groups (evs ! i) ! nat (ac_preprocessorId c))"

lemma members_same_for: "same_for c evs evs' hi \<Longrightarrow> members c evs' lo hi = members c evs lo hi"
  unfolding members_def by (rule filter_cong) (auto simp: same_for_def in_group_def)

lemma window_values_same_for:
  assumes "same_for c evs evs' hi"
  shows "window_values T c evs' lo hi = window_values T c evs lo hi"
  unfolding window_values_def members_same_for [OF assms]
  by (rule map_cong) (use assms in \<open>auto simp: same_for_def value_at_def members_def\<close>)

lemma tracks_same_for:
  assumes "same_for c evs evs' hi"
  shows "tracks T c v evs' lo hi = tracks T c v evs lo hi"
  by (simp add: tracks_def members_same_for [OF assms] window_values_same_for [OF assms])

lemma same_for_take: "hi \<le> n \<Longrightarrow> same_for c evs (take n evs) hi"
  by (simp add: same_for_def)

section \<open>Runs of one column\<close>

text \<open>
  A run over a log: \<open>Append\<close> is \<open>add_event\<close> for the next event of the log,
  \<open>Expire k\<close> is \<open>remove_events(allEvents, k)\<close>.  \<open>lo\<close> and \<open>hi\<close> delimit the window.
\<close>

datatype window_op = Append | Expire nat

fun column_run ::
  "'v value_type \<Rightarrow> table_event list \<Rightarrow> window_op list \<Rightarrow> nat \<Rightarrow> 'v column \<times> 'v
    \<Rightarrow> ('v column \<times> 'v) outcome" where
  "column_run T lg [] hi cv = Inr cv"
| "column_run T lg (Append # ops) hi (c, v) =
     ubind (column_add_event T c v (take (Suc hi) lg) (int hi)) (column_run T lg ops (Suc hi))"
| "column_run T lg (Expire k # ops) hi (c, v) =
     ubind (column_remove_events T c v (take hi lg) (int k)) (column_run T lg ops hi)"

fun window_after :: "window_op list \<Rightarrow> nat \<Rightarrow> nat \<Rightarrow> nat \<times> nat" where
  "window_after [] lo hi = (lo, hi)"
| "window_after (Append # ops) lo hi = window_after ops lo (Suc hi)"
| "window_after (Expire k # ops) lo hi = window_after ops k hi"

text \<open>Events are appended while the log lasts; a column is only cut while it is not empty.\<close>

fun ops_fit :: "'v column \<Rightarrow> table_event list \<Rightarrow> window_op list \<Rightarrow> nat \<Rightarrow> nat \<Rightarrow> bool" where
  "ops_fit c lg [] lo hi = True"
| "ops_fit c lg (Append # ops) lo hi = (hi < length lg \<and> ops_fit c lg ops lo (Suc hi))"
| "ops_fit c lg (Expire k # ops) lo hi =
     (lo \<le> k \<and> k \<le> hi \<and> members c lg lo hi \<noteq> [] \<and> ops_fit c lg ops k hi)"

lemma ops_fit_same_column: "same_column c d \<Longrightarrow> ops_fit d lg ops lo hi = ops_fit c lg ops lo hi"
  by (induction c lg ops lo hi rule: ops_fit.induct) (simp_all add: same_column_cong)

context value_laws
begin

lemma column_run_tracks:
  assumes "tracks T c v lg lo hi" "lo \<le> hi" "hi \<le> length lg" "list_all (event_fits T c) lg"
    "ops_fit c lg ops lo hi"
  shows "\<exists>d w. column_run T lg ops hi (c, v) = Inr (d, w) \<and> same_column c d \<and>
    tracks T d w lg (fst (window_after ops lo hi)) (snd (window_after ops lo hi))"
  using assms
proof (induction ops arbitrary: c v lo hi)
  case (Cons op ops)
  show ?case
  proof (cases op)
    case Append
    then have hi: "hi < length lg" and ops: "ops_fit c lg ops lo (Suc hi)" using Cons.prems(5) by simp_all
    have take: "same_for c lg (take (Suc hi) lg) (Suc hi)" "same_for c lg (take (Suc hi) lg) hi"
      by (simp_all add: same_for_take)
    have "\<exists>d w. column_add_event T c v (take (Suc hi) lg) (int hi) = Inr (d, w) \<and> same_column c d \<and>
        tracks T d w (take (Suc hi) lg) lo (Suc hi)"
      using Cons.prems hi
      by (intro column_add) (simp_all add: tracks_same_for [OF take(2)] events_fit_nth)
    then obtain d w where run: "column_add_event T c v (take (Suc hi) lg) (int hi) = Inr (d, w)"
      and sc: "same_column c d" and tr: "tracks T d w (take (Suc hi) lg) lo (Suc hi)" by blast
    have "tracks T d w lg lo (Suc hi)"
      using tr by (simp add: tracks_same_for [OF same_for_take])
    from Cons.IH [OF this] Cons.prems hi ops sc obtain d' w' where
      "column_run T lg ops (Suc hi) (d, w) = Inr (d', w')" "same_column d d'"
      "tracks T d' w' lg (fst (window_after ops lo (Suc hi))) (snd (window_after ops lo (Suc hi)))"
      by (auto simp: ops_fit_same_column [OF sc] same_column_cong [OF sc])
    then show ?thesis using Append run sc same_column_trans by (auto simp del: column_add_event.simps)
  next
    case (Expire k)
    then have k: "lo \<le> k" "k \<le> hi" "members c lg lo hi \<noteq> []" and ops: "ops_fit c lg ops k hi"
      using Cons.prems(5) by simp_all
    have take: "same_for c lg (take hi lg) hi" by (simp add: same_for_take)
    have len: "length (take hi lg) = hi" using Cons.prems(3) by simp
    have "\<exists>d w. column_remove_events T c v (take hi lg) (int k) = Inr (d, w) \<and> same_column c d \<and>
        tracks T d w (take hi lg) k (length (take hi lg))"
      using Cons.prems k
      by (intro column_remove)
        (simp_all only: len tracks_same_for [OF take] members_same_for [OF take],
         auto simp: list_all_iff dest: in_set_takeD)
    then obtain d w where run: "column_remove_events T c v (take hi lg) (int k) = Inr (d, w)"
      and sc: "same_column c d" and tr: "tracks T d w (take hi lg) k hi" using len by auto
    have "tracks T d w lg k hi" using tr by (simp add: tracks_same_for [OF same_for_take])
    from Cons.IH [OF this] Cons.prems k ops sc obtain d' w' where
      "column_run T lg ops hi (d, w) = Inr (d', w')" "same_column d d'"
      "tracks T d' w' lg (fst (window_after ops k hi)) (snd (window_after ops k hi))"
      by (auto simp: ops_fit_same_column [OF sc] same_column_cong [OF sc])
    then show ?thesis using Expire run sc same_column_trans by (auto simp del: column_remove_events.simps)
  qed
qed simp

end

section \<open>Properties of the integer columns\<close>


definition demo_event :: "string \<Rightarrow> string \<Rightarrow> table_event" where
  "demo_event g x = \<lparr>te_groups = [g], te_timestamp = 0, te_row = [x]\<rparr>"

definition demo_log :: "table_event list" where
  "demo_log = [demo_event ''a+'' ''5'', demo_event ''b+'' ''9'', demo_event ''a+'' '' -7 '']"


lemma sint_sum_list:
  fixes xs :: "'w::len word list"
  assumes "- (2 ^ (LENGTH('w) - 1)) \<le> sum_list (map sint xs)" "sum_list (map sint xs) < 2 ^ (LENGTH('w) - 1)"
  shows "sint (sum_list xs) = sum_list (map sint xs)"
proof -
  have "sum_list xs = word_of_int (sum_list (map sint xs))"
    by (induction xs) simp_all
  then show ?thesis using assms by (simp add: sint_sbintrunc' signed_take_bit_int_eq_self)
qed

text \<open>when the exact sum of a window fits the type, the stored sum is the exact sum, whatever the partial sums did.\<close>
theorem sum_column_exact:
  fixes v :: "'w::len word"
  assumes "tracks int_type c v evs lo hi" "ac_class c = SumColumn" "members c evs lo hi \<noteq> []"
    and "xs = map sint (window_values int_type c evs lo hi)"
    and "- (2 ^ (LENGTH('w) - 1)) \<le> sum_list xs" "sum_list xs < 2 ^ (LENGTH('w) - 1)"
  shows "sint v = sum_list xs"
proof -
  have "v = sum_list (window_values int_type c evs lo hi)"
    using assms(1-3) by (simp add: tracks_def summary_def vt_sum_int Let_def)
  with assms(4-6) show ?thesis by (simp add: sint_sum_list)
qed

lemma sum_column_exact_witness:
  "sint (12 :: i32) = sum_list [5, 7]"
proof -
  let ?c = "(new_column int_type SumColumn 0 0 ''a+'' 0 (0 :: i32))\<lparr>ac_totalCount := 2, ac_oldestIndex := 0\<rparr>"
  let ?evs = "[demo_event ''a+'' ''5'', demo_event ''a+'' ''7'']"
  have 1: "tracks int_type ?c 12 ?evs 0 2" by code_simp
  have 2: "members ?c ?evs 0 2 \<noteq> []" by code_simp
  have 3: "[5, 7] = map sint (window_values int_type ?c ?evs 0 2)" by code_simp
  show ?thesis by (rule sum_column_exact [OF 1 _ 2 3]) (simp_all add: new_column_def)
qed

text \<open>removing events from a column that holds none reads \<open>allEvents[-1]\<close> in the sum, count and average columns.\<close>
theorem empty_column_remove_faults:
  assumes "ac_class c \<in> {SumColumn, CountColumn, AverageColumn}" "ac_oldestIndex c = -1" "0 \<le> k"
  shows "column_remove_events T c v evs k = Inl (Out_Of_Bounds (-1))"
proof -
  have "[-1 .. k - 1] = -1 # [0 .. k - 1]" using assms(3) by (simp add: upto_rec1)
  moreover have "event_group c evs (-1) = Inl (Out_Of_Bounds (-1))"
    by (simp add: event_group_def vec_get_out)
  ultimately show ?thesis using assms(1,2)
    by (auto simp: SumColumn_remove_events_def CountColumn_remove_events_def
        AverageColumn_remove_events_def Sum_remove_step_def Count_remove_step_def Average_remove_step_def)
qed

lemma empty_column_remove_faults_witness:
  "column_remove_events (int_type :: i64 value_type) (new_column int_type SumColumn 0 0 ''a+'' 0 0) 0 demo_log 3
    = Inl (Out_Of_Bounds (-1))"
  by (rule empty_column_remove_faults) (simp_all add: new_column_def)

text \<open>the minimum and maximum columns, whose loop compares the index with a \<open>size_t\<close>, are reset to the default instead.\<close>
theorem empty_extremum_remove:
  assumes "ac_class c \<in> {MinColumn, MaxColumn}" "ac_oldestIndex c = -1" "ac_totalCount c = 0"
    "length evs < 2 ^ 31"
  shows "column_remove_events T c v evs k = Inr (c, ac_defaultValue c)"
  using assms by (auto simp: MinColumn_remove_events_def MaxColumn_remove_events_def
      Extremum_remove_events_def extremum_loop.simps [where i = "-1"] settle_def)

lemma empty_extremum_remove_witness:
  "column_remove_events (int_type :: i64 value_type) (new_column int_type MaxColumn 0 0 ''a+'' 0 4) 9 demo_log 3
    = Inr (new_column int_type MaxColumn 0 0 ''a+'' 0 4, 4)"
  using empty_extremum_remove [of "new_column int_type MaxColumn 0 0 ''a+'' 0 4" demo_log int_type 9 3]
  by (simp add: new_column_def demo_log_def)
end
