(* ===== verification/Rolling_Window.thy ===== *)
theory Rolling_Window
  imports Column_Contract
begin

text \<open>
  \<open>nimblenet/UserEvents/RollingWindow\<close>: \<open>RollingWindow<T>\<close> and its one derived
  class \<open>TimeBasedRollingWindow<T>\<close>.

  The columns of a window hold pointers into the feature vectors of the
  preprocessor (\<open>_groupWiseFeatureMap\<close>); the map is the explicit store \<open>mem\<close>
  that the operations thread, and a pointer is the pair of a group and a slot.
  \<open>time(NULL)\<close> is an argument: \<open>now\<close> for one reading, \<open>clk i\<close> for the reading
  made when a loop looks at event \<open>i\<close>.
\<close>

section \<open>State\<close>

type_synonym 'v feature_map = "(string, 'v list) smap"

record 'v rolling_window =
  rw_preprocessorId :: int
  rw_preprocessorInfo :: "'v preprocessor_info"
  rw_groupWiseAggregatedColumnMap :: "(string, 'v column list) smap"
  rw_oldestIndex :: int
  rw_windowTime :: rat

definition new_rolling_window :: "int \<Rightarrow> 'v preprocessor_info \<Rightarrow> rat \<Rightarrow> 'v rolling_window" where
  "new_rolling_window preprocessorId info windowTime =
     \<lparr>rw_preprocessorId = preprocessorId, rw_preprocessorInfo = info,
      rw_groupWiseAggregatedColumnMap = [], rw_oldestIndex = -1, rw_windowTime = windowTime\<rparr>"

section \<open>The cells behind the column pointers\<close>

definition load_cell :: "'v feature_map \<Rightarrow> 'v column \<Rightarrow> 'v outcome" where
  "load_cell mem c =
     (case smap_find mem (ac_group c) of None \<Rightarrow> Inl Dangling | Some xs \<Rightarrow> vec_get xs (ac_storeSlot c))"

definition store_cell :: "'v feature_map \<Rightarrow> 'v column \<Rightarrow> 'v \<Rightarrow> 'v feature_map outcome" where
  "store_cell mem c v =
     (case smap_find mem (ac_group c) of
        None \<Rightarrow> Inl Dangling
      | Some xs \<Rightarrow> ubind (vec_set xs (ac_storeSlot c) v) (\<lambda>xs'. Inr (smap_put (ac_group c) xs' mem)))"

text \<open>\<open>for (auto aggregatedColumn : columns) aggregatedColumn->f(...)\<close>.\<close>

fun on_columns ::
  "('v column \<Rightarrow> 'v \<Rightarrow> ('v column \<times> 'v) outcome) \<Rightarrow> 'v column list \<Rightarrow> 'v feature_map
    \<Rightarrow> ('v column list \<times> 'v feature_map) outcome" where
  "on_columns f [] mem = Inr ([], mem)"
| "on_columns f (c # cs) mem =
     ubind (load_cell mem c) (\<lambda>v.
     ubind (f c v) (\<lambda>(c', v').
     ubind (store_cell mem c' v') (\<lambda>mem1.
     ubind (on_columns f cs mem1) (\<lambda>(cs', mem2). Inr (c' # cs', mem2)))))"

fun on_groups ::
  "('v column \<Rightarrow> 'v \<Rightarrow> ('v column \<times> 'v) outcome) \<Rightarrow> (string, 'v column list) smap \<Rightarrow> 'v feature_map
    \<Rightarrow> ((string, 'v column list) smap \<times> 'v feature_map) outcome" where
  "on_groups f [] mem = Inr ([], mem)"
| "on_groups f ((g, cs) # m) mem =
     ubind (on_columns f cs mem) (\<lambda>(cs', mem1).
     ubind (on_groups f m mem1) (\<lambda>(m', mem2). Inr ((g, cs') # m', mem2)))"

section \<open>Creating the columns of a group\<close>

definition operator_class :: "string \<Rightarrow> column_class option" where
  "operator_class op =
     (if op = ''Sum'' then Some SumColumn
      else if op = ''Count'' then Some CountColumn
      else if op = ''Min'' then Some MinColumn
      else if op = ''Max'' then Some MaxColumn
      else if op = ''Avg'' then Some AverageColumn
      else None)"

text \<open>The loop over the operators; an unknown operator stops it and reports failure.\<close>

fun create_columns ::
  "'v value_type \<Rightarrow> int \<Rightarrow> 'v preprocessor_info \<Rightarrow> string \<Rightarrow> int list \<Rightarrow> 'v list \<Rightarrow> int
    \<Rightarrow> int list \<Rightarrow> 'v column list \<Rightarrow> ('v column list \<times> bool) outcome" where
  "create_columns T pid info g columnIds feats start [] cols = Inr (cols, True)"
| "create_columns T pid info g columnIds feats start (i # is) cols =
     ubind (vec_get (pi_aggregateOperators info) i) (\<lambda>op.
       case operator_class op of
         None \<Rightarrow> Inr (cols, False)
       | Some cls \<Rightarrow>
           ubind (vec_get columnIds i) (\<lambda>cid.
           ubind (vec_get feats (start + i)) (\<lambda>stored.
             create_columns T pid info g columnIds feats start is
               (cols @ [new_column T cls pid cid g (start + i) stored]))))"

definition create_aggregate_columns_for_group ::
  "'v value_type \<Rightarrow> 'v rolling_window \<Rightarrow> string \<Rightarrow> int list \<Rightarrow> 'v list \<Rightarrow> int
    \<Rightarrow> ('v rolling_window \<times> bool) outcome" where
  "create_aggregate_columns_for_group T w g columnIds totalFeatureVector start =
     (let info = rw_preprocessorInfo w in
      ubind (create_columns T (rw_preprocessorId w) info g columnIds totalFeatureVector start
               [0 .. int (length (pi_columnsToAggregate info)) - 1] [])
        (\<lambda>(cols, ok).
          Inr (w\<lparr>rw_groupWiseAggregatedColumnMap :=
                 smap_put g cols (rw_groupWiseAggregatedColumnMap w)\<rparr>, ok)))"

section \<open>\<open>TimeBasedRollingWindow\<close>\<close>

text \<open>\<open>time(NULL) - event.timestamp > _windowTime\<close>: an integer against a \<open>float\<close>.\<close>

definition expired :: "int \<Rightarrow> 'v rolling_window \<Rightarrow> table_event \<Rightarrow> bool" where
  "expired now w e = (rw_windowTime w < rat_of_int (f32_of_int (now - te_timestamp e)))"

definition window_add_event ::
  "'v value_type \<Rightarrow> int \<Rightarrow> 'v rolling_window \<Rightarrow> 'v feature_map \<Rightarrow> table_event list \<Rightarrow> int
    \<Rightarrow> ('v rolling_window \<times> 'v feature_map) outcome" where
  "window_add_event T now w mem evs newEventIndex =
     ubind (vec_get evs newEventIndex) (\<lambda>e.
       if expired now w e then Inr (w, mem)
       else let w1 = (if rw_oldestIndex w = -1 then w\<lparr>rw_oldestIndex := newEventIndex\<rparr> else w) in
       ubind (vec_get (te_groups e) (rw_preprocessorId w1)) (\<lambda>g.
         let colmap = rw_groupWiseAggregatedColumnMap w1 in
         ubind (on_columns (\<lambda>c v. column_add_event T c v evs newEventIndex) (smap_at [] colmap g) mem)
           (\<lambda>(cols, mem').
             Inr (w1\<lparr>rw_groupWiseAggregatedColumnMap := smap_put g cols colmap\<rparr>, mem'))))"

text \<open>
  The scan of \<open>update_window\<close>: it counts expired events from the oldest on; a live
  event makes the whole function return (\<open>False\<close>), so that only a scan that runs to
  the end of the log (\<open>True\<close>) goes on to remove events.
\<close>

function scan_window ::
  "(int \<Rightarrow> int) \<Rightarrow> 'v rolling_window \<Rightarrow> table_event list \<Rightarrow> int \<Rightarrow> int \<Rightarrow> (int \<times> bool) outcome" where
  "scan_window clk w evs i oldest =
     (if int_lt_size i (length evs)
      then ubind (vec_get evs i) (\<lambda>e.
             if expired (clk i) w e then scan_window clk w evs (i + 1) (oldest + 1)
             else Inr (oldest, False))
      else Inr (oldest, True))"
  by pat_completeness auto
termination
  by (relation "measure (\<lambda>(clk, w, evs, i, oldest). nat (int (length evs) - i))")
    (auto dest: int_lt_size_bound)

declare scan_window.simps [simp del]

definition update_window ::
  "'v value_type \<Rightarrow> (int \<Rightarrow> int) \<Rightarrow> 'v rolling_window \<Rightarrow> 'v feature_map \<Rightarrow> table_event list
    \<Rightarrow> ('v rolling_window \<times> 'v feature_map) outcome" where
  "update_window T clk w mem evs =
     ubind (scan_window clk w evs (rw_oldestIndex w) (rw_oldestIndex w)) (\<lambda>(oldest, complete).
       let w1 = w\<lparr>rw_oldestIndex := oldest\<rparr> in
       if \<not> complete then Inr (w1, mem)
       else ubind (on_groups (\<lambda>c v. column_remove_events T c v evs oldest)
                     (rw_groupWiseAggregatedColumnMap w1) mem)
              (\<lambda>(colmap, mem'). Inr (w1\<lparr>rw_groupWiseAggregatedColumnMap := colmap\<rparr>, mem')))"

end
