(* ===== verification/Pre_Processor.thy ===== *)
theory Pre_Processor
  imports Rolling_Window
begin

text \<open>
  \<open>nimblenet/UserEvents/PreProcessor\<close>: \<open>PreProcessor<T>\<close> turns the event log into
  the feature vectors a model reads, one vector per group of events, with one
  block of columns per rolling window.
\<close>

record 'v preprocessor =
  pp_id :: int
  pp_groupIds :: "int list"
  pp_columnIds :: "int list"
  pp_isUseless :: bool
  pp_info :: "'v preprocessor_info"
  pp_defaultFeature :: "'v list"
  pp_rollingWindows :: "'v rolling_window list"
  pp_groupWiseFeatureMap :: "'v feature_map"

section \<open>Construction\<close>

text \<open>\<open>_defaultFeature[i] = defaultVector[i % columnsToAggregate.size()]\<close>.\<close>

fun fill_default :: "'v list \<Rightarrow> int \<Rightarrow> int list \<Rightarrow> 'v list outcome" where
  "fill_default dv nc [] = Inr []"
| "fill_default dv nc (i # is) =
     ubind (vec_get dv (i mod nc)) (\<lambda>d. ubind (fill_default dv nc is) (\<lambda>ds. Inr (d # ds)))"

definition new_preprocessor ::
  "int \<Rightarrow> 'v preprocessor_info \<Rightarrow> int list \<Rightarrow> int list \<Rightarrow> 'v preprocessor outcome" where
  "new_preprocessor pid info groupIds columnIds =
     (let nw = int (length (pi_rollingWindowsInSecs info));
          nc = int (length (pi_columnsToAggregate info)) in
      ubind (fill_default (pi_defaultVector info) nc [0 .. nw * nc - 1]) (\<lambda>df.
        Inr \<lparr>pp_id = pid, pp_groupIds = groupIds, pp_columnIds = columnIds, pp_isUseless = False,
             pp_info = info, pp_defaultFeature = df,
             pp_rollingWindows = map (new_rolling_window pid info) (pi_rollingWindowsInSecs info),
             pp_groupWiseFeatureMap = []\<rparr>))"

section \<open>Groups\<close>

fun group_from_event :: "string list \<Rightarrow> int list \<Rightarrow> string \<Rightarrow> string outcome" where
  "group_from_event row [] acc = Inr acc"
| "group_from_event row (gid # gids) acc =
     ubind (vec_get row gid) (\<lambda>cell. group_from_event row gids (acc @ cell @ ''+''))"

definition get_group_from_event :: "'v preprocessor \<Rightarrow> table_event \<Rightarrow> string outcome" where
  "get_group_from_event p e = group_from_event (te_row e) (pp_groupIds p) []"

fun group_from_row :: "string list \<Rightarrow> bool list \<Rightarrow> int list \<Rightarrow> string \<Rightarrow> string outcome" where
  "group_from_row row filled [] acc = Inr acc"
| "group_from_row row filled (gid # gids) acc =
     ubind (vec_get filled gid) (\<lambda>ok.
       if \<not> ok then Inr []
       else ubind (vec_get row gid) (\<lambda>cell. group_from_row row filled gids (acc @ cell @ ''+'')))"

definition get_group_from_row :: "'v preprocessor \<Rightarrow> string list \<Rightarrow> bool list \<Rightarrow> string outcome" where
  "get_group_from_row p row columnsFilled = group_from_row row columnsFilled (pp_groupIds p) []"

section \<open>Events\<close>

text \<open>The columns of a new group, window by window, from slot \<open>j * columnsToAggregate.size()\<close> on.\<close>

fun create_group ::
  "'v value_type \<Rightarrow> string \<Rightarrow> int list \<Rightarrow> 'v list \<Rightarrow> int \<Rightarrow> int \<Rightarrow> 'v rolling_window list
    \<Rightarrow> ('v rolling_window list \<times> bool) outcome" where
  "create_group T g columnIds feats nc j [] = Inr ([], True)"
| "create_group T g columnIds feats nc j (w # ws) =
     ubind (create_aggregate_columns_for_group T w g columnIds feats (j * nc)) (\<lambda>(w', ok).
     ubind (create_group T g columnIds feats nc (j + 1) ws) (\<lambda>(ws', oks). Inr (w' # ws', ok \<and> oks)))"

text \<open>\<open>clk j\<close> is the reading of \<open>time(NULL)\<close> in the \<open>j\<close>-th window.\<close>

fun add_to_windows ::
  "'v value_type \<Rightarrow> (nat \<Rightarrow> int) \<Rightarrow> nat \<Rightarrow> 'v rolling_window list \<Rightarrow> 'v feature_map \<Rightarrow> table_event list \<Rightarrow> int
    \<Rightarrow> ('v rolling_window list \<times> 'v feature_map) outcome" where
  "add_to_windows T clk j [] mem evs n = Inr ([], mem)"
| "add_to_windows T clk j (w # ws) mem evs n =
     ubind (window_add_event T (clk j) w mem evs n) (\<lambda>(w', mem1).
     ubind (add_to_windows T clk (Suc j) ws mem1 evs n) (\<lambda>(ws', mem2). Inr (w' # ws', mem2)))"

definition ensure_group ::
  "'v value_type \<Rightarrow> 'v preprocessor \<Rightarrow> string \<Rightarrow> 'v preprocessor outcome" where
  "ensure_group T p g =
     (if smap_has (pp_groupWiseFeatureMap p) g then Inr p
      else let mem = smap_put g (pp_defaultFeature p) (pp_groupWiseFeatureMap p) in
           ubind (create_group T g (pp_columnIds p) (pp_defaultFeature p)
                    (int (length (pi_columnsToAggregate (pp_info p)))) 0 (pp_rollingWindows p))
             (\<lambda>(ws, ok). Inr (p\<lparr>pp_groupWiseFeatureMap := mem, pp_rollingWindows := ws,
                                 pp_isUseless := (pp_isUseless p \<or> \<not> ok)\<rparr>)))"

definition preprocessor_add_event ::
  "'v value_type \<Rightarrow> (nat \<Rightarrow> int) \<Rightarrow> 'v preprocessor \<Rightarrow> table_event list \<Rightarrow> int \<Rightarrow> 'v preprocessor outcome" where
  "preprocessor_add_event T clk p evs newEventIndex =
     ubind (vec_get evs newEventIndex) (\<lambda>e.
     ubind (vec_get (te_groups e) (pp_id p)) (\<lambda>g.
     ubind (ensure_group T p g) (\<lambda>p1.
     ubind (add_to_windows T clk 0 (pp_rollingWindows p1) (pp_groupWiseFeatureMap p1) evs newEventIndex)
       (\<lambda>(ws, mem). Inr (p1\<lparr>pp_rollingWindows := ws, pp_groupWiseFeatureMap := mem\<rparr>)))))"

section \<open>Model inputs\<close>

text \<open>\<open>clk j i\<close> is the reading of \<open>time(NULL)\<close> when window \<open>j\<close> looks at event \<open>i\<close>.\<close>

fun update_windows ::
  "'v value_type \<Rightarrow> (nat \<Rightarrow> int \<Rightarrow> int) \<Rightarrow> nat \<Rightarrow> 'v rolling_window list \<Rightarrow> 'v feature_map \<Rightarrow> table_event list
    \<Rightarrow> ('v rolling_window list \<times> 'v feature_map) outcome" where
  "update_windows T clk j [] mem evs = Inr ([], mem)"
| "update_windows T clk j (w # ws) mem evs =
     ubind (update_window T (clk j) w mem evs) (\<lambda>(w', mem1).
     ubind (update_windows T clk (Suc j) ws mem1 evs) (\<lambda>(ws', mem2). Inr (w' # ws', mem2)))"

text \<open>
  The rows of the input buffer: \<open>memcpy\<close> of \<open>_defaultFeature.size()\<close> values from
  the vector of the group, or from the default.
\<close>

fun gather :: "'v list \<Rightarrow> 'v feature_map \<Rightarrow> string list \<Rightarrow> 'v list outcome" where
  "gather df mem [] = Inr []"
| "gather df mem (g # gs) =
     (let src = smap_at df mem g in
      if length src < length df then Inl (Out_Of_Bounds (int (length src)))
      else ubind (gather df mem gs) (\<lambda>rest. Inr (take (length df) src @ rest)))"

definition preprocessor_get_model_input ::
  "'v value_type \<Rightarrow> (nat \<Rightarrow> int \<Rightarrow> int) \<Rightarrow> 'v preprocessor \<Rightarrow> string list \<Rightarrow> table_event list
    \<Rightarrow> ('v preprocessor \<times> 'v model_input option) outcome" where
  "preprocessor_get_model_input T clk p groups evs =
     (if pp_isUseless p then Inr (p, None)
      else ubind (update_windows T clk 0 (pp_rollingWindows p) (pp_groupWiseFeatureMap p) evs)
        (\<lambda>(ws, mem).
          let p1 = p\<lparr>pp_rollingWindows := ws, pp_groupWiseFeatureMap := mem\<rparr> in
          ubind (gather (pp_defaultFeature p) mem groups) (\<lambda>buf. Inr (p1, Some buf))))"

end
