(* ===== verification/Window_Contract.thy ===== *)
theory Window_Contract
  imports Rolling_Window
begin

text \<open>
  The contract of a rolling window: with the columns of every group known by
  their identities (the skeleton \<open>sk\<close>), \<open>window_tracks\<close> says that every column of
  the window represents the same range of events.  A live event extends the range
  of all of them; a scan that reaches a live event changes nothing; a scan that
  expires everything moves the range to its end.
\<close>

section \<open>The store\<close>

definition cell_of :: "'v column \<Rightarrow> string \<times> int" where
  "cell_of c = (ac_group c, ac_storeSlot c)"

definition read_cell :: "'v feature_map \<Rightarrow> string \<times> int \<Rightarrow> 'v outcome" where
  "read_cell mem a =
     (case smap_find mem (fst a) of None \<Rightarrow> Inl Dangling | Some xs \<Rightarrow> vec_get xs (snd a))"

definition write_cell :: "'v feature_map \<Rightarrow> string \<times> int \<Rightarrow> 'v \<Rightarrow> 'v feature_map outcome" where
  "write_cell mem a v =
     (case smap_find mem (fst a) of
        None \<Rightarrow> Inl Dangling
      | Some xs \<Rightarrow> ubind (vec_set xs (snd a) v) (\<lambda>xs'. Inr (smap_put (fst a) xs' mem)))"

definition shape :: "'v feature_map \<Rightarrow> (string \<times> nat) list" where
  "shape mem = map (\<lambda>(g, xs). (g, length xs)) mem"

text \<open>A store of cells: what is written is read back, and nothing else changes.\<close>

locale cell_store =
  fixes get :: "'m \<Rightarrow> 'a \<Rightarrow> 'v outcome"
    and set_cell :: "'m \<Rightarrow> 'a \<Rightarrow> 'v \<Rightarrow> 'm outcome"
    and outline :: "'m \<Rightarrow> 's"
    and ok :: "'m \<Rightarrow> bool"
  assumes write_total: "get m a = Inr v \<Longrightarrow> \<exists>m'. set_cell m a w = Inr m'"
    and read_write: "set_cell m a w = Inr m' \<Longrightarrow> get m' b = (if b = a then Inr w else get m b)"
    and outline_write: "ok m \<Longrightarrow> set_cell m a w = Inr m' \<Longrightarrow> outline m' = outline m"
    and ok_write: "ok m \<Longrightarrow> set_cell m a w = Inr m' \<Longrightarrow> ok m'"
begin

lemma update_total:
  assumes "get m a = Inr v" "ok m"
  shows "\<exists>m'. set_cell m a w = Inr m' \<and> get m' a = Inr w \<and> (\<forall>b. b \<noteq> a \<longrightarrow> get m' b = get m b) \<and>
    outline m' = outline m \<and> ok m'"
  using write_total [OF assms(1)] read_write outline_write [OF assms(2)] ok_write [OF assms(2)]
  by metis

end

lemma shape_put:
  "smap_ok mem \<Longrightarrow> smap_find mem g = Some xs \<Longrightarrow> length ys = length xs \<Longrightarrow>
    shape (smap_put g ys mem) = shape mem"
proof (induction mem)
  case (Cons kv mem)
  obtain k x where kv: "kv = (k, x)" by fastforce
  show ?case
  proof (cases "g = k")
    case False
    then have "smap_find mem g = Some xs" using Cons.prems(2) kv by simp
    then have "g \<in> set (smap_keys mem)" by (metis option.distinct(1) smap_find_None_iff)
    then have "k < g" using Cons.prems(1) kv by simp
    with Cons False kv show ?thesis by (auto simp: shape_def)
  qed (use Cons.prems kv in \<open>auto simp: shape_def\<close>)
qed simp

interpretation cells: cell_store read_cell write_cell shape smap_ok
proof unfold_locales
  fix m :: "'v feature_map" and a v w
  assume "read_cell m a = Inr v"
  then show "\<exists>m'. write_cell m a w = Inr m'"
    by (auto simp: read_cell_def write_cell_def vec_get_def vec_set_def split: option.splits if_splits)
next
  fix m m' :: "'v feature_map" and a w b
  assume "write_cell m a w = Inr m'"
  then show "read_cell m' b = (if b = a then Inr w else read_cell m b)"
    by (cases a; cases b)
      (auto simp: read_cell_def write_cell_def vec_get_def vec_set_def nth_list_update
        split: option.splits if_splits)
next
  fix m m' :: "'v feature_map" and a w
  assume *: "smap_ok m" "write_cell m a w = Inr m'"
  then show "shape m' = shape m"
    by (auto simp: write_cell_def vec_set_def shape_put split: option.splits if_splits)
  from * show "smap_ok m'"
    by (auto simp: write_cell_def vec_set_def split: option.splits if_splits)
qed

lemma load_cell_eq: "load_cell mem c = read_cell mem (cell_of c)"
  by (simp add: load_cell_def read_cell_def cell_of_def split: option.split)

lemma store_cell_eq: "store_cell mem c v = write_cell mem (cell_of c) v"
  by (simp add: store_cell_def write_cell_def cell_of_def split: option.split)

lemma same_column_cell: "same_column c d \<Longrightarrow> cell_of d = cell_of c"
  by (simp add: same_column_def cell_of_def)

definition unchanged_outside :: "(string \<times> int) set \<Rightarrow> 'v feature_map \<Rightarrow> 'v feature_map \<Rightarrow> bool" where
  "unchanged_outside A mem mem' =
     ((\<forall>a. a \<notin> A \<longrightarrow> read_cell mem' a = read_cell mem a) \<and> shape mem' = shape mem \<and> smap_ok mem')"

lemma unchanged_refl [simp]: "smap_ok mem \<Longrightarrow> unchanged_outside A mem mem"
  by (simp add: unchanged_outside_def)

lemma unchanged_trans:
  "unchanged_outside A mem mem1 \<Longrightarrow> unchanged_outside B mem1 mem2 \<Longrightarrow> unchanged_outside (A \<union> B) mem mem2"
  by (simp add: unchanged_outside_def)

lemma shape_find:
  "shape mem' = shape mem \<Longrightarrow> map_option length (smap_find mem' g) = map_option length (smap_find mem g)"
proof (induction mem arbitrary: mem')
  case (Cons kv mem)
  then obtain kv' rest where "mem' = kv' # rest" by (cases mem') (auto simp: shape_def)
  with Cons show ?case by (cases kv; cases kv') (auto simp: shape_def)
qed (simp add: shape_def)

section \<open>A call on every column of a vector\<close>

definition cell_tracks ::
  "'v value_type \<Rightarrow> 'v feature_map \<Rightarrow> 'v column \<Rightarrow> table_event list \<Rightarrow> nat \<Rightarrow> nat \<Rightarrow> bool" where
  "cell_tracks T mem c evs lo hi =
     (case load_cell mem c of Inl f \<Rightarrow> False | Inr v \<Rightarrow> tracks T c v evs lo hi)"

lemma on_columns_total:
  assumes "distinct (map cell_of cs)" "smap_ok mem"
    and "\<And>c. c \<in> set cs \<Longrightarrow> \<exists>v. read_cell mem (cell_of c) = Inr v \<and> P c v"
    and "\<And>c v. c \<in> set cs \<Longrightarrow> P c v \<Longrightarrow> \<exists>d w. f c v = Inr (d, w) \<and> same_column c d \<and> Q d w"
  shows "\<exists>cs' mem'. on_columns f cs mem = Inr (cs', mem') \<and> list_all2 same_column cs cs' \<and>
    (\<forall>d \<in> set cs'. \<exists>w. read_cell mem' (cell_of d) = Inr w \<and> Q d w) \<and>
    unchanged_outside (cell_of ` set cs) mem mem'"
  using assms
proof (induction cs arbitrary: mem)
  case (Cons c cs)
  obtain v where v: "read_cell mem (cell_of c) = Inr v" "P c v" using Cons.prems(3) by auto
  obtain d w where f: "f c v = Inr (d, w)" "same_column c d" "Q d w" using Cons.prems(4) [OF _ v(2)] by auto
  obtain mem1 where m1: "write_cell mem (cell_of c) w = Inr mem1" "read_cell mem1 (cell_of c) = Inr w"
    "\<And>b. b \<noteq> cell_of c \<Longrightarrow> read_cell mem1 b = read_cell mem b" "shape mem1 = shape mem" "smap_ok mem1"
    using cells.update_total [OF v(1) Cons.prems(2)] by blast
  have "\<exists>cs' mem'. on_columns f cs mem1 = Inr (cs', mem') \<and> list_all2 same_column cs cs' \<and>
    (\<forall>d \<in> set cs'. \<exists>w. read_cell mem' (cell_of d) = Inr w \<and> Q d w) \<and>
    unchanged_outside (cell_of ` set cs) mem1 mem'"
  proof (rule Cons.IH)
    fix x assume "x \<in> set cs"
    moreover from this have "cell_of x \<noteq> cell_of c" using Cons.prems(1) by (metis imageI list.set_map distinct.simps(2) list.simps(9))
    ultimately show "\<exists>v. read_cell mem1 (cell_of x) = Inr v \<and> P x v"
      using Cons.prems(3) [of x] m1(3) by simp
  qed (use Cons.prems m1 in auto)
  then obtain cs' mem' where rest: "on_columns f cs mem1 = Inr (cs', mem')" "list_all2 same_column cs cs'"
    "\<forall>d \<in> set cs'. \<exists>w. read_cell mem' (cell_of d) = Inr w \<and> Q d w"
    "unchanged_outside (cell_of ` set cs) mem1 mem'" by blast
  have "cell_of c \<notin> cell_of ` set cs" using Cons.prems(1) by simp
  then have "read_cell mem' (cell_of d) = Inr w"
    using rest(4) m1(2) same_column_cell [OF f(2)] unfolding unchanged_outside_def by metis
  moreover have "unchanged_outside (cell_of ` set (c # cs)) mem mem'"
    using rest(4) m1 by (auto simp: unchanged_outside_def)
  moreover have "on_columns f (c # cs) mem = Inr (d # cs', mem')"
    using v f m1 rest by (simp add: load_cell_eq store_cell_eq same_column_cell)
  ultimately show ?case using f rest by auto
qed simp


section \<open>Tracking windows\<close>

text \<open>\<open>sk g\<close> lists the columns of group \<open>g\<close> as they were created.\<close>

definition columns_track ::
  "'v value_type \<Rightarrow> 'v column list \<Rightarrow> 'v feature_map \<Rightarrow> table_event list \<Rightarrow> nat \<Rightarrow> nat \<Rightarrow> 'v column list \<Rightarrow> bool" where
  "columns_track T ss mem evs lo hi cs =
     list_all2 (\<lambda>s c. same_column s c \<and> cell_tracks T mem c evs lo hi) ss cs"

definition window_tracks ::
  "'v value_type \<Rightarrow> (string \<Rightarrow> 'v column list) \<Rightarrow> 'v rolling_window \<Rightarrow> 'v feature_map
    \<Rightarrow> table_event list \<Rightarrow> nat \<Rightarrow> nat \<Rightarrow> bool" where
  "window_tracks T sk w mem evs lo hi =
     (let colmap = rw_groupWiseAggregatedColumnMap w in
      smap_ok colmap \<and>
      (\<forall>g cs. smap_find colmap g = Some cs \<longrightarrow> columns_track T (sk g) mem evs lo hi cs))"

definition skeleton_ok :: "(string \<Rightarrow> 'v column list) \<Rightarrow> int \<Rightarrow> bool" where
  "skeleton_ok sk pid =
     (\<forall>g. distinct (map cell_of (sk g)) \<and>
        (\<forall>s \<in> set (sk g). ac_group s = g \<and> ac_preprocessorId s = pid))"

lemma cell_tracks_iff:
  "cell_tracks T mem c evs lo hi \<longleftrightarrow>
    (\<exists>v. read_cell mem (cell_of c) = Inr v \<and> tracks T c v evs lo hi)"
  by (auto simp: cell_tracks_def load_cell_eq split: sum.splits)

lemma cell_tracks_cong:
  "read_cell mem' (cell_of c) = read_cell mem (cell_of c) \<Longrightarrow>
    cell_tracks T mem' c evs lo hi = cell_tracks T mem c evs lo hi"
  by (simp add: cell_tracks_iff)

lemma columns_track_cells: "columns_track T ss mem evs lo hi cs \<Longrightarrow> map cell_of cs = map cell_of ss"
  unfolding columns_track_def
  by (induction ss cs rule: list_all2_induct) (auto simp: same_column_cell)

lemma columns_track_mem:
  "columns_track T ss mem evs lo hi cs \<Longrightarrow> c \<in> set cs \<Longrightarrow>
    \<exists>s \<in> set ss. same_column s c \<and> cell_tracks T mem c evs lo hi"
  unfolding columns_track_def list_all2_conv_all_nth by (metis in_set_conv_nth)

lemma columns_track_cong:
  assumes "\<And>s. s \<in> set ss \<Longrightarrow> read_cell mem' (cell_of s) = read_cell mem (cell_of s)"
  shows "columns_track T ss mem' evs lo hi cs = columns_track T ss mem evs lo hi cs"
proof -
  have "cell_tracks T mem' (cs ! i) evs lo hi = cell_tracks T mem (cs ! i) evs lo hi"
    if "i < length ss" "same_column (ss ! i) (cs ! i)" for i
    by (rule cell_tracks_cong)
      (simp add: assms [OF nth_mem [OF that(1)]] same_column_cell [OF that(2)])
  then show ?thesis by (auto simp: columns_track_def list_all2_conv_all_nth)
qed

lemma window_tracks_frame:
  assumes "window_tracks T sk w mem evs lo hi"
    and "\<And>g s. s \<in> set (sk g) \<Longrightarrow> read_cell mem' (cell_of s) = read_cell mem (cell_of s)"
  shows "window_tracks T sk w mem' evs lo hi"
proof -
  have "columns_track T (sk g) mem' evs lo hi cs = columns_track T (sk g) mem evs lo hi cs" for g cs
    by (rule columns_track_cong) (rule assms(2))
  with assms(1) show ?thesis by (simp add: window_tracks_def Let_def)
qed

text \<open>A call on the columns of one group: its columns move on, all other cells stay.\<close>

lemma columns_call:
  assumes "columns_track T ss mem evs lo hi cs" "distinct (map cell_of ss)" "smap_ok mem"
    and "\<And>c v. c \<in> set cs \<Longrightarrow> tracks T c v evs lo hi \<Longrightarrow>
      \<exists>d w. f c v = Inr (d, w) \<and> same_column c d \<and> tracks T d w evs lo' hi'"
  shows "\<exists>cs' mem'. on_columns f cs mem = Inr (cs', mem') \<and>
    columns_track T ss mem' evs lo' hi' cs' \<and> unchanged_outside (cell_of ` set ss) mem mem'"
proof -
  have cells: "map cell_of cs = map cell_of ss" using assms(1) by (rule columns_track_cells)
  have "\<exists>cs' mem'. on_columns f cs mem = Inr (cs', mem') \<and> list_all2 same_column cs cs' \<and>
    (\<forall>d \<in> set cs'. \<exists>w. read_cell mem' (cell_of d) = Inr w \<and> tracks T d w evs lo' hi') \<and>
    unchanged_outside (cell_of ` set cs) mem mem'"
  proof (rule on_columns_total [where P = "\<lambda>c v. tracks T c v evs lo hi"])
    show "\<exists>v. read_cell mem (cell_of c) = Inr v \<and> tracks T c v evs lo hi" if "c \<in> set cs" for c
      using columns_track_mem [OF assms(1) that] by (auto simp: cell_tracks_iff)
  qed (use assms cells in auto)
  then obtain cs' mem' where r: "on_columns f cs mem = Inr (cs', mem')" "list_all2 same_column cs cs'"
    "\<forall>d \<in> set cs'. \<exists>w. read_cell mem' (cell_of d) = Inr w \<and> tracks T d w evs lo' hi'"
    "unchanged_outside (cell_of ` set cs) mem mem'" by blast
  have "columns_track T ss mem' evs lo' hi' cs'"
    unfolding columns_track_def list_all2_conv_all_nth
  proof (intro conjI allI impI)
    show "length ss = length cs'"
      using assms(1) r(2) by (simp add: columns_track_def list_all2_lengthD)
    fix i assume i: "i < length ss"
    then have l: "i < length cs'" using \<open>length ss = length cs'\<close> by simp
    have "same_column (ss ! i) (cs ! i)" "same_column (cs ! i) (cs' ! i)"
      using assms(1) r(2) i by (simp_all add: columns_track_def list_all2_conv_all_nth)
    then show "same_column (ss ! i) (cs' ! i)" by (rule same_column_trans)
    show "cell_tracks T mem' (cs' ! i) evs lo' hi'"
      using r(3) nth_mem [OF l] unfolding cell_tracks_iff by blast
  qed
  moreover have "cell_of ` set cs = cell_of ` set ss" using cells by (metis list.set_map)
  ultimately show ?thesis using r by auto
qed

section \<open>Adding an event to a window\<close>

definition same_window :: "'v rolling_window \<Rightarrow> 'v rolling_window \<Rightarrow> bool" where
  "same_window w w' =
     (rw_preprocessorId w' = rw_preprocessorId w \<and> rw_preprocessorInfo w' = rw_preprocessorInfo w \<and>
      rw_windowTime w' = rw_windowTime w \<and>
      set (smap_keys (rw_groupWiseAggregatedColumnMap w')) = set (smap_keys (rw_groupWiseAggregatedColumnMap w)))"

lemma expired_same_window: "same_window w w' \<Longrightarrow> expired now w' = expired now w"
  by (simp add: same_window_def expired_def fun_eq_iff)

lemma columns_track_foreign:
  assumes "columns_track T ss mem evs lo hi cs" "lo \<le> hi" "\<And>s. s \<in> set ss \<Longrightarrow> \<not> in_group s evs hi"
  shows "columns_track T ss mem evs lo (Suc hi) cs"
proof -
  have "cell_tracks T mem (cs ! i) evs lo (Suc hi)"
    if "i < length ss" "same_column (ss ! i) (cs ! i)" "cell_tracks T mem (cs ! i) evs lo hi" for i
  proof -
    have "\<not> in_group (cs ! i) evs hi"
      using assms(3) [OF nth_mem [OF that(1)]] by (simp add: same_column_cong(1) [OF that(2)])
    with that(3) assms(2) show ?thesis unfolding cell_tracks_iff by (metis tracks_foreign)
  qed
  with assms(1) show ?thesis by (simp add: columns_track_def list_all2_conv_all_nth)
qed

context value_laws
begin

lemma columns_add:
  assumes "columns_track T ss mem evs lo hi cs" "distinct (map cell_of ss)" "smap_ok mem"
    and "lo \<le> hi" "hi < length evs" "\<And>s. s \<in> set ss \<Longrightarrow> event_fits T s (evs ! hi)"
  shows "\<exists>cs' mem'. on_columns (\<lambda>c v. column_add_event T c v evs (int hi)) cs mem = Inr (cs', mem') \<and>
    columns_track T ss mem' evs lo (Suc hi) cs' \<and> unchanged_outside (cell_of ` set ss) mem mem'"
proof (rule columns_call [OF assms(1-3)])
  fix c v assume c: "c \<in> set cs" "tracks T c v evs lo hi"
  obtain s where "s \<in> set ss" "same_column s c" using columns_track_mem [OF assms(1) c(1)] by blast
  then have "event_fits T c (evs ! hi)" using assms(6) same_column_cong(7) by metis
  with c(2) assms(4,5) show "\<exists>d w. column_add_event T c v evs (int hi) = Inr (d, w) \<and> same_column c d \<and>
      tracks T d w evs lo (Suc hi)"
    by (rule column_add)
qed

lemma window_add:
  assumes tr: "window_tracks T sk w mem evs lo hi" and sk: "skeleton_ok sk (rw_preprocessorId w)"
    and mem: "smap_ok mem" and le: "lo \<le> hi" and hi: "hi < length evs"
    and live: "\<not> expired now w (evs ! hi)"
    and g: "vec_get (te_groups (evs ! hi)) (rw_preprocessorId w) = Inr g"
    and key: "g \<in> set (smap_keys (rw_groupWiseAggregatedColumnMap w))"
    and fit: "\<And>s. s \<in> set (sk g) \<Longrightarrow> event_fits T s (evs ! hi)"
  shows "\<exists>w' mem'. window_add_event T now w mem evs (int hi) = Inr (w', mem') \<and>
    window_tracks T sk w' mem' evs lo (Suc hi) \<and> unchanged_outside (cell_of ` set (sk g)) mem mem' \<and>
    same_window w w' \<and>
    rw_oldestIndex w' = (if rw_oldestIndex w = -1 then int hi else rw_oldestIndex w)"
proof -
  let ?m = "rw_groupWiseAggregatedColumnMap w"
  obtain cs where cs: "smap_find ?m g = Some cs" using key by (metis option.exhaust smap_find_None_iff)
  have m: "smap_ok ?m" and all: "\<And>h cs. smap_find ?m h = Some cs \<Longrightarrow> columns_track T (sk h) mem evs lo hi cs"
    using tr by (simp_all add: window_tracks_def Let_def)
  have "distinct (map cell_of (sk g))" using sk by (simp add: skeleton_ok_def)
  from columns_add [OF all [OF cs] this mem le hi fit] obtain cs' mem' where
    run: "on_columns (\<lambda>c v. column_add_event T c v evs (int hi)) cs mem = Inr (cs', mem')"
    and tr': "columns_track T (sk g) mem' evs lo (Suc hi) cs'"
    and un: "unchanged_outside (cell_of ` set (sk g)) mem mem'" by blast
  let ?w1 = "if rw_oldestIndex w = -1 then w\<lparr>rw_oldestIndex := int hi\<rparr> else w"
  let ?w = "?w1\<lparr>rw_groupWiseAggregatedColumnMap := smap_put g cs' ?m\<rparr>"
  have "window_add_event T now w mem evs (int hi) = Inr (?w, mem')"
    using live g cs run hi by (simp add: window_add_event_def smap_at_def Let_def)
  moreover have "columns_track T (sk h) mem' evs lo (Suc hi) ds" if "smap_find ?m h = Some ds" "h \<noteq> g" for h ds
  proof -
    have "cell_of s \<notin> cell_of ` set (sk g)" if "s \<in> set (sk h)" for s
      using sk that \<open>h \<noteq> g\<close> by (auto simp: skeleton_ok_def cell_of_def)
    then have "read_cell mem' (cell_of s) = read_cell mem (cell_of s)" if "s \<in> set (sk h)" for s
      using that un unfolding unchanged_outside_def by metis
    then have "columns_track T (sk h) mem' evs lo hi ds"
      using all [OF that(1)] columns_track_cong [of "sk h" mem' mem] by metis
    moreover have "\<not> in_group s evs hi" if "s \<in> set (sk h)" for s
      using that sk g \<open>h \<noteq> g\<close> by (auto simp: skeleton_ok_def in_group_def vec_get_Inr_iff)
    ultimately show ?thesis by (rule columns_track_foreign [OF _ le])
  qed
  then have "window_tracks T sk ?w mem' evs lo (Suc hi)"
    using tr' m by (auto simp: window_tracks_def Let_def split: if_splits)
  moreover have "same_window w ?w" using key by (auto simp: same_window_def)
  ultimately show ?thesis using un by (intro exI conjI) auto
qed

end

section \<open>Updating a window\<close>

lemma scan_window_all_expired:
  assumes "\<And>i. a \<le> i \<Longrightarrow> i < length evs \<Longrightarrow> expired (clk (int i)) w (evs ! i)" "a \<le> length evs"
  shows "scan_window clk w evs (int a) (int b) = Inr (int (b + (length evs - a)), True)"
  using assms
proof (induction "length evs - a" arbitrary: a b)
  case 0
  then show ?case by (simp add: scan_window.simps)
next
  case (Suc n)
  then have a: "a < length evs" by simp
  with Suc have "scan_window clk w evs (int (Suc a)) (int (Suc b)) =
      Inr (int (Suc b + (length evs - Suc a)), True)"
    by (intro Suc.hyps(1)) auto
  with a Suc.prems(1) [of a] show ?case
    by (simp add: scan_window.simps [of clk w evs "int a"] add.commute)
qed

lemma scan_window_live:
  assumes "a \<le> i" "i < length evs" "\<not> expired (clk (int i)) w (evs ! i)"
  shows "\<exists>k. scan_window clk w evs (int a) (int a) = Inr (int k, False) \<and> a \<le> k \<and> k \<le> i"
  using assms(1)
proof (induction rule: inc_induct)
  case base
  with assms(2,3) show ?case by (simp add: scan_window.simps)
next
  case (step a)
  then obtain k where "scan_window clk w evs (int (Suc a)) (int (Suc a)) = Inr (int k, False)"
    "Suc a \<le> k" "k \<le> i" by blast
  moreover have "a < length evs" using step.hyps assms(2) by simp
  ultimately show ?case
    by (cases "expired (clk (int a)) w (evs ! a)")
      (auto simp: scan_window.simps [of clk w evs "int a"] add.commute)
qed

text \<open>A live event anywhere after the oldest one: nothing is removed.\<close>

lemma update_window_live:
  assumes "rw_oldestIndex w = int a" "a \<le> i" "i < length evs" "\<not> expired (clk (int i)) w (evs ! i)"
  shows "\<exists>k. update_window T clk w mem evs = Inr (w\<lparr>rw_oldestIndex := int k\<rparr>, mem) \<and> a \<le> k \<and> k \<le> i"
  using scan_window_live [where clk = clk and w = w, OF assms(2-4)] assms(1)
  by (auto simp: update_window_def)

lemma window_tracks_oldest [simp]:
  "window_tracks T sk (w\<lparr>rw_oldestIndex := k\<rparr>) mem evs lo hi = window_tracks T sk w mem evs lo hi"
  by (simp add: window_tracks_def)

lemma same_window_oldest [simp]: "same_window w (w\<lparr>rw_oldestIndex := k\<rparr>)"
  by (simp add: same_window_def)

lemma read_other_group:
  assumes "skeleton_ok sk pid" "unchanged_outside (cell_of ` (\<Union>g\<in>G. set (sk g))) mem mem'" "h \<notin> G" "s \<in> set (sk h)"
  shows "read_cell mem' (cell_of s) = read_cell mem (cell_of s)"
proof -
  have "cell_of s \<notin> cell_of ` (\<Union>g\<in>G. set (sk g))"
    using assms by (auto simp: skeleton_ok_def cell_of_def)
  with assms(2) show ?thesis unfolding unchanged_outside_def by blast
qed

lemma on_groups_total:
  assumes "distinct (smap_keys m)" "smap_ok mem" "skeleton_ok sk pid"
    and "\<And>g cs. (g, cs) \<in> set m \<Longrightarrow> columns_track T (sk g) mem evs lo hi cs"
    and "\<And>g cs c v. (g, cs) \<in> set m \<Longrightarrow> c \<in> set cs \<Longrightarrow> tracks T c v evs lo hi \<Longrightarrow>
      \<exists>d w. f c v = Inr (d, w) \<and> same_column c d \<and> tracks T d w evs lo' hi'"
  shows "\<exists>m' mem'. on_groups f m mem = Inr (m', mem') \<and> smap_keys m' = smap_keys m \<and>
    (\<forall>(g, cs) \<in> set m'. columns_track T (sk g) mem' evs lo' hi' cs) \<and>
    unchanged_outside (cell_of ` (\<Union>g\<in>set (smap_keys m). set (sk g))) mem mem'"
  using assms
proof (induction m arbitrary: mem)
  case (Cons gcs m)
  obtain g cs where gcs: "gcs = (g, cs)" by fastforce
  have "distinct (map cell_of (sk g))" using Cons.prems(3) by (simp add: skeleton_ok_def)
  then have "\<exists>cs' mem'. on_columns f cs mem = Inr (cs', mem') \<and>
    columns_track T (sk g) mem' evs lo' hi' cs' \<and> unchanged_outside (cell_of ` set (sk g)) mem mem'"
    using Cons.prems(2) Cons.prems(4) [of g cs] Cons.prems(5) [of g cs] gcs by (intro columns_call) auto
  then obtain cs' mem1 where c: "on_columns f cs mem = Inr (cs', mem1)"
    "columns_track T (sk g) mem1 evs lo' hi' cs'" "unchanged_outside (cell_of ` set (sk g)) mem mem1" by blast
  have c3: "unchanged_outside (cell_of ` (\<Union>g\<in>{g}. set (sk g))) mem mem1" using c(3) by simp
  have "\<exists>m' mem'. on_groups f m mem1 = Inr (m', mem') \<and> smap_keys m' = smap_keys m \<and>
    (\<forall>(g, cs) \<in> set m'. columns_track T (sk g) mem' evs lo' hi' cs) \<and>
    unchanged_outside (cell_of ` (\<Union>g\<in>set (smap_keys m). set (sk g))) mem1 mem'"
  proof (rule Cons.IH [OF _ _ Cons.prems(3)])
    show "columns_track T (sk h) mem1 evs lo hi ds" if "(h, ds) \<in> set m" for h ds
    proof -
      have "h \<notin> {g}" using that Cons.prems(1) gcs by (auto simp: smap_keys_def image_iff)
      from read_other_group [OF Cons.prems(3) c3 this]
      have "columns_track T (sk h) mem1 evs lo hi ds = columns_track T (sk h) mem evs lo hi ds"
        by (rule columns_track_cong)
      with Cons.prems(4) [of h ds] that show ?thesis by simp
    qed
  next
    fix h ds d v assume "(h, ds) \<in> set m" "d \<in> set ds" "tracks T d v evs lo hi"
    then show "\<exists>d' w. f d v = Inr (d', w) \<and> same_column d d' \<and> tracks T d' w evs lo' hi'"
      using Cons.prems(5) [of h ds d v] by simp
  qed (use Cons.prems gcs c(3) in \<open>auto simp: unchanged_outside_def\<close>)
  then obtain m' mem' where m: "on_groups f m mem1 = Inr (m', mem')" "smap_keys m' = smap_keys m"
    "\<forall>(g, cs) \<in> set m'. columns_track T (sk g) mem' evs lo' hi' cs"
    "unchanged_outside (cell_of ` (\<Union>g\<in>set (smap_keys m). set (sk g))) mem1 mem'" by blast
  have "g \<notin> set (smap_keys m)" using Cons.prems(1) gcs by simp
  from read_other_group [OF Cons.prems(3) m(4) this]
  have "columns_track T (sk g) mem' evs lo' hi' cs' = columns_track T (sk g) mem1 evs lo' hi' cs'"
    by (rule columns_track_cong)
  moreover have "unchanged_outside (cell_of ` (\<Union>g\<in>set (smap_keys (gcs # m)). set (sk g))) mem mem'"
    using unchanged_trans [OF c(3) m(4)] gcs by (simp add: image_Un)
  moreover have "on_groups f (gcs # m) mem = Inr ((g, cs') # m', mem')" using gcs c m by simp
  ultimately show ?case using c m gcs by auto
qed (simp add: case_prod_unfold)

context value_laws
begin

lemma window_expire:
  assumes tr: "window_tracks T sk w mem evs lo (length evs)" and sk: "skeleton_ok sk (rw_preprocessorId w)"
    and mem: "smap_ok mem" and le: "lo \<le> length evs"
    and old: "rw_oldestIndex w = int a" "a \<le> length evs"
    and dead: "\<And>i. a \<le> i \<Longrightarrow> i < length evs \<Longrightarrow> expired (clk (int i)) w (evs ! i)"
    and fit: "\<And>g s. s \<in> set (sk g) \<Longrightarrow> list_all (event_fits T s) evs"
    and ne: "\<And>g s. g \<in> set (smap_keys (rw_groupWiseAggregatedColumnMap w)) \<Longrightarrow> s \<in> set (sk g) \<Longrightarrow>
      members s evs lo (length evs) \<noteq> []"
  shows "\<exists>w' mem'. update_window T clk w mem evs = Inr (w', mem') \<and>
    window_tracks T sk w' mem' evs (length evs) (length evs) \<and>
    unchanged_outside (cell_of ` (\<Union>g\<in>set (smap_keys (rw_groupWiseAggregatedColumnMap w)). set (sk g))) mem mem' \<and>
    same_window w w' \<and> rw_oldestIndex w' = int (length evs)"
proof -
  let ?m = "rw_groupWiseAggregatedColumnMap w" and ?n = "length evs"
  have m: "smap_ok ?m" and all: "\<And>h cs. (h, cs) \<in> set ?m \<Longrightarrow> columns_track T (sk h) mem evs lo ?n cs"
    using tr by (simp_all add: window_tracks_def Let_def smap_find_in)
  have "\<exists>m' mem'. on_groups (\<lambda>c v. column_remove_events T c v evs (int ?n)) ?m mem = Inr (m', mem') \<and>
    smap_keys m' = smap_keys ?m \<and> (\<forall>(g, cs) \<in> set m'. columns_track T (sk g) mem' evs ?n ?n cs) \<and>
    unchanged_outside (cell_of ` (\<Union>g\<in>set (smap_keys ?m). set (sk g))) mem mem'"
  proof (rule on_groups_total [OF smap_ok_distinct [OF m] mem sk all])
    fix g cs c v assume g: "(g, cs) \<in> set ?m" and c: "c \<in> set cs" and t: "tracks T c v evs lo ?n"
    obtain s where s: "s \<in> set (sk g)" "same_column s c" using columns_track_mem [OF all [OF g] c] by blast
    have "g \<in> set (smap_keys ?m)" using g by (force simp: smap_keys_def)
    then have "members c evs lo ?n \<noteq> []" "list_all (event_fits T c) evs"
      using ne s fit by (simp_all add: same_column_cong [OF s(2)])
    then show "\<exists>d w. column_remove_events T c v evs (int ?n) = Inr (d, w) \<and> same_column c d \<and>
        tracks T d w evs ?n ?n"
      using column_remove [OF t le order.refl] by blast
  qed
  then obtain m' mem' where
    r: "on_groups (\<lambda>c v. column_remove_events T c v evs (int ?n)) ?m mem = Inr (m', mem')"
    "smap_keys m' = smap_keys ?m" "\<forall>(g, cs) \<in> set m'. columns_track T (sk g) mem' evs ?n ?n cs"
    "unchanged_outside (cell_of ` (\<Union>g\<in>set (smap_keys ?m). set (sk g))) mem mem'" by blast
  let ?w = "w\<lparr>rw_oldestIndex := int ?n, rw_groupWiseAggregatedColumnMap := m'\<rparr>"
  have m': "smap_ok m'" using m r(2) by (simp add: smap_ok_def)
  have "update_window T clk w mem evs = Inr (?w, mem')"
    using scan_window_all_expired [where clk = clk and w = w, OF dead old(2), of a] old r(1)
    by (simp add: update_window_def)
  moreover have "window_tracks T sk ?w mem' evs ?n ?n"
    using m' r(3) by (auto simp: window_tracks_def Let_def smap_find_in [symmetric])
  moreover have "same_window w ?w" using r(2) by (simp add: same_window_def)
  ultimately show ?thesis using r(4) by (intro exI conjI) auto
qed

end

section \<open>A window that is already empty\<close>

definition readable :: "'v feature_map \<Rightarrow> string \<times> int \<Rightarrow> bool" where
  "readable mem a = (\<not> isl (read_cell mem a))"

lemma readable_iff: "readable mem a \<longleftrightarrow> (\<exists>v. read_cell mem a = Inr v)"
  by (cases "read_cell mem a") (simp_all add: readable_def)

lemma readable_write:
  "write_cell mem a w = Inr mem' \<Longrightarrow> readable mem b \<Longrightarrow> readable mem' b"
  by (simp add: readable_def cells.read_write)

lemma write_readable: "readable mem a \<Longrightarrow> \<exists>mem'. write_cell mem a w = Inr mem'"
  unfolding readable_iff by (elim exE) (rule cells.write_total)

text \<open>A call that faults with \<open>F\<close> on some columns and otherwise leaves the column as it is.\<close>

lemma on_columns_partial:
  assumes "\<forall>c \<in> set cs. readable mem (cell_of c) \<and> (\<forall>v. f c v = Inl F \<or> (\<exists>w. f c v = Inr (c, w)))"
  shows "(\<forall>c \<in> set cs. \<exists>v. f c v \<noteq> Inl F) \<and>
      (\<exists>mem'. on_columns f cs mem = Inr (cs, mem') \<and> (\<forall>a. readable mem a \<longrightarrow> readable mem' a))
    \<or> on_columns f cs mem = Inl F"
  using assms
proof (induction cs arbitrary: mem)
  case (Cons c cs)
  obtain v where v: "load_cell mem c = Inr v"
    using Cons.prems by (auto simp: load_cell_eq readable_iff)
  show ?case
  proof (cases "f c v = Inl F")
    case False
    then obtain w where w: "f c v = Inr (c, w)" using Cons.prems by fastforce
    have "readable mem (cell_of c)" using Cons.prems by simp
    from write_readable [OF this, of w] obtain mem1 where m: "store_cell mem c w = Inr mem1"
      unfolding store_cell_eq by blast
    have keep: "readable mem a \<Longrightarrow> readable mem1 a" for a
      using m readable_write by (simp add: store_cell_eq)
    then have "\<forall>c \<in> set cs. readable mem1 (cell_of c) \<and> (\<forall>v. f c v = Inl F \<or> (\<exists>w. f c v = Inr (c, w)))"
      using Cons.prems by simp
    moreover have "\<exists>v. f c v \<noteq> Inl F" using False by blast
    ultimately show ?thesis using Cons.IH [of mem1] keep v w m by auto
  qed (simp add: v)
qed simp

lemma on_groups_fault:
  assumes "\<forall>(g, cs) \<in> set m. \<forall>c \<in> set cs. readable mem (cell_of c) \<and>
      (\<forall>v. f c v = Inl F \<or> (\<exists>w. f c v = Inr (c, w)))"
    and "(g, cs) \<in> set m" "c \<in> set cs" "\<And>v. f c v = Inl F"
  shows "on_groups f m mem = Inl F"
  using assms
proof (induction m arbitrary: mem)
  case (Cons hds m)
  obtain h ds where hds: "hds = (h, ds)" by fastforce
  have "\<forall>d \<in> set ds. readable mem (cell_of d) \<and> (\<forall>v. f d v = Inl F \<or> (\<exists>w. f d v = Inr (d, w)))"
    using Cons.prems(1) hds by simp
  from on_columns_partial [OF this] show ?case
  proof (elim disjE conjE exE)
    fix mem' assume ok: "\<forall>c \<in> set ds. \<exists>v. f c v \<noteq> Inl F" and run: "on_columns f ds mem = Inr (ds, mem')"
      and keep: "\<forall>a. readable mem a \<longrightarrow> readable mem' a"
    have "(g, cs) \<in> set m" using ok Cons.prems(2-4) hds by auto
    moreover have "\<forall>(g, cs) \<in> set m. \<forall>c \<in> set cs. readable mem' (cell_of c) \<and>
      (\<forall>v. f c v = Inl F \<or> (\<exists>w. f c v = Inr (c, w)))"
    proof (intro ballI, clarify)
      fix g cs c assume "(g, cs) \<in> set m" "c \<in> set cs"
      then have "readable mem (cell_of c) \<and> (\<forall>v. f c v = Inl F \<or> (\<exists>w. f c v = Inr (c, w)))"
        using Cons.prems(1) by (auto dest: bspec [of _ _ "(g, cs)"])
      then show "readable mem' (cell_of c) \<and> (\<forall>v. f c v = Inl F \<or> (\<exists>w. f c v = Inr (c, w)))"
        using keep by blast
    qed
    ultimately have "on_groups f m mem' = Inl F" using Cons.IH Cons.prems(3,4) by blast
    with run hds show ?thesis by simp
  qed (simp add: hds)
qed simp

lemma idle_remove:
  assumes "ac_oldestIndex c = -1" "ac_totalCount c = 0" "length evs < 2 ^ 31" "0 \<le> k"
  shows "column_remove_events T c v evs k =
    (if ac_class c \<in> {SumColumn, CountColumn, AverageColumn} then Inl (Out_Of_Bounds (-1))
     else Inr (c, ac_defaultValue c))"
proof -
  have "[-1 .. k - 1] = -1 # [0 .. k - 1]" using assms(4) by (simp add: upto_rec1)
  moreover have "event_group c evs (-1) = Inl (Out_Of_Bounds (-1))"
    by (simp add: event_group_def vec_get_out)
  ultimately show ?thesis using assms
    by (cases "ac_class c")
      (simp_all add: SumColumn_remove_events_def CountColumn_remove_events_def
        AverageColumn_remove_events_def Sum_remove_step_def Count_remove_step_def Average_remove_step_def
        MinColumn_remove_events_def MaxColumn_remove_events_def
        Extremum_remove_events_def extremum_loop.simps [where i = "-1"] settle_def)
qed

lemma update_empty_window_faults:
  assumes tr: "window_tracks T sk w mem evs (length evs) (length evs)"
    and "rw_oldestIndex w = int (length evs)" "length evs < 2 ^ 31"
    and key: "g \<in> set (smap_keys (rw_groupWiseAggregatedColumnMap w))"
    and s: "s \<in> set (sk g)" "ac_class s \<in> {SumColumn, CountColumn, AverageColumn}"
  shows "update_window T clk w mem evs = Inl (Out_Of_Bounds (-1))"
proof -
  let ?m = "rw_groupWiseAggregatedColumnMap w" and ?n = "length evs"
  let ?f = "\<lambda>c v. column_remove_events T c v evs (int ?n)" and ?F = "Out_Of_Bounds (-1)"
  have m: "smap_ok ?m" and all: "\<And>h cs. (h, cs) \<in> set ?m \<Longrightarrow> columns_track T (sk h) mem evs ?n ?n cs"
    using tr by (simp_all add: window_tracks_def Let_def smap_find_in)
  have idle: "readable mem (cell_of c)" "?f c v = (if ac_class c \<in> {SumColumn, CountColumn, AverageColumn}
      then Inl ?F else Inr (c, ac_defaultValue c))" if h: "(h, cs) \<in> set ?m" and c: "c \<in> set cs" for h cs c v
  proof -
    obtain x where x: "read_cell mem (cell_of c) = Inr x" "tracks T c x evs ?n ?n"
      using columns_track_mem [OF all [OF h] c] by (auto simp: cell_tracks_iff)
    then show "readable mem (cell_of c)" by (simp add: readable_def)
    from x(2) assms(3) show "?f c v = (if ac_class c \<in> {SumColumn, CountColumn, AverageColumn}
      then Inl ?F else Inr (c, ac_defaultValue c))"
      by (intro idle_remove) (simp_all add: tracks_def)
  qed
  obtain cs where cs: "(g, cs) \<in> set ?m" using key by (auto simp: smap_keys_def)
  obtain i where i: "i < length (sk g)" "sk g ! i = s" using s(1) by (auto simp: in_set_conv_nth)
  with all [OF cs] have c: "cs ! i \<in> set cs" "same_column s (cs ! i)"
    by (auto simp: columns_track_def list_all2_conv_all_nth)
  have "on_groups ?f ?m mem = Inl ?F"
  proof (rule on_groups_fault [OF _ cs c(1)])
    show "?f (cs ! i) v = Inl ?F" for v
      using idle(2) [OF cs c(1)] s(2) same_column_cong(8) [OF c(2)] by metis
    show "\<forall>(h, cs) \<in> set ?m. \<forall>c \<in> set cs. readable mem (cell_of c) \<and>
        (\<forall>v. ?f c v = Inl ?F \<or> (\<exists>w. ?f c v = Inr (c, w)))"
      using idle by (auto split: if_splits)
  qed
  moreover have "scan_window clk w evs (int ?n) (int ?n) = Inr (int ?n, True)"
    using scan_window_all_expired [of ?n evs clk w ?n] by simp
  ultimately show ?thesis using assms(2) by (simp add: update_window_def)
qed

section \<open>The columns a window creates\<close>

definition planned_column ::
  "'v value_type \<Rightarrow> int \<Rightarrow> 'v preprocessor_info \<Rightarrow> int list \<Rightarrow> 'v list \<Rightarrow> nat \<Rightarrow> string \<Rightarrow> nat \<Rightarrow> 'v column" where
  "planned_column T pid info columnIds feats start g k =
     new_column T (the (operator_class (pi_aggregateOperators info ! k))) pid (columnIds ! k) g
       (int (start + k)) (feats ! (start + k))"

definition column_plan ::
  "'v value_type \<Rightarrow> int \<Rightarrow> 'v preprocessor_info \<Rightarrow> int list \<Rightarrow> 'v list \<Rightarrow> nat \<Rightarrow> string \<Rightarrow> 'v column list" where
  "column_plan T pid info columnIds feats start g =
     map (planned_column T pid info columnIds feats start g) [0..<length (pi_columnsToAggregate info)]"

definition operators_known :: "'v preprocessor_info \<Rightarrow> int list \<Rightarrow> bool" where
  "operators_known info columnIds =
     (\<forall>k < length (pi_columnsToAggregate info).
        k < length (pi_aggregateOperators info) \<and> k < length columnIds \<and>
        operator_class (pi_aggregateOperators info ! k) \<noteq> None)"

lemma create_columns_plan:
  assumes "\<And>k. k \<in> set ks \<Longrightarrow> k < length (pi_aggregateOperators info) \<and> k < length columnIds \<and>
      start + k < length feats \<and> operator_class (pi_aggregateOperators info ! k) \<noteq> None"
  shows "create_columns T pid info g columnIds feats (int start) (map int ks) cols =
    Inr (cols @ map (planned_column T pid info columnIds feats start g) ks, True)"
  using assms
proof (induction ks arbitrary: cols)
  case (Cons k ks)
  then obtain cls where "operator_class (pi_aggregateOperators info ! k) = Some cls" by fastforce
  moreover have "k < length (pi_aggregateOperators info)" "k < length columnIds" "start + k < length feats"
    using Cons.prems by auto
  ultimately show ?case using Cons
    by (simp add: planned_column_def nat_add_distrib flip: of_nat_add)
qed simp

lemma create_aggregate_columns_plan:
  assumes "operators_known (rw_preprocessorInfo w) columnIds"
    and "start + length (pi_columnsToAggregate (rw_preprocessorInfo w)) \<le> length feats"
  shows "create_aggregate_columns_for_group T w g columnIds feats (int start) =
    Inr (w\<lparr>rw_groupWiseAggregatedColumnMap :=
      smap_put g (column_plan T (rw_preprocessorId w) (rw_preprocessorInfo w) columnIds feats start g)
        (rw_groupWiseAggregatedColumnMap w)\<rparr>, True)"
proof -
  let ?n = "length (pi_columnsToAggregate (rw_preprocessorInfo w))"
  have "[0 .. int ?n - 1] = map int [0..<?n]" using upto_nat [of 0 ?n] by simp
  then show ?thesis
    using create_columns_plan [of "[0..<?n]" "rw_preprocessorInfo w" columnIds start feats T
        "rw_preprocessorId w" g "[]"] assms
    by (simp add: create_aggregate_columns_for_group_def operators_known_def column_plan_def Let_def)
qed

lemma column_plan_nth: "s \<in> set (column_plan T pid info columnIds feats start g) \<longleftrightarrow>
    (\<exists>k < length (pi_columnsToAggregate info). s = planned_column T pid info columnIds feats start g k)"
  by (auto simp: column_plan_def)

lemma planned_column_sel [simp]:
  "ac_group (planned_column T pid info columnIds feats start g k) = g"
  "ac_preprocessorId (planned_column T pid info columnIds feats start g k) = pid"
  "ac_storeSlot (planned_column T pid info columnIds feats start g k) = int (start + k)"
  "ac_columnId (planned_column T pid info columnIds feats start g k) = columnIds ! k"
  "ac_defaultValue (planned_column T pid info columnIds feats start g k) = feats ! (start + k)"
  "ac_class (planned_column T pid info columnIds feats start g k) =
     the (operator_class (pi_aggregateOperators info ! k))"
  by (simp_all add: planned_column_def new_column_def)

lemma skeleton_ok_plan: "skeleton_ok (column_plan T pid info columnIds feats start) pid"
  by (auto simp: skeleton_ok_def column_plan_def cell_of_def distinct_map inj_on_def comp_def)

lemma tracks_planned:
  assumes "members (planned_column T pid info columnIds feats start g k) evs lo hi = []"
  shows "tracks T (planned_column T pid info columnIds feats start g k) (feats ! (start + k)) evs lo hi"
  using assms by (simp add: tracks_def planned_column_def new_column_def average_sum_ok_def window_values_def)

lemma columns_track_plan:
  assumes "smap_find mem g = Some feats"
    and "start + length (pi_columnsToAggregate info) \<le> length feats"
    and "\<And>s. s \<in> set (column_plan T pid info columnIds feats start g) \<Longrightarrow> members s evs lo hi = []"
  shows "columns_track T (column_plan T pid info columnIds feats start g) mem evs lo hi
    (column_plan T pid info columnIds feats start g)"
proof -
  let ?c = "planned_column T pid info columnIds feats start g"
  have "cell_tracks T mem (?c k) evs lo hi" if "k < length (pi_columnsToAggregate info)" for k
  proof -
    have "members (?c k) evs lo hi = []" using assms(3) [of "?c k"] that by (auto simp: column_plan_nth)
    moreover have "read_cell mem (cell_of (?c k)) = Inr (feats ! (start + k))"
      using assms(1,2) that by (simp add: read_cell_def cell_of_def flip: of_nat_add)
    ultimately show ?thesis using tracks_planned unfolding cell_tracks_iff by blast
  qed
  then show ?thesis by (simp add: columns_track_def column_plan_def list_all2_conv_all_nth)
qed

section \<open>A longer log\<close>

lemma columns_track_append:
  assumes "columns_track T ss mem evs lo (length evs) cs"
  shows "columns_track T ss mem (evs @ es) lo (length evs) cs"
proof -
  have same: "same_for c evs (evs @ es) (length evs)" for c :: "'a column"
    by (simp add: same_for_def nth_append)
  have "cell_tracks T mem c (evs @ es) lo (length evs) = cell_tracks T mem c evs lo (length evs)" for c
    unfolding cell_tracks_iff tracks_same_for [OF same] by (rule refl)
  with assms show ?thesis by (simp add: columns_track_def)
qed

lemma window_tracks_append:
  "window_tracks T sk w mem evs lo (length evs) \<Longrightarrow> window_tracks T sk w mem (evs @ es) lo (length evs)"
  by (simp add: window_tracks_def columns_track_append Let_def)

section \<open>The batch result\<close>

definition aggregate :: "'v value_type \<Rightarrow> column_class \<Rightarrow> 'v \<Rightarrow> 'v list \<Rightarrow> 'v" where
  "aggregate T cls d xs =
     (if xs = [] then d
      else case cls of
        SumColumn \<Rightarrow> vt_sum T xs
      | CountColumn \<Rightarrow> vt_count T (length xs)
      | MinColumn \<Rightarrow> foldl (std_min T) (hd xs) (tl xs)
      | MaxColumn \<Rightarrow> foldl (std_max T) (hd xs) (tl xs)
      | AverageColumn \<Rightarrow> (case vt_div T (vt_sum T xs) (int (length xs)) of Inr q \<Rightarrow> q | Inl f \<Rightarrow> d))"

context value_laws
begin

lemma foldl_least: "is_least T (foldl (std_min T) x xs) (x # xs)"
  by (induction xs rule: rev_induct) (simp_all add: least_single, metis append_Cons least_snoc)

lemma foldl_greatest: "is_greatest T (foldl (std_max T) x xs) (x # xs)"
  by (induction xs rule: rev_induct) (simp_all add: greatest_single, metis append_Cons greatest_snoc)

lemma summary_aggregate:
  assumes "summary T cls xs v" "xs \<noteq> []"
  shows "v = aggregate T cls d xs"
proof -
  obtain y ys where "xs = y # ys" using assms(2) by (cases xs) auto
  with assms show ?thesis
    by (cases cls) (auto simp: aggregate_def summary_def
        dest: least_unique [OF foldl_least] greatest_unique [OF foldl_greatest])
qed

lemma tracks_aggregate:
  "tracks T c v evs lo hi \<Longrightarrow> v = aggregate T (ac_class c) (ac_defaultValue c) (window_values T c evs lo hi)"
  by (cases "members c evs lo hi = []")
    (auto simp: tracks_def Let_def intro: summary_aggregate, simp add: aggregate_def)

end

end
