(* ===== verification/Pre_Processor_Contract.thy ===== *)
theory Pre_Processor_Contract
  imports Pre_Processor Window_Contract
begin

text \<open>
  The contract of \<open>PreProcessor<T>\<close>: as long as events are accepted and a live
  event remains, the feature vectors are what a batch computation over the whole
  event log gives.
\<close>

section \<open>A call on every rolling window\<close>

fun on_windows ::
  "(nat \<Rightarrow> 'v rolling_window \<Rightarrow> 'v feature_map \<Rightarrow> ('v rolling_window \<times> 'v feature_map) outcome)
    \<Rightarrow> nat \<Rightarrow> 'v rolling_window list \<Rightarrow> 'v feature_map \<Rightarrow> ('v rolling_window list \<times> 'v feature_map) outcome" where
  "on_windows f j [] mem = Inr ([], mem)"
| "on_windows f j (w # ws) mem =
     ubind (f j w mem) (\<lambda>(w', mem1).
     ubind (on_windows f (Suc j) ws mem1) (\<lambda>(ws', mem2). Inr (w' # ws', mem2)))"

lemma add_to_windows_eq:
  "add_to_windows T clk j ws mem evs n = on_windows (\<lambda>j w mem. window_add_event T (clk j) w mem evs n) j ws mem"
  by (induction T clk j ws mem evs n rule: add_to_windows.induct) (auto intro: ubind_cong)

lemma update_windows_eq:
  "update_windows T clk j ws mem evs = on_windows (\<lambda>j w mem. update_window T (clk j) w mem evs) j ws mem"
  by (induction T clk j ws mem evs rule: update_windows.induct) (auto intro: ubind_cong)

text \<open>The cells of window \<open>j\<close>, when every window has \<open>nc\<close> columns.\<close>

definition window_cells :: "nat \<Rightarrow> nat \<Rightarrow> (string \<times> int) set" where
  "window_cells nc j = {(g, k). int (j * nc) \<le> k \<and> k < int (Suc j * nc)}"

definition cells_from :: "nat \<Rightarrow> nat \<Rightarrow> (string \<times> int) set" where
  "cells_from nc j = {(g, k). int (j * nc) \<le> k}"

lemma block_le: "i < j \<Longrightarrow> int (Suc i * nc) \<le> int (j * nc)"
  unfolding of_nat_le_iff by (intro mult_le_mono1) simp

lemma cells_from_disjoint:
  assumes "i < j"
  shows "window_cells nc i \<inter> cells_from nc j = {}"
proof -
  have False if "k < int (Suc i * nc)" "int (j * nc) \<le> k" for k
    using order.strict_trans1 [OF order.trans [OF block_le [OF assms] that(2)] that(1)] by simp
  then show ?thesis unfolding window_cells_def cells_from_def by blast
qed

lemma window_cells_from: "window_cells nc j \<subseteq> cells_from nc j"
  by (auto simp: window_cells_def cells_from_def)

lemma window_cells_disjoint: "i \<noteq> j \<Longrightarrow> window_cells nc i \<inter> window_cells nc j = {}"
  using cells_from_disjoint [of i j nc] cells_from_disjoint [of j i nc]
    window_cells_from [of nc i] window_cells_from [of nc j]
  by (cases "i < j") (blast, force dest: le_neq_implies_less)

lemma cells_from_Suc: "cells_from nc j = window_cells nc j \<union> cells_from nc (Suc j)"
proof -
  have "int (j * nc) \<le> k" if "int (Suc j * nc) \<le> k" for k
    using order.trans [OF _ that, of "int (j * nc)"] by simp
  then show ?thesis unfolding window_cells_def cells_from_def using not_le by blast
qed

lemma on_windows_total:
  assumes "smap_ok mem" "\<forall>(i, w) \<in> set (enumerate j ws). P i w mem"
    and frame_P: "\<And>i w mem mem' B. P i w mem \<Longrightarrow> unchanged_outside B mem mem' \<Longrightarrow>
      window_cells nc i \<inter> B = {} \<Longrightarrow> P i w mem'"
    and frame_Q: "\<And>i w mem mem' B. Q i w mem \<Longrightarrow> unchanged_outside B mem mem' \<Longrightarrow>
      window_cells nc i \<inter> B = {} \<Longrightarrow> Q i w mem'"
    and step: "\<And>i w mem. P i w mem \<Longrightarrow> smap_ok mem \<Longrightarrow>
      \<exists>w' mem'. f i w mem = Inr (w', mem') \<and> Q i w' mem' \<and> unchanged_outside (window_cells nc i) mem mem'"
  shows "\<exists>ws' mem'. on_windows f j ws mem = Inr (ws', mem') \<and> length ws' = length ws \<and>
    (\<forall>(i, w) \<in> set (enumerate j ws'). Q i w mem') \<and> unchanged_outside (cells_from nc j) mem mem'"
  using assms(1,2)
proof (induction ws arbitrary: j mem)
  case (Cons w ws)
  then have "P j w mem" by simp
  from step [OF this Cons.prems(1)] obtain w' mem1 where
    1: "f j w mem = Inr (w', mem1)" "Q j w' mem1" "unchanged_outside (window_cells nc j) mem mem1" by blast
  have "P i v mem1" if "(i, v) \<in> set (enumerate (Suc j) ws)" for i v
  proof (rule frame_P [OF _ 1(3)])
    show "P i v mem" using that Cons.prems(2) by auto
    show "window_cells nc i \<inter> window_cells nc j = {}"
      using that by (intro window_cells_disjoint) (auto simp: in_set_enumerate_eq)
  qed
  moreover have "smap_ok mem1" using 1(3) by (simp add: unchanged_outside_def)
  ultimately obtain ws' mem' where
    2: "on_windows f (Suc j) ws mem1 = Inr (ws', mem')" "length ws' = length ws"
    "\<forall>(i, w) \<in> set (enumerate (Suc j) ws'). Q i w mem'" "unchanged_outside (cells_from nc (Suc j)) mem1 mem'"
    using Cons.IH [of mem1 "Suc j"] by blast
  have "Q j w' mem'" by (rule frame_Q [OF 1(2) 2(4)]) (simp add: cells_from_disjoint)
  moreover have "unchanged_outside (cells_from nc j) mem mem'"
    using unchanged_trans [OF 1(3) 2(4)] by (simp add: cells_from_Suc [of nc j])
  ultimately show ?case using 1 2 by auto
qed simp

section \<open>The invariant\<close>

definition column_count :: "'v preprocessor \<Rightarrow> nat" where
  "column_count p = length (pi_columnsToAggregate (pp_info p))"

definition window_count :: "'v preprocessor \<Rightarrow> nat" where
  "window_count p = length (pi_rollingWindowsInSecs (pp_info p))"

definition planned :: "'v value_type \<Rightarrow> 'v preprocessor \<Rightarrow> nat \<Rightarrow> string \<Rightarrow> 'v column list" where
  "planned T p j =
     column_plan T (pp_id p) (pp_info p) (pp_columnIds p) (pp_defaultFeature p) (j * column_count p)"

definition window_inv ::
  "'v value_type \<Rightarrow> 'v preprocessor \<Rightarrow> table_event list \<Rightarrow> nat \<Rightarrow> nat \<Rightarrow> string set
    \<Rightarrow> nat \<Rightarrow> 'v rolling_window \<Rightarrow> 'v feature_map \<Rightarrow> bool" where
  "window_inv T p evs lo hi K j w mem =
     (rw_preprocessorId w = pp_id p \<and> rw_preprocessorInfo w = pp_info p \<and>
      j < window_count p \<and> rw_windowTime w = pi_rollingWindowsInSecs (pp_info p) ! j \<and>
      set (smap_keys (rw_groupWiseAggregatedColumnMap w)) = K \<and>
      window_tracks T (planned T p j) w mem evs lo hi)"

definition oldest_inv :: "nat \<Rightarrow> 'v rolling_window \<Rightarrow> bool" where
  "oldest_inv n w =
     (if n = 0 then rw_oldestIndex w = -1 else 0 \<le> rw_oldestIndex w \<and> rw_oldestIndex w < int n)"

text \<open>What never changes: the identity, the configuration and the default vector.\<close>

definition same_setup :: "'v preprocessor \<Rightarrow> 'v preprocessor \<Rightarrow> bool" where
  "same_setup p q =
     (pp_id q = pp_id p \<and> pp_info q = pp_info p \<and> pp_columnIds q = pp_columnIds p \<and>
      pp_groupIds q = pp_groupIds p \<and> pp_defaultFeature q = pp_defaultFeature p)"

definition setup_ok :: "'v preprocessor \<Rightarrow> bool" where
  "setup_ok p =
     (operators_known (pp_info p) (pp_columnIds p) \<and> \<not> pp_isUseless p \<and>
      length (pp_defaultFeature p) = window_count p * column_count p)"

definition store_ok :: "'v preprocessor \<Rightarrow> 'v feature_map \<Rightarrow> bool" where
  "store_ok p mem =
     (smap_ok mem \<and> (\<forall>g xs. smap_find mem g = Some xs \<longrightarrow> length xs = length (pp_defaultFeature p)))"

definition group_of :: "'v preprocessor \<Rightarrow> table_event \<Rightarrow> string" where
  "group_of p e = te_groups e ! nat (pp_id p)"

definition pp_inv :: "'v value_type \<Rightarrow> 'v preprocessor \<Rightarrow> table_event list \<Rightarrow> nat \<Rightarrow> bool" where
  "pp_inv T p evs lo =
     (let mem = pp_groupWiseFeatureMap p; K = set (smap_keys mem) in
      setup_ok p \<and> store_ok p mem \<and> length (pp_rollingWindows p) = window_count p \<and>
      (\<forall>(j, w) \<in> set (enumerate 0 (pp_rollingWindows p)).
         window_inv T p evs lo (length evs) K j w mem \<and> oldest_inv (length evs) w) \<and>
      K = group_of p ` set evs)"

lemma same_setup_simps:
  assumes "same_setup p q"
  shows "column_count q = column_count p" "window_count q = window_count p" "planned T q = planned T p"
    "window_inv T q = window_inv T p" "store_ok q = store_ok p" "group_of q = group_of p"
  using assms
  by (simp_all add: same_setup_def column_count_def window_count_def planned_def window_inv_def
      store_ok_def group_of_def fun_eq_iff)

lemma same_setup_refl [simp]: "same_setup p p"
  by (simp add: same_setup_def)

lemma planned_iff:
  "s \<in> set (planned T p j g) \<longleftrightarrow> (\<exists>k < column_count p. s = planned_column T (pp_id p) (pp_info p)
     (pp_columnIds p) (pp_defaultFeature p) (j * column_count p) g k)"
  by (simp add: planned_def column_plan_nth column_count_def)

lemma planned_cell:
  assumes "s \<in> set (planned T p j g)"
  shows "cell_of s \<in> window_cells (column_count p) j" "ac_group s = g" "ac_preprocessorId s = pp_id p"
proof -
  obtain k where k: "k < column_count p" "s = planned_column T (pp_id p) (pp_info p)
     (pp_columnIds p) (pp_defaultFeature p) (j * column_count p) g k"
    using assms by (auto simp: planned_iff)
  then show "ac_group s = g" "ac_preprocessorId s = pp_id p" by simp_all
  have "j * column_count p + k < Suc j * column_count p" using k(1) by simp
  then show "cell_of s \<in> window_cells (column_count p) j"
    using k(2) unfolding window_cells_def cell_of_def
    by (simp only: planned_column_sel mem_Collect_eq prod.case of_nat_less_iff of_nat_le_iff) simp
qed

lemma planned_skeleton: "skeleton_ok (planned T p j) (pp_id p)"
  unfolding planned_def by (rule skeleton_ok_plan)

lemma window_inv_frame:
  assumes "window_inv T p evs lo hi K j w mem" "unchanged_outside B mem mem'"
    "window_cells (column_count p) j \<inter> B = {}"
  shows "window_inv T p evs lo hi K j w mem'"
proof -
  have "read_cell mem' (cell_of s) = read_cell mem (cell_of s)" if "s \<in> set (planned T p j g)" for g s
    using planned_cell(1) [OF that] assms(2,3) unfolding unchanged_outside_def by blast
  with assms(1) show ?thesis unfolding window_inv_def by (blast intro: window_tracks_frame)
qed

lemma unchanged_mono: "unchanged_outside A mem mem' \<Longrightarrow> A \<subseteq> B \<Longrightarrow> unchanged_outside B mem mem'"
  unfolding unchanged_outside_def by blast

lemma window_inv_same_window:
  "window_inv T p evs lo hi K j w mem \<Longrightarrow> same_window w w' \<Longrightarrow>
    window_tracks T (planned T p j) w' mem' evs lo' hi' \<Longrightarrow> window_inv T p evs lo' hi' K j w' mem'"
  by (simp add: window_inv_def same_window_def)

lemma store_ok_unchanged:
  assumes "store_ok p mem" "unchanged_outside A mem mem'"
  shows "store_ok p mem'" "set (smap_keys mem') = set (smap_keys mem)"
proof -
  have sh: "shape mem' = shape mem" and ok: "smap_ok mem'" using assms(2) by (simp_all add: unchanged_outside_def)
  note len = shape_find [OF sh]
  show "store_ok p mem'"
    unfolding store_ok_def
  proof (intro conjI allI impI ok)
    fix g xs assume "smap_find mem' g = Some xs"
    with len [of g] obtain ys where "smap_find mem g = Some ys" "length xs = length ys"
      by (cases "smap_find mem g") auto
    with assms(1) show "length xs = length (pp_defaultFeature p)" by (simp add: store_ok_def)
  qed
  have "smap_find mem' g = None \<longleftrightarrow> smap_find mem g = None" for g
    using len [of g] by (metis option.map_disc_iff)
  then show "set (smap_keys mem') = set (smap_keys mem)" by (auto simp: smap_find_None_iff)
qed

section \<open>A new group\<close>

lemma shape_free_columns:
  "columns_track T ss mem evs lo hi cs \<Longrightarrow>
    (\<And>s. s \<in> set ss \<Longrightarrow> read_cell mem' (cell_of s) = read_cell mem (cell_of s)) \<Longrightarrow>
    columns_track T ss mem' evs lo hi cs"
  using columns_track_cong [of ss mem' mem T evs lo hi cs] by simp

lemma window_inv_new_group:
  assumes inv: "window_inv T p evs lo hi K j w mem" and g: "g \<notin> K" and mem: "smap_find mem g = None"
    and s: "setup_ok p" and empty: "\<And>s. s \<in> set (planned T p j g) \<Longrightarrow> members s evs lo hi = []"
  shows "window_inv T p evs lo hi (insert g K) j
      (w\<lparr>rw_groupWiseAggregatedColumnMap := smap_put g (planned T p j g) (rw_groupWiseAggregatedColumnMap w)\<rparr>)
      (smap_put g (pp_defaultFeature p) mem)"
proof -
  let ?mem = "smap_put g (pp_defaultFeature p) mem" and ?m = "rw_groupWiseAggregatedColumnMap w"
  have "j < window_count p" using inv by (simp add: window_inv_def)
  then have "Suc j * column_count p \<le> window_count p * column_count p" by (intro mult_le_mono1) simp
  then have "columns_track T (planned T p j g) ?mem evs lo hi (planned T p j g)"
    using empty s unfolding planned_def
    by (intro columns_track_plan) (simp_all add: setup_ok_def column_count_def add.commute)
  moreover have "columns_track T (planned T p j h) ?mem evs lo hi cs"
    if "smap_find ?m h = Some cs" "h \<noteq> g" for h cs
  proof (rule shape_free_columns)
    show "columns_track T (planned T p j h) mem evs lo hi cs"
      using inv that(1) by (simp add: window_inv_def window_tracks_def Let_def)
    show "read_cell ?mem (cell_of s) = read_cell mem (cell_of s)" if "s \<in> set (planned T p j h)" for s
      using planned_cell(2) [OF that] \<open>h \<noteq> g\<close> by (simp add: read_cell_def cell_of_def)
  qed
  ultimately show ?thesis
    using inv by (auto simp: window_inv_def window_tracks_def Let_def split: if_splits)
qed

lemma create_group_run:
  assumes "\<forall>(i, w) \<in> set (enumerate j ws). window_inv T p evs lo hi K i w mem \<and> oldest_inv n w"
    and "setup_ok p" "g \<notin> K" "smap_find mem g = None"
    and "\<And>i s. s \<in> set (planned T p i g) \<Longrightarrow> members s evs lo hi = []"
  shows "\<exists>ws'. create_group T g (pp_columnIds p) (pp_defaultFeature p) (int (column_count p)) (int j) ws = Inr (ws', True) \<and>
    length ws' = length ws \<and> (\<forall>(i, w) \<in> set (enumerate j ws').
      window_inv T p evs lo hi (insert g K) i w (smap_put g (pp_defaultFeature p) mem) \<and> oldest_inv n w)"
  using assms(1)
proof (induction ws arbitrary: j)
  case (Cons w ws)
  let ?w = "w\<lparr>rw_groupWiseAggregatedColumnMap := smap_put g (planned T p j g) (rw_groupWiseAggregatedColumnMap w)\<rparr>"
  have inv: "window_inv T p evs lo hi K j w mem" "oldest_inv n w" using Cons.prems by simp_all
  have "Suc j * column_count p \<le> window_count p * column_count p"
    using inv(1) by (intro mult_le_mono1) (simp add: window_inv_def)
  then have fits: "j * column_count p + column_count p \<le> length (pp_defaultFeature p)"
    using assms(2) by (simp add: setup_ok_def add.commute)
  have run: "create_aggregate_columns_for_group T w g (pp_columnIds p) (pp_defaultFeature p)
      (int (j * column_count p)) = Inr (?w, True)"
    using inv(1) fits assms(2)
    by (subst create_aggregate_columns_plan)
      (simp_all add: window_inv_def setup_ok_def column_count_def planned_def)
  have "window_inv T p evs lo hi (insert g K) j ?w (smap_put g (pp_defaultFeature p) mem)"
    by (rule window_inv_new_group [OF inv(1) assms(3,4,2,5)])
  moreover have "oldest_inv n ?w" using inv(2) by (simp add: oldest_inv_def)
  moreover obtain ws' where "create_group T g (pp_columnIds p) (pp_defaultFeature p) (int (column_count p))
      (int (Suc j)) ws = Inr (ws', True)" "length ws' = length ws"
    "\<forall>(i, w) \<in> set (enumerate (Suc j) ws'). window_inv T p evs lo hi (insert g K) i w
      (smap_put g (pp_defaultFeature p) mem) \<and> oldest_inv n w"
    using Cons.IH [of "Suc j"] Cons.prems by auto
  ultimately show ?case using run by (auto simp: add.commute)
qed simp

definition group_known :: "'v preprocessor \<Rightarrow> string \<Rightarrow> bool" where
  "group_known p g = (g \<in> set (smap_keys (pp_groupWiseFeatureMap p)))"

text \<open>\<open>pp_inv\<close> while the event that introduces \<open>g\<close> is being added.\<close>

definition pp_ready ::
  "'v value_type \<Rightarrow> 'v preprocessor \<Rightarrow> table_event list \<Rightarrow> nat \<Rightarrow> nat \<Rightarrow> string set \<Rightarrow> bool" where
  "pp_ready T p evs lo hi K =
     (let mem = pp_groupWiseFeatureMap p in
      setup_ok p \<and> store_ok p mem \<and> length (pp_rollingWindows p) = window_count p \<and>
      set (smap_keys mem) = K \<and>
      (\<forall>(j, w) \<in> set (enumerate 0 (pp_rollingWindows p)).
         window_inv T p evs lo hi K j w mem \<and> oldest_inv hi w))"

lemma pp_inv_ready:
  "pp_inv T p evs lo \<longleftrightarrow> pp_ready T p evs lo (length evs) (group_of p ` set evs)"
  by (auto simp: pp_inv_def pp_ready_def Let_def)

lemma members_new_group:
  assumes "s \<in> set (planned T p j g)" "g \<notin> group_of p ` set evs" "hi \<le> length evs"
  shows "members s evs lo hi = []"
proof -
  have "\<not> in_group s evs i" if "i < length evs" for i
    using assms(1,2) planned_cell [OF assms(1)] that
    by (auto simp: in_group_def group_of_def image_iff dest: bspec [where x = "evs ! i"])
  then show ?thesis using assms(3) by (auto simp: members_def filter_empty_conv)
qed

lemma ensure_group_run:
  assumes "pp_ready T p evs lo hi K"
    and "\<And>i s. g \<notin> K \<Longrightarrow> s \<in> set (planned T p i g) \<Longrightarrow> members s evs lo hi = []"
  shows "\<exists>q. ensure_group T p g = Inr q \<and> same_setup p q \<and> pp_ready T q evs lo hi (insert g K)"
proof (cases "g \<in> K")
  case True
  then show ?thesis using assms(1)
    by (auto simp: ensure_group_def smap_has_iff pp_ready_def Let_def insert_absorb)
next
  case False
  let ?mem = "smap_put g (pp_defaultFeature p) (pp_groupWiseFeatureMap p)"
  have r: "setup_ok p" "store_ok p (pp_groupWiseFeatureMap p)" "length (pp_rollingWindows p) = window_count p"
    "set (smap_keys (pp_groupWiseFeatureMap p)) = K"
    "\<forall>(j, w) \<in> set (enumerate 0 (pp_rollingWindows p)).
       window_inv T p evs lo hi K j w (pp_groupWiseFeatureMap p) \<and> oldest_inv hi w"
    using assms(1) by (simp_all add: pp_ready_def Let_def)
  have new: "smap_find (pp_groupWiseFeatureMap p) g = None" using False r(4) by (simp add: smap_find_None_iff)
  have "\<exists>ws'. create_group T g (pp_columnIds p) (pp_defaultFeature p) (int (column_count p)) (int 0)
      (pp_rollingWindows p) = Inr (ws', True) \<and> length ws' = length (pp_rollingWindows p) \<and>
    (\<forall>(i, w) \<in> set (enumerate 0 ws'). window_inv T p evs lo hi (insert g K) i w ?mem \<and> oldest_inv hi w)"
    by (rule create_group_run [OF r(5,1) False new]) (rule assms(2) [OF False])
  then obtain ws' where
    ws: "create_group T g (pp_columnIds p) (pp_defaultFeature p) (int (column_count p)) 0 (pp_rollingWindows p)
      = Inr (ws', True)" "length ws' = length (pp_rollingWindows p)"
    "\<forall>(i, w) \<in> set (enumerate 0 ws'). window_inv T p evs lo hi (insert g K) i w ?mem \<and> oldest_inv hi w"
    by auto
  let ?q = "p\<lparr>pp_groupWiseFeatureMap := ?mem, pp_rollingWindows := ws'\<rparr>"
  have same: "same_setup p ?q" by (simp add: same_setup_def)
  have "ensure_group T p g = Inr ?q"
    using new ws(1) r(1) by (simp add: ensure_group_def smap_has_def column_count_def setup_ok_def)
  moreover have "store_ok p ?mem" using r(2) by (simp add: store_ok_def)
  then have "pp_ready T ?q evs lo hi (insert g K)"
    using ws r unfolding pp_ready_def Let_def same_setup_simps [OF same] 
    by (simp add: setup_ok_def same_setup_simps [OF same])
  ultimately show ?thesis using same by blast
qed

section \<open>Events and queries\<close>

definition alive :: "rat \<Rightarrow> int \<Rightarrow> table_event \<Rightarrow> bool" where
  "alive windowTime now e = (rat_of_int (f32_of_int (now - te_timestamp e)) \<le> windowTime)"

text \<open>An event with a group for this preprocessor and readable values in its columns.\<close>

definition event_ok :: "'v value_type \<Rightarrow> 'v preprocessor \<Rightarrow> table_event \<Rightarrow> bool" where
  "event_ok T p e =
     (0 \<le> pp_id p \<and> pp_id p < int (length (te_groups e)) \<and>
      list_all (\<lambda>s. event_fits T s e) (planned T p 0 []))"

definition accepted :: "(nat \<Rightarrow> int) \<Rightarrow> 'v preprocessor \<Rightarrow> table_event \<Rightarrow> bool" where
  "accepted clk p e =
     (\<forall>j < window_count p. alive (pi_rollingWindowsInSecs (pp_info p) ! j) (clk j) e)"

definition last_alive :: "(nat \<Rightarrow> int \<Rightarrow> int) \<Rightarrow> 'v preprocessor \<Rightarrow> table_event list \<Rightarrow> bool" where
  "last_alive clk p evs =
     (evs = [] \<or> accepted (\<lambda>j. clk j (int (length evs) - 1)) p (last evs))"

lemma expired_alive: "rw_windowTime w = t \<Longrightarrow> expired now w e \<longleftrightarrow> \<not> alive t now e"
  by (auto simp: expired_def alive_def)

lemma event_fits_planned:
  assumes "event_ok T p e" "s \<in> set (planned T p j g)"
  shows "event_fits T s e"
proof -
  obtain k where k: "k < column_count p" "s = planned_column T (pp_id p) (pp_info p)
     (pp_columnIds p) (pp_defaultFeature p) (j * column_count p) g k"
    using assms(2) by (auto simp: planned_iff)
  let ?s = "planned_column T (pp_id p) (pp_info p) (pp_columnIds p) (pp_defaultFeature p) (0 * column_count p) [] k"
  have "?s \<in> set (planned T p 0 [])" using k(1) unfolding planned_iff by blast
  then have "event_fits T ?s e" using assms(1) by (simp add: event_ok_def list_all_iff)
  then show ?thesis using k(2) by (simp add: event_fits_def)
qed

lemma event_ok_same_setup: "same_setup p q \<Longrightarrow> event_ok T q = event_ok T p"
  by (simp add: event_ok_def same_setup_simps fun_eq_iff) (simp add: same_setup_def)

lemma accepted_same_setup: "same_setup p q \<Longrightarrow> accepted clk q = accepted clk p"
  by (simp add: accepted_def same_setup_simps fun_eq_iff) (simp add: same_setup_def)

context value_laws
begin

lemma add_to_windows_run:
  assumes r: "pp_ready T p evs lo hi K" and e: "event_ok T p (evs ! hi)" and hi: "hi < length evs" "lo \<le> hi"
    and acc: "accepted clk p (evs ! hi)" and g: "group_of p (evs ! hi) \<in> K"
  shows "\<exists>ws mem. add_to_windows T clk 0 (pp_rollingWindows p) (pp_groupWiseFeatureMap p) evs (int hi) = Inr (ws, mem) \<and>
    pp_ready T (p\<lparr>pp_rollingWindows := ws, pp_groupWiseFeatureMap := mem\<rparr>) evs lo (Suc hi) K"
proof -
  let ?f = "\<lambda>j w mem. window_add_event T (clk j) w mem evs (int hi)"
  let ?P = "\<lambda>j w mem. window_inv T p evs lo hi K j w mem \<and> oldest_inv hi w"
  let ?Q = "\<lambda>j w mem. window_inv T p evs lo (Suc hi) K j w mem \<and> oldest_inv (Suc hi) w"
  have r': "store_ok p (pp_groupWiseFeatureMap p)" "set (smap_keys (pp_groupWiseFeatureMap p)) = K"
    using r by (simp_all add: pp_ready_def Let_def)
  have "\<exists>ws mem. on_windows ?f 0 (pp_rollingWindows p) (pp_groupWiseFeatureMap p) = Inr (ws, mem) \<and>
    length ws = length (pp_rollingWindows p) \<and> (\<forall>(j, w) \<in> set (enumerate 0 ws). ?Q j w mem) \<and>
    unchanged_outside (cells_from (column_count p) 0) (pp_groupWiseFeatureMap p) mem"
  proof (rule on_windows_total [where P = ?P and Q = ?Q])
    fix j w mem assume P: "?P j w mem" and mem: "smap_ok mem"
    let ?g = "group_of p (evs ! hi)"
    have w: "rw_preprocessorId w = pp_id p" "rw_windowTime w = pi_rollingWindowsInSecs (pp_info p) ! j"
      "j < window_count p" "set (smap_keys (rw_groupWiseAggregatedColumnMap w)) = K"
      "window_tracks T (planned T p j) w mem evs lo hi" using P by (simp_all add: window_inv_def)
    have live: "\<not> expired (clk j) w (evs ! hi)"
      using acc w(3) by (simp add: expired_alive [OF w(2)] accepted_def)
    have gg: "vec_get (te_groups (evs ! hi)) (rw_preprocessorId w) = Inr ?g"
      using e by (simp add: w(1) event_ok_def group_of_def)
    have kk: "?g \<in> set (smap_keys (rw_groupWiseAggregatedColumnMap w))" using g w(4) by simp
    have sk: "skeleton_ok (planned T p j) (rw_preprocessorId w)" unfolding w(1) by (rule planned_skeleton)
    have "\<exists>w' mem'. ?f j w mem = Inr (w', mem') \<and>
      window_tracks T (planned T p j) w' mem' evs lo (Suc hi) \<and>
      unchanged_outside (cell_of ` set (planned T p j ?g)) mem mem' \<and> same_window w w' \<and>
      rw_oldestIndex w' = (if rw_oldestIndex w = -1 then int hi else rw_oldestIndex w)"
      by (rule window_add [OF w(5) sk mem hi(2,1) live gg kk]) (rule event_fits_planned [OF e])
    then obtain w' mem' where
      run: "?f j w mem = Inr (w', mem')" "window_tracks T (planned T p j) w' mem' evs lo (Suc hi)"
      "unchanged_outside (cell_of ` set (planned T p j ?g)) mem mem'" "same_window w w'"
      "rw_oldestIndex w' = (if rw_oldestIndex w = -1 then int hi else rw_oldestIndex w)"
      by blast
    have "unchanged_outside (window_cells (column_count p) j) mem mem'"
      using planned_cell(1) by (intro unchanged_mono [OF run(3)]) blast
    moreover have "oldest_inv (Suc hi) w'" using P run(5) by (auto simp: oldest_inv_def split: if_splits)
    ultimately show "\<exists>w' mem'. ?f j w mem = Inr (w', mem') \<and> ?Q j w' mem' \<and>
        unchanged_outside (window_cells (column_count p) j) mem mem'"
      using run(1) window_inv_same_window [OF conjunct1 [OF P] run(4,2)] by blast
  qed (use r in \<open>auto simp: pp_ready_def Let_def store_ok_def intro: window_inv_frame\<close>)
  then obtain ws mem where run: "on_windows ?f 0 (pp_rollingWindows p) (pp_groupWiseFeatureMap p) = Inr (ws, mem)"
    "length ws = length (pp_rollingWindows p)" "\<forall>(j, w) \<in> set (enumerate 0 ws). ?Q j w mem"
    "unchanged_outside (cells_from (column_count p) 0) (pp_groupWiseFeatureMap p) mem" by blast
  let ?q = "p\<lparr>pp_rollingWindows := ws, pp_groupWiseFeatureMap := mem\<rparr>"
  have same: "same_setup p ?q" by (simp add: same_setup_def)
  have "pp_ready T ?q evs lo (Suc hi) K"
    using r run(2,3) store_ok_unchanged [OF r'(1) run(4)] r'(2)
    by (simp add: pp_ready_def Let_def same_setup_simps [OF same] setup_ok_def)
  with run(1) show ?thesis by (auto simp: add_to_windows_eq)
qed

lemma pp_ready_append:
  assumes "pp_ready T p evs lo (length evs) K"
  shows "pp_ready T p (evs @ es) lo (length evs) K"
  using assms by (auto simp: pp_ready_def Let_def window_inv_def intro: window_tracks_append)

lemma preprocessor_add_run:
  assumes inv: "pp_inv T p evs lo" and lo: "lo \<le> length evs" and e: "event_ok T p e" and acc: "accepted clk p e"
  shows "\<exists>q. preprocessor_add_event T clk p (evs @ [e]) (int (length evs)) = Inr q \<and>
    same_setup p q \<and> pp_inv T q (evs @ [e]) lo"
proof -
  let ?n = "length evs" and ?evs = "evs @ [e]" and ?K = "group_of p ` set evs" and ?g = "group_of p e"
  have r: "pp_ready T p ?evs lo ?n ?K" using inv by (simp add: pp_inv_ready pp_ready_append)
  have new: "members s ?evs lo ?n = []" if "?g \<notin> ?K" "s \<in> set (planned T p i ?g)" for i s
  proof -
    have "members s ?evs lo ?n = members s evs lo ?n"
      by (rule members_same_for) (simp add: same_for_def nth_append)
    with members_new_group [OF that(2,1)] show ?thesis by simp
  qed
  have "\<exists>q. ensure_group T p ?g = Inr q \<and> same_setup p q \<and> pp_ready T q ?evs lo ?n (insert ?g ?K)"
    by (rule ensure_group_run [OF r]) (rule new)
  then obtain q where
    q: "ensure_group T p ?g = Inr q" "same_setup p q" "pp_ready T q ?evs lo ?n (insert ?g ?K)" by blast
  note eqs = same_setup_simps [OF q(2)] event_ok_same_setup [OF q(2)] accepted_same_setup [OF q(2)]
  obtain ws mem where run: "add_to_windows T clk 0 (pp_rollingWindows q) (pp_groupWiseFeatureMap q) ?evs (int ?n)
      = Inr (ws, mem)"
    "pp_ready T (q\<lparr>pp_rollingWindows := ws, pp_groupWiseFeatureMap := mem\<rparr>) ?evs lo (Suc ?n) (insert ?g ?K)"
    using add_to_windows_run [OF q(3), of clk] lo e acc by (auto simp: eqs)
  let ?r = "q\<lparr>pp_rollingWindows := ws, pp_groupWiseFeatureMap := mem\<rparr>"
  have g: "vec_get (te_groups e) (pp_id p) = Inr ?g" using e by (simp add: event_ok_def group_of_def)
  have same: "same_setup p ?r" using q(2) by (simp add: same_setup_def)
  have "preprocessor_add_event T clk p ?evs (int ?n) = Inr ?r"
    using q(1) run(1) g by (simp add: preprocessor_add_event_def)
  moreover have "pp_inv T ?r ?evs lo"
    using run(2) by (simp add: pp_inv_ready same_setup_simps [OF same])
  ultimately show ?thesis using same by blast
qed

end

section \<open>The rows handed to the model\<close>

definition reference_row :: "'v value_type \<Rightarrow> 'v preprocessor \<Rightarrow> table_event list \<Rightarrow> nat \<Rightarrow> string \<Rightarrow> 'v list" where
  "reference_row T p evs lo g =
     concat (map (\<lambda>j. map (\<lambda>s. aggregate T (ac_class s) (ac_defaultValue s)
                                (window_values T s evs lo (length evs))) (planned T p j g))
                 [0..<window_count p])"

lemma blocks:
  "length xs = n * m \<Longrightarrow> concat (map (\<lambda>j. map (\<lambda>k. xs ! (j * m + k)) [0..<m]) [0..<n]) = xs"
proof (induction n arbitrary: xs)
  case (Suc n)
  let ?ys = "take (n * m) xs" and ?zs = "drop (n * m) xs"
  have "j * m + k < n * m" if "j < n" "k < m" for j k
  proof -
    have "Suc j * m \<le> n * m" using that by (intro mult_le_mono1) simp
    with that show ?thesis by simp
  qed
  then have "map (\<lambda>j. map (\<lambda>k. xs ! (j * m + k)) [0..<m]) [0..<n] =
      map (\<lambda>j. map (\<lambda>k. ?ys ! (j * m + k)) [0..<m]) [0..<n]"
    by simp
  moreover have "map (\<lambda>k. xs ! (n * m + k)) [0..<m] = ?zs"
    using Suc.prems by (intro nth_equalityI) simp_all
  moreover have "length ?ys = n * m" using Suc.prems by simp
  moreover from this have "concat (map (\<lambda>j. map (\<lambda>k. ?ys ! (j * m + k)) [0..<m]) [0..<n]) = ?ys" by (rule Suc.IH)
  ultimately show ?case by (simp only: upt_Suc_append [OF le0] map_append concat_append list.map concat.simps
      append_Nil2 append_take_drop_id)
qed simp

definition row_of :: "'v preprocessor \<Rightarrow> 'v feature_map \<Rightarrow> string \<Rightarrow> 'v list" where
  "row_of p mem g = smap_at (pp_defaultFeature p) mem g"

lemma row_length: "store_ok p mem \<Longrightarrow> length (row_of p mem g) = length (pp_defaultFeature p)"
  by (auto simp: row_of_def smap_at_def store_ok_def split: option.split)

lemma gather_rows:
  assumes "store_ok p mem"
  shows "gather (pp_defaultFeature p) mem gs = Inr (concat (map (row_of p mem) gs))"
proof (induction gs)
  case (Cons g gs)
  then show ?case using row_length [OF assms, of g] by (simp add: row_of_def Let_def)
qed simp

lemma planned_map:
  "planned T p j g = map (\<lambda>k. planned_column T (pp_id p) (pp_info p) (pp_columnIds p) (pp_defaultFeature p)
     (j * column_count p) g k) [0..<column_count p]"
  by (simp add: planned_def column_plan_def column_count_def)

lemma reference_row_eq:
  assumes "length xs = window_count p * column_count p"
    and "\<And>j k s. j < window_count p \<Longrightarrow> k < column_count p \<Longrightarrow>
      s = planned_column T (pp_id p) (pp_info p) (pp_columnIds p) (pp_defaultFeature p) (j * column_count p) g k \<Longrightarrow>
      xs ! (j * column_count p + k) =
        aggregate T (ac_class s) (ac_defaultValue s) (window_values T s evs lo (length evs))"
  shows "reference_row T p evs lo g = xs"
proof -
  have "map (\<lambda>s. aggregate T (ac_class s) (ac_defaultValue s) (window_values T s evs lo (length evs)))
      (planned T p j g) = map (\<lambda>k. xs ! (j * column_count p + k)) [0..<column_count p]"
    if "j < window_count p" for j
    using assms(2) [OF that _ refl] unfolding planned_map by simp
  then have "reference_row T p evs lo g =
      concat (map (\<lambda>j. map (\<lambda>k. xs ! (j * column_count p + k)) [0..<column_count p]) [0..<window_count p])"
    unfolding reference_row_def by (intro arg_cong [where f = concat] map_cong) simp_all
  then show ?thesis by (simp only: blocks [OF assms(1)])
qed

text \<open>A group that no event belongs to has the default row.\<close>

lemma reference_row_empty:
  assumes "setup_ok p" "\<And>j s. s \<in> set (planned T p j g) \<Longrightarrow> members s evs lo (length evs) = []"
  shows "reference_row T p evs lo g = pp_defaultFeature p"
proof (rule reference_row_eq)
  fix j k s assume k: "k < column_count p" and s: "s = planned_column T (pp_id p) (pp_info p) (pp_columnIds p)
      (pp_defaultFeature p) (j * column_count p) g k"
  have "s \<in> set (planned T p j g)" unfolding planned_iff using k s by blast
  from assms(2) [OF this] have "window_values T s evs lo (length evs) = []" by simp
  then show "pp_defaultFeature p ! (j * column_count p + k) =
      aggregate T (ac_class s) (ac_defaultValue s) (window_values T s evs lo (length evs))"
    using s by (simp add: aggregate_def)
qed (use assms(1) in \<open>simp add: setup_ok_def\<close>)

lemma enumerate_nth: "j < length ws \<Longrightarrow> (j, ws ! j) \<in> set (enumerate 0 ws)"
  by (simp add: in_set_enumerate_eq)

context value_laws
begin

lemma row_of_reference:
  assumes "setup_ok p" "store_ok p mem" "length ws = window_count p"
    and "\<forall>(j, w) \<in> set (enumerate 0 ws). window_inv T p evs lo (length evs) (set (smap_keys mem)) j w mem"
    and "\<And>j s. g \<notin> set (smap_keys mem) \<Longrightarrow> s \<in> set (planned T p j g) \<Longrightarrow> members s evs lo (length evs) = []"
  shows "row_of p mem g = reference_row T p evs lo g"
proof (cases "g \<in> set (smap_keys mem)")
  case False
  then have "row_of p mem g = pp_defaultFeature p"
    by (simp add: row_of_def smap_at_def smap_find_None_iff [symmetric])
  then show ?thesis using reference_row_empty [OF assms(1), of T g evs lo] assms(5) False by simp
next
  case True
  then obtain xs where xs: "smap_find mem g = Some xs" by (metis option.exhaust smap_find_None_iff)
  have len: "length xs = window_count p * column_count p"
    using assms(1,2) xs by (simp add: store_ok_def setup_ok_def)
  have "reference_row T p evs lo g = xs"
  proof (rule reference_row_eq [OF len])
    fix j k s assume j: "j < window_count p" and k: "k < column_count p"
      and s: "s = planned_column T (pp_id p) (pp_info p) (pp_columnIds p)
        (pp_defaultFeature p) (j * column_count p) g k"
    let ?w = "ws ! j"
    have w: "window_inv T p evs lo (length evs) (set (smap_keys mem)) j ?w mem"
      using assms(4) enumerate_nth [of j ws] j assms(3) by auto
    then have "g \<in> set (smap_keys (rw_groupWiseAggregatedColumnMap ?w))"
      using True by (simp add: window_inv_def)
    then obtain cs where "smap_find (rw_groupWiseAggregatedColumnMap ?w) g = Some cs"
      by (metis option.exhaust smap_find_None_iff)
    then have "columns_track T (planned T p j g) mem evs lo (length evs) cs"
      using w by (simp add: window_inv_def window_tracks_def Let_def)
    moreover have "planned T p j g ! k = s" "length (planned T p j g) = column_count p"
      using k s by (simp_all add: planned_map)
    ultimately have c: "same_column s (cs ! k)" "cell_tracks T mem (cs ! k) evs lo (length evs)"
      using k by (auto simp: columns_track_def list_all2_conv_all_nth)
    then obtain v where v: "read_cell mem (cell_of s) = Inr v" "tracks T (cs ! k) v evs lo (length evs)"
      by (auto simp: cell_tracks_iff same_column_cell)
    have "v = xs ! (j * column_count p + k)"
      using v(1) xs s unfolding read_cell_def cell_of_def
      by (simp add: vec_get_Inr_iff flip: of_nat_mult of_nat_add)
    with tracks_aggregate [OF v(2)] show "xs ! (j * column_count p + k) =
        aggregate T (ac_class s) (ac_defaultValue s) (window_values T s evs lo (length evs))"
      by (simp add: same_column_cong [OF c(1)])
  qed
  with xs show ?thesis by (simp add: row_of_def smap_at_def)
qed

end

section \<open>Queries\<close>

lemma update_windows_run:
  assumes "smap_ok mem" "\<forall>(j, w) \<in> set (enumerate 0 ws). window_inv T p evs lo hi K j w mem \<and> R w"
    and step: "\<And>j w mem. window_inv T p evs lo hi K j w mem \<Longrightarrow> R w \<Longrightarrow> smap_ok mem \<Longrightarrow>
      \<exists>w' mem'. update_window T (clk j) w mem evs = Inr (w', mem') \<and>
        window_inv T p evs lo' hi' K j w' mem' \<and> R' w' \<and>
        unchanged_outside (window_cells (column_count p) j) mem mem'"
  shows "\<exists>ws' mem'. update_windows T clk 0 ws mem evs = Inr (ws', mem') \<and> length ws' = length ws \<and>
    (\<forall>(j, w) \<in> set (enumerate 0 ws'). window_inv T p evs lo' hi' K j w mem' \<and> R' w) \<and>
    unchanged_outside (cells_from (column_count p) 0) mem mem'"
  unfolding update_windows_eq
proof (rule on_windows_total [where P = "\<lambda>j w mem. window_inv T p evs lo hi K j w mem \<and> R w"
      and Q = "\<lambda>j w mem. window_inv T p evs lo' hi' K j w mem \<and> R' w"])
  fix j w mem assume "window_inv T p evs lo hi K j w mem \<and> R w" "smap_ok mem"
  with step [of j w mem] show "\<exists>w' mem'. update_window T (clk j) w mem evs = Inr (w', mem') \<and>
    (window_inv T p evs lo' hi' K j w' mem' \<and> R' w') \<and>
    unchanged_outside (window_cells (column_count p) j) mem mem'" by blast
qed (use assms(1,2) in \<open>auto intro: window_inv_frame\<close>)

lemma update_window_last_alive:
  assumes inv: "window_inv T p evs lo hi K j w mem" and old: "oldest_inv (length evs) w"
    and K: "evs = [] \<Longrightarrow> K = {}" and alive: "last_alive clk p evs" and mem: "smap_ok mem"
  shows "\<exists>w'. update_window T (clk j) w mem evs = Inr (w', mem) \<and>
    window_inv T p evs lo hi K j w' mem \<and> oldest_inv (length evs) w'"
proof (cases "evs = []")
  case True
  then have "rw_groupWiseAggregatedColumnMap w = []" "rw_oldestIndex w = -1"
    using inv old K by (auto simp: window_inv_def oldest_inv_def smap_keys_def)
  with True have "update_window T (clk j) w mem evs = Inr (w, mem)"
    by (simp add: update_window_def scan_window.simps)
  with inv old show ?thesis by blast
next
  case False
  let ?i = "length evs - 1"
  have "rw_windowTime w = pi_rollingWindowsInSecs (pp_info p) ! j" "j < window_count p"
    using inv by (simp_all add: window_inv_def)
  moreover have "evs ! ?i = last evs" using False by (simp add: last_conv_nth)
  moreover have i: "int ?i = int (length evs) - 1" using False by (cases evs) simp_all
  ultimately have live: "\<not> expired (clk j (int ?i)) w (evs ! ?i)"
    using alive False unfolding i by (simp add: expired_alive last_alive_def accepted_def)
  obtain a where a: "rw_oldestIndex w = int a" "a \<le> ?i"
    using old False by (auto simp: oldest_inv_def nonneg_int_cases elim!: nonneg_int_cases)
  have "?i < length evs" using False by (cases evs) simp_all
  from update_window_live [where clk = "clk j", OF a this live]
  obtain k where "update_window T (clk j) w mem evs = Inr (w\<lparr>rw_oldestIndex := int k\<rparr>, mem)" "k \<le> ?i" by blast
  moreover have "window_inv T p evs lo hi K j (w\<lparr>rw_oldestIndex := int k\<rparr>) mem"
    using inv by (simp add: window_inv_def)
  moreover have "oldest_inv (length evs) (w\<lparr>rw_oldestIndex := int k\<rparr>)"
    using False \<open>k \<le> ?i\<close> by (cases evs) (simp_all add: oldest_inv_def)
  ultimately show ?thesis by blast
qed

lemma reference_row_same_setup: "same_setup p q \<Longrightarrow> reference_row T q = reference_row T p"
  by (simp add: reference_row_def same_setup_simps fun_eq_iff)

context value_laws
begin

lemma pp_inv_row:
  assumes "pp_inv T p evs lo"
  shows "row_of p (pp_groupWiseFeatureMap p) g = reference_row T p evs lo g"
proof -
  have r: "setup_ok p" "store_ok p (pp_groupWiseFeatureMap p)" "length (pp_rollingWindows p) = window_count p"
    "\<forall>(j, w) \<in> set (enumerate 0 (pp_rollingWindows p)). window_inv T p evs lo (length evs)
       (set (smap_keys (pp_groupWiseFeatureMap p))) j w (pp_groupWiseFeatureMap p)"
    "set (smap_keys (pp_groupWiseFeatureMap p)) = group_of p ` set evs"
    using assms by (auto simp: pp_inv_def Let_def)
  show ?thesis
    by (rule row_of_reference [OF r(1-4)]) (use r(5) in \<open>auto intro: members_new_group\<close>)
qed

lemma get_model_input_run:
  assumes inv: "pp_inv T p evs lo" and alive: "last_alive clk p evs"
  shows "\<exists>q. preprocessor_get_model_input T clk p gs evs =
      Inr (q, Some (concat (map (reference_row T p evs lo) gs))) \<and> same_setup p q \<and> pp_inv T q evs lo"
proof -
  let ?mem = "pp_groupWiseFeatureMap p" and ?K = "group_of p ` set evs" and ?n = "length evs"
  have r: "setup_ok p" "store_ok p ?mem" "length (pp_rollingWindows p) = window_count p" "set (smap_keys ?mem) = ?K"
    "\<forall>(j, w) \<in> set (enumerate 0 (pp_rollingWindows p)). window_inv T p evs lo ?n ?K j w ?mem \<and> oldest_inv ?n w"
    using inv by (simp_all add: pp_inv_ready pp_ready_def Let_def)
  have "\<exists>ws' mem'. update_windows T clk 0 (pp_rollingWindows p) ?mem evs = Inr (ws', mem') \<and>
    length ws' = length (pp_rollingWindows p) \<and>
    (\<forall>(j, w) \<in> set (enumerate 0 ws'). window_inv T p evs lo ?n ?K j w mem' \<and> oldest_inv ?n w) \<and>
    unchanged_outside (cells_from (column_count p) 0) ?mem mem'"
  proof (rule update_windows_run [OF _ r(5)])
    fix j w mem assume "window_inv T p evs lo ?n ?K j w mem" "oldest_inv ?n w" "smap_ok mem"
    from update_window_last_alive [OF this(1,2) _ alive this(3)]
    show "\<exists>w' mem'. update_window T (clk j) w mem evs = Inr (w', mem') \<and>
      window_inv T p evs lo ?n ?K j w' mem' \<and> oldest_inv ?n w' \<and>
      unchanged_outside (window_cells (column_count p) j) mem mem'"
      using \<open>smap_ok mem\<close> by (auto intro: unchanged_refl)
  qed (use r(2) in \<open>simp add: store_ok_def\<close>)
  then obtain ws mem where u: "update_windows T clk 0 (pp_rollingWindows p) ?mem evs = Inr (ws, mem)"
    "length ws = window_count p"
    "\<forall>(j, w) \<in> set (enumerate 0 ws). window_inv T p evs lo ?n ?K j w mem \<and> oldest_inv ?n w"
    "unchanged_outside (cells_from (column_count p) 0) ?mem mem" using r(3) by auto
  let ?q = "p\<lparr>pp_rollingWindows := ws, pp_groupWiseFeatureMap := mem\<rparr>"
  have same: "same_setup p ?q" by (simp add: same_setup_def)
  note mem = store_ok_unchanged [OF r(2) u(4)]
  have q: "pp_inv T ?q evs lo" using u(2,3) mem r(1,4)
    by (simp add: pp_inv_ready pp_ready_def Let_def same_setup_simps [OF same] setup_ok_def)
  have "row_of p mem g = reference_row T p evs lo g" for g
    using pp_inv_row [OF q, of g] by (simp add: reference_row_same_setup [OF same] row_of_def)
  then have "concat (map (row_of p mem) gs) = concat (map (reference_row T p evs lo) gs)"
    by (intro arg_cong [where f = concat] map_cong refl)
  moreover have "preprocessor_get_model_input T clk p gs evs = Inr (?q, Some (concat (map (row_of p mem) gs)))"
    using r(1) u(1) gather_rows [OF mem(1), of gs]
    by (simp add: preprocessor_get_model_input_def setup_ok_def)
  ultimately show ?thesis using same q by auto
qed

end

section \<open>Runs\<close>

text \<open>
  A live run: a fresh preprocessor with known operators, events that are accepted
  by every window, queries made while the last event is alive.
\<close>

inductive live_run :: "'v value_type \<Rightarrow> 'v preprocessor \<Rightarrow> table_event list \<Rightarrow> bool" for T where
  start: "operators_known info columnIds \<Longrightarrow> new_preprocessor pid info groupIds columnIds = Inr p \<Longrightarrow>
    live_run T p []"
| event: "live_run T p evs \<Longrightarrow> event_ok T p e \<Longrightarrow> accepted clk p e \<Longrightarrow>
    preprocessor_add_event T clk p (evs @ [e]) (int (length evs)) = Inr q \<Longrightarrow> live_run T q (evs @ [e])"
| query: "live_run T p evs \<Longrightarrow> last_alive clk p evs \<Longrightarrow>
    preprocessor_get_model_input T clk p gs evs = Inr (q, r) \<Longrightarrow> live_run T q evs"

lemma fill_default_length: "fill_default dv nc is = Inr df \<Longrightarrow> length df = length is"
  by (induction dv nc "is" arbitrary: df rule: fill_default.induct) (auto simp: ubind_Inr_iff)

lemma new_preprocessor_inv:
  assumes "operators_known info columnIds" "new_preprocessor pid info groupIds columnIds = Inr p"
  shows "pp_inv T p [] 0"
proof -
  let ?nw = "length (pi_rollingWindowsInSecs info)" and ?nc = "length (pi_columnsToAggregate info)"
  obtain df where df: "fill_default (pi_defaultVector info) (int ?nc) [0 .. int ?nw * int ?nc - 1] = Inr df"
    and p: "p = \<lparr>pp_id = pid, pp_groupIds = groupIds, pp_columnIds = columnIds, pp_isUseless = False,
       pp_info = info, pp_defaultFeature = df,
       pp_rollingWindows = map (new_rolling_window pid info) (pi_rollingWindowsInSecs info),
       pp_groupWiseFeatureMap = []\<rparr>"
    using assms(2) by (auto simp: new_preprocessor_def ubind_Inr_iff Let_def)
  have "int ?nw * int ?nc = int (?nw * ?nc)" by simp
  then have "length df = ?nw * ?nc"
    using fill_default_length [OF df] by (simp add: nat_mult_distrib)
  moreover have "window_inv T p [] 0 0 {} j w []" "oldest_inv 0 w"
    if "(j, w) \<in> set (enumerate 0 (pp_rollingWindows p))" for j w
    using that by (auto simp: p in_set_enumerate_eq window_inv_def oldest_inv_def new_rolling_window_def
        window_count_def window_tracks_def)
  ultimately show ?thesis
    using assms(1) by (auto simp: p pp_inv_def setup_ok_def store_ok_def window_count_def column_count_def)
qed

lemma fill_default_total: "0 < nc \<Longrightarrow> nc \<le> int (length dv) \<Longrightarrow> \<exists>df. fill_default dv nc is = Inr df"
proof (induction dv nc "is" rule: fill_default.induct)
  case (2 dv nc i "is")
  have "vec_get dv (i mod nc) = Inr (dv ! nat (i mod nc))"
    using 2(2,3) order.strict_trans2 [OF pos_mod_bound [of nc i]] by (intro vec_get_in) simp_all
  with 2 show ?case by auto
qed simp

lemma new_preprocessor_total:
  assumes "length (pi_columnsToAggregate info) \<le> length (pi_defaultVector info)"
  shows "\<exists>p. new_preprocessor pid info groupIds columnIds = Inr p"
proof (cases "pi_columnsToAggregate info = []")
  case False
  let ?nc = "int (length (pi_columnsToAggregate info))"
  obtain df where "fill_default (pi_defaultVector info) ?nc
      [0 .. int (length (pi_rollingWindowsInSecs info)) * ?nc - 1] = Inr df"
    using fill_default_total [of ?nc "pi_defaultVector info"] assms False by fastforce
  then show ?thesis by (simp add: new_preprocessor_def)
qed (simp add: new_preprocessor_def)

context value_laws
begin

lemma live_run_inv: "live_run T p evs \<Longrightarrow> pp_inv T p evs 0"
proof (induction rule: live_run.induct)
  case (event p evs e clk q)
  then show ?case using preprocessor_add_run [OF event.IH le0 event.hyps(2,3)] by auto
next
  case (query p evs clk gs q r)
  then show ?case using get_model_input_run [OF query.IH query.hyps(2), of gs] by auto
qed (rule new_preprocessor_inv)

end

section \<open>When everything has expired\<close>

definition all_dead :: "(nat \<Rightarrow> int \<Rightarrow> int) \<Rightarrow> 'v preprocessor \<Rightarrow> table_event list \<Rightarrow> bool" where
  "all_dead clk p evs =
     (\<forall>j < window_count p. \<forall>i < length evs.
        \<not> alive (pi_rollingWindowsInSecs (pp_info p) ! j) (clk j (int i)) (evs ! i))"

definition pp_drained :: "'v value_type \<Rightarrow> 'v preprocessor \<Rightarrow> table_event list \<Rightarrow> bool" where
  "pp_drained T p evs =
     (let mem = pp_groupWiseFeatureMap p; K = group_of p ` set evs; n = length evs in
      setup_ok p \<and> store_ok p mem \<and> length (pp_rollingWindows p) = window_count p \<and>
      set (smap_keys mem) = K \<and>
      (\<forall>(j, w) \<in> set (enumerate 0 (pp_rollingWindows p)).
         window_inv T p evs n n K j w mem \<and> rw_oldestIndex w = int n))"

lemma members_known_group:
  assumes "s \<in> set (planned T p j g)" "g \<in> group_of p ` set evs"
  shows "members s evs 0 (length evs) \<noteq> []"
proof -
  obtain i where "i < length evs" "group_of p (evs ! i) = g" using assms(2) by (auto simp: in_set_conv_nth)
  then have "i \<in> set (members s evs 0 (length evs))"
    using planned_cell [OF assms(1)] by (simp add: members_def in_group_def group_of_def)
  then show ?thesis by auto
qed

context value_laws
begin

lemma live_run_events: "live_run T p evs \<Longrightarrow> list_all (event_ok T p) evs"
proof (induction rule: live_run.induct)
  case (event p evs e clk q)
  have "same_setup p q"
    using preprocessor_add_run [OF live_run_inv [OF event.hyps(1)] le0 event.hyps(2,3)] event.hyps(4) by auto
  then show ?case using event.IH event.hyps(2) by (simp add: event_ok_same_setup)
next
  case (query p evs clk gs q r)
  have "same_setup p q"
    using get_model_input_run [OF live_run_inv [OF query.hyps(1)] query.hyps(2), of gs] query.hyps(3) by auto
  then show ?case using query.IH by (simp add: event_ok_same_setup)
qed simp

lemma update_window_dead:
  assumes inv: "window_inv T p evs 0 (length evs) (group_of p ` set evs) j w mem" and old: "oldest_inv (length evs) w"
    and ne: "evs \<noteq> []" and dead: "all_dead clk p evs" and mem: "smap_ok mem" and ok: "list_all (event_ok T p) evs"
  shows "\<exists>w' mem'. update_window T (clk j) w mem evs = Inr (w', mem') \<and>
    window_inv T p evs (length evs) (length evs) (group_of p ` set evs) j w' mem' \<and>
    rw_oldestIndex w' = int (length evs) \<and> unchanged_outside (window_cells (column_count p) j) mem mem'"
proof -
  let ?n = "length evs" and ?K = "group_of p ` set evs"
  have w: "rw_preprocessorId w = pp_id p" "rw_windowTime w = pi_rollingWindowsInSecs (pp_info p) ! j"
    "j < window_count p" "set (smap_keys (rw_groupWiseAggregatedColumnMap w)) = ?K"
    "window_tracks T (planned T p j) w mem evs 0 ?n" using inv by (simp_all add: window_inv_def)
  obtain a where a: "rw_oldestIndex w = int a" "a \<le> ?n"
    using old ne by (auto simp: oldest_inv_def elim!: nonneg_int_cases)
  have sk: "skeleton_ok (planned T p j) (rw_preprocessorId w)" unfolding w(1) by (rule planned_skeleton)
  have "\<exists>w' mem'. update_window T (clk j) w mem evs = Inr (w', mem') \<and>
    window_tracks T (planned T p j) w' mem' evs ?n ?n \<and>
    unchanged_outside (cell_of ` (\<Union>g\<in>set (smap_keys (rw_groupWiseAggregatedColumnMap w)). set (planned T p j g))) mem mem' \<and>
    same_window w w' \<and> rw_oldestIndex w' = int ?n"
  proof (rule window_expire [OF w(5) sk mem le0 a])
    show "expired (clk j (int i)) w (evs ! i)" if "i < ?n" for i
      using dead w(3) that by (simp add: expired_alive [OF w(2)] all_dead_def)
    show "list_all (event_fits T s) evs" if "s \<in> set (planned T p j g)" for g s
      using ok event_fits_planned [OF _ that] by (auto simp: list_all_iff)
    show "members s evs 0 ?n \<noteq> []"
      if "g \<in> set (smap_keys (rw_groupWiseAggregatedColumnMap w))" "s \<in> set (planned T p j g)" for g s
      using that(1) members_known_group [OF that(2)] unfolding w(4) by blast
  qed
  then obtain w' mem' where run: "update_window T (clk j) w mem evs = Inr (w', mem')"
    "window_tracks T (planned T p j) w' mem' evs ?n ?n" "same_window w w'" "rw_oldestIndex w' = int ?n"
    and un: "unchanged_outside (cell_of ` (\<Union>g\<in>set (smap_keys (rw_groupWiseAggregatedColumnMap w)).
      set (planned T p j g))) mem mem'" by blast
  have "unchanged_outside (window_cells (column_count p) j) mem mem'"
    by (rule unchanged_mono [OF un]) (use planned_cell(1) in blast)
  with run window_inv_same_window [OF inv run(3,2)] show ?thesis by blast
qed

lemma get_model_input_dead:
  assumes run: "live_run T p evs" and ne: "evs \<noteq> []" and dead: "all_dead clk p evs"
  shows "\<exists>q. preprocessor_get_model_input T clk p gs evs =
      Inr (q, Some (concat (map (\<lambda>g. pp_defaultFeature p) gs))) \<and> same_setup p q \<and> pp_drained T q evs"
proof -
  let ?mem = "pp_groupWiseFeatureMap p" and ?K = "group_of p ` set evs" and ?n = "length evs"
  have r: "setup_ok p" "store_ok p ?mem" "length (pp_rollingWindows p) = window_count p" "set (smap_keys ?mem) = ?K"
    "\<forall>(j, w) \<in> set (enumerate 0 (pp_rollingWindows p)). window_inv T p evs 0 ?n ?K j w ?mem \<and> oldest_inv ?n w"
    using live_run_inv [OF run] by (simp_all add: pp_inv_ready pp_ready_def Let_def)
  have "\<exists>ws' mem'. update_windows T clk 0 (pp_rollingWindows p) ?mem evs = Inr (ws', mem') \<and>
    length ws' = length (pp_rollingWindows p) \<and>
    (\<forall>(j, w) \<in> set (enumerate 0 ws'). window_inv T p evs ?n ?n ?K j w mem' \<and> rw_oldestIndex w = int ?n) \<and>
    unchanged_outside (cells_from (column_count p) 0) ?mem mem'"
    by (rule update_windows_run [OF _ r(5)])
      (use r(2) update_window_dead [OF _ _ ne dead _ live_run_events [OF run]] in \<open>simp_all add: store_ok_def\<close>)
  then obtain ws mem where u: "update_windows T clk 0 (pp_rollingWindows p) ?mem evs = Inr (ws, mem)"
    "length ws = window_count p"
    "\<forall>(j, w) \<in> set (enumerate 0 ws). window_inv T p evs ?n ?n ?K j w mem \<and> rw_oldestIndex w = int ?n"
    "unchanged_outside (cells_from (column_count p) 0) ?mem mem" using r(3) by auto
  let ?q = "p\<lparr>pp_rollingWindows := ws, pp_groupWiseFeatureMap := mem\<rparr>"
  have same: "same_setup p ?q" by (simp add: same_setup_def)
  note mem = store_ok_unchanged [OF r(2) u(4)]
  have q: "pp_drained T ?q evs" using u(2,3) mem r(1,4)
    by (simp add: pp_drained_def Let_def same_setup_simps [OF same] setup_ok_def)
  have "row_of p mem g = pp_defaultFeature p" for g
  proof -
    have "row_of p mem g = reference_row T p evs ?n g"
      by (rule row_of_reference [OF r(1) mem(1) u(2)]) (use u(3) mem(2) r(4) in auto)
    also have "\<dots> = pp_defaultFeature p" by (rule reference_row_empty [OF r(1)]) simp
    finally show ?thesis .
  qed
  then have "concat (map (row_of p mem) gs) = concat (map (\<lambda>g. pp_defaultFeature p) gs)"
    by (intro arg_cong [where f = concat] map_cong refl)
  moreover have "preprocessor_get_model_input T clk p gs evs = Inr (?q, Some (concat (map (row_of p mem) gs)))"
    using r(1) u(1) gather_rows [OF mem(1), of gs]
    by (simp add: preprocessor_get_model_input_def setup_ok_def)
  ultimately show ?thesis using same q by auto
qed

end

text \<open>A drained preprocessor faults when it is asked again.\<close>

lemma drained_query_faults:
  assumes d: "pp_drained T q evs" and ne: "evs \<noteq> []" "length evs < 2 ^ 31" "0 < window_count q"
    and k: "k < column_count q"
      "operator_class (pi_aggregateOperators (pp_info q) ! k) \<in> {Some SumColumn, Some CountColumn, Some AverageColumn}"
  shows "preprocessor_get_model_input T clk q gs evs = Inl (Out_Of_Bounds (-1))"
proof -
  let ?mem = "pp_groupWiseFeatureMap q" and ?K = "group_of q ` set evs" and ?n = "length evs"
  have r: "setup_ok q" "length (pp_rollingWindows q) = window_count q"
    "\<forall>(j, w) \<in> set (enumerate 0 (pp_rollingWindows q)). window_inv T q evs ?n ?n ?K j w ?mem \<and> rw_oldestIndex w = int ?n"
    using d by (simp_all add: pp_drained_def Let_def)
  obtain w ws where ws: "pp_rollingWindows q = w # ws" using r(2) ne(3) by (cases "pp_rollingWindows q") auto
  then have w: "window_inv T q evs ?n ?n ?K 0 w ?mem" "rw_oldestIndex w = int ?n" using r(3) by simp_all
  obtain g where g: "g \<in> ?K" using ne(1) by (cases evs) auto
  let ?s = "planned_column T (pp_id q) (pp_info q) (pp_columnIds q) (pp_defaultFeature q) (0 * column_count q) g k"
  have "?s \<in> set (planned T q 0 g)" unfolding planned_iff using k(1) by blast
  moreover have "ac_class ?s \<in> {SumColumn, CountColumn, AverageColumn}" using k(2) by auto
  moreover have "g \<in> set (smap_keys (rw_groupWiseAggregatedColumnMap w))" using w(1) g by (simp add: window_inv_def)
  moreover have "window_tracks T (planned T q 0) w ?mem evs ?n ?n" using w(1) by (simp add: window_inv_def)
  ultimately have "update_window T (clk 0) w ?mem evs = Inl (Out_Of_Bounds (-1))"
    using update_empty_window_faults w(2) ne(2) by blast
  then show ?thesis using r(1) ws by (simp add: preprocessor_get_model_input_def setup_ok_def)
qed

section \<open>Properties\<close>

text \<open>while the newest event is alive, the model input is the batch aggregation of the whole event log, group by group.\<close>
theorem live_model_input:
  assumes "live_run (int_type :: 'w::len word value_type) p evs" and "last_alive clk p evs"
  shows "\<exists>q. preprocessor_get_model_input int_type clk p gs evs =
    Inr (q, Some (concat (map (reference_row int_type p evs 0) gs)))"
  using int_t.get_model_input_run [OF int_t.live_run_inv [OF assms(1)] assms(2)] by blast

text \<open>in a live run an accepted event is processed without a fault, and the run stays live.\<close>
theorem live_add_event:
  assumes "live_run (int_type :: 'w::len word value_type) p evs" and "event_ok int_type p e" and "accepted clk p e"
  shows "\<exists>q. preprocessor_add_event int_type clk p (evs @ [e]) (int (length evs)) = Inr q \<and>
    live_run int_type q (evs @ [e])"
  using int_t.preprocessor_add_run [OF int_t.live_run_inv [OF assms(1)] le0 assms(2,3)]
    live_run.event [OF assms] by blast

text \<open>once every event has expired in every window, the model input is the default vector for every group.\<close>
theorem expired_model_input:
  assumes "live_run (int_type :: 'w::len word value_type) p evs" "evs \<noteq> []" "all_dead clk p evs"
  shows "\<exists>q. preprocessor_get_model_input int_type clk p gs evs =
    Inr (q, Some (concat (map (\<lambda>g. pp_defaultFeature p) gs)))"
  using int_t.get_model_input_dead [OF assms] by blast

text \<open>C35: asking again after that reads \<open>allEvents[-1]\<close>, if a sum, count or average column is configured.\<close>
theorem second_expired_query_faults:
  assumes "live_run (int_type :: 'w::len word value_type) p evs" "evs \<noteq> []" "all_dead clk p evs"
    and "preprocessor_get_model_input int_type clk p gs evs = Inr (q, r)"
    and "length evs < 2 ^ 31" "0 < window_count p" "k < column_count p"
    and "operator_class (pi_aggregateOperators (pp_info p) ! k) \<in>
      {Some SumColumn, Some CountColumn, Some AverageColumn}"
  shows "preprocessor_get_model_input int_type clk' q gs' evs = Inl (Out_Of_Bounds (-1))"
proof -
  have q: "same_setup p q" "pp_drained int_type q evs"
    using int_t.get_model_input_dead [OF assms(1-3), of gs] assms(4) by auto
  from q(1) have "pp_info q = pp_info p" by (simp add: same_setup_def)
  with assms(5-8) show ?thesis
    by (intro drained_query_faults [OF q(2) assms(2)]) (simp_all add: same_setup_simps [OF q(1)])
qed

section \<open>An example run\<close>

definition demo_info :: "i32 preprocessor_info" where
  "demo_info = \<lparr>pi_rollingWindowsInSecs = [100, 200], pi_columnsToAggregate = [''price'', ''price''],
     pi_aggregateOperators = [''Sum'', ''Max''], pi_groupColumns = [''user''], pi_defaultVector = [0, -1],
     pi_tableName = ''clicks'', pi_valid = True\<rparr>"

definition demo_pp :: "i32 preprocessor" where
  "demo_pp = (case new_preprocessor 0 demo_info [0] [1, 1] of Inr p \<Rightarrow> p)"

definition demo_click :: "string \<Rightarrow> string \<Rightarrow> table_event" where
  "demo_click u x = \<lparr>te_groups = [u @ ''+''], te_timestamp = 1000, te_row = [u, x]\<rparr>"

lemma demo_new: "new_preprocessor 0 demo_info [0] [1, 1] = Inr demo_pp"
  by code_simp

lemma demo_start: "live_run int_type demo_pp []"
proof (rule live_run.start [OF _ demo_new])
  show "operators_known demo_info [1, 1]" by code_simp
qed

lemma demo_windows: "window_count demo_pp = 2" "pi_rollingWindowsInSecs (pp_info demo_pp) = [100, 200]"
  "column_count demo_pp = 2" "pp_defaultFeature demo_pp = [0, -1, 0, -1]"
  "pi_aggregateOperators (pp_info demo_pp) = [''Sum'', ''Max'']"
  by code_simp+

lemma demo_alive:
  "\<bar>now - 1000\<bar> \<le> 2 ^ 24 \<Longrightarrow> alive t now (demo_click u x) \<longleftrightarrow> rat_of_int (now - 1000) \<le> t"
  by (simp add: alive_def demo_click_def f32_small)

lemma demo_accepted: "accepted (\<lambda>j. 1001) demo_pp (demo_click u x)" "accepted (\<lambda>j. 1050) demo_pp (demo_click u x)"
  by (auto simp: accepted_def demo_windows demo_alive less_Suc_eq numeral_2_eq_2)

definition demo_clicks :: "table_event list" where
  "demo_clicks = [demo_click ''a'' ''5'', demo_click ''b'' ''9'', demo_click ''a'' ''7'']"

lemma demo_dead: "same_setup demo_pp p \<Longrightarrow> all_dead (\<lambda>j i. 9000) p demo_clicks"
  by (auto simp: all_dead_def same_setup_simps demo_windows demo_alive less_Suc_eq numeral_2_eq_2
      demo_clicks_def) (auto simp: same_setup_def demo_windows)

lemma demo_ok: "event_ok int_type demo_pp (demo_click ''a'' ''5'')" "event_ok int_type demo_pp (demo_click ''b'' ''9'')"
    "event_ok int_type demo_pp (demo_click ''a'' ''7'')"
  by code_simp+

lemma demo_step:
  assumes "live_run int_type p evs" "same_setup demo_pp p" "event_ok int_type demo_pp (demo_click u x)"
  shows "\<exists>q. live_run int_type q (evs @ [demo_click u x]) \<and> same_setup demo_pp q"
proof -
  have e: "event_ok int_type p (demo_click u x)" "accepted (\<lambda>j. 1001) p (demo_click u x)"
    using assms demo_accepted by (simp_all add: event_ok_same_setup accepted_same_setup)
  obtain q where "preprocessor_add_event int_type (\<lambda>j. 1001) p (evs @ [demo_click u x]) (int (length evs)) = Inr q"
    "same_setup p q"
    using int_t.preprocessor_add_run [OF int_t.live_run_inv [OF assms(1)] le0 e] by blast
  with live_run.event [OF assms(1) e] assms(2) show ?thesis by (auto simp: same_setup_def)
qed

lemma demo_run: "\<exists>p. live_run int_type p demo_clicks \<and> same_setup demo_pp p"
proof -
  from demo_step [OF demo_start same_setup_refl demo_ok(1)] obtain p1 where
    1: "live_run int_type p1 [demo_click ''a'' ''5'']" "same_setup demo_pp p1" by auto
  from demo_step [OF 1 demo_ok(2)] obtain p2 where
    2: "live_run int_type p2 [demo_click ''a'' ''5'', demo_click ''b'' ''9'']" "same_setup demo_pp p2" by auto
  from demo_step [OF 2 demo_ok(3)] show ?thesis by (auto simp: demo_clicks_def)
qed

lemma live_model_input_witness:
  "\<exists>p q. preprocessor_get_model_input int_type (\<lambda>j i. 1050) p [''a+'', ''c+''] demo_clicks =
    Inr (q, Some [12, 7, 12, 7, 0, -1, 0, -1 :: i32])"
proof -
  obtain p :: "i32 preprocessor" where p: "live_run int_type p demo_clicks" "same_setup demo_pp p"
    using demo_run by blast
  have "last demo_clicks = demo_click ''a'' ''7''" by (simp add: demo_clicks_def)
  then have alive: "last_alive (\<lambda>j i. 1050) p demo_clicks"
    using demo_accepted(2) by (simp add: last_alive_def accepted_same_setup [OF p(2)])
  have rows: "concat (map (reference_row int_type p demo_clicks 0) [''a+'', ''c+'']) = [12, 7, 12, 7, 0, -1, 0, -1]"
    unfolding reference_row_same_setup [OF p(2)] by code_simp
  from live_model_input [OF p(1) alive, of "[''a+'', ''c+'']"] show ?thesis unfolding rows by blast
qed

lemma live_add_event_witness:
  "\<exists>q :: i32 preprocessor. preprocessor_add_event int_type (\<lambda>j. 1001) demo_pp [demo_click ''a'' ''5''] 0 = Inr q \<and>
    live_run int_type q [demo_click ''a'' ''5'']"
  using live_add_event [OF demo_start demo_ok(1) demo_accepted(1)] by simp

lemma expired_model_input_witness:
  "\<exists>p q. preprocessor_get_model_input int_type (\<lambda>j i. 9000) p [''a+''] demo_clicks = Inr (q, Some [0, -1, 0, -1 :: i32])"
proof -
  obtain p :: "i32 preprocessor" where p: "live_run int_type p demo_clicks" "same_setup demo_pp p"
    using demo_run by blast
  have "pp_defaultFeature p = [0, -1, 0, -1]" using p(2) by (simp add: same_setup_def demo_windows)
  then show ?thesis using expired_model_input [OF p(1) _ demo_dead [OF p(2)], of "[''a+'']"]
    by (auto simp: demo_clicks_def)
qed

lemma second_expired_query_faults_witness:
  "\<exists>q :: i32 preprocessor. preprocessor_get_model_input int_type (\<lambda>j i. 9000) q [] demo_clicks = Inl (Out_Of_Bounds (-1))"
proof -
  obtain p :: "i32 preprocessor" where p: "live_run int_type p demo_clicks" "same_setup demo_pp p"
    using demo_run by blast
  have ne: "demo_clicks \<noteq> []" "length demo_clicks < 2 ^ 31" by (simp_all add: demo_clicks_def)
  obtain q where q: "preprocessor_get_model_input int_type (\<lambda>j i. 9000) p [] demo_clicks = Inr (q, Some [])"
    using int_t.get_model_input_dead [OF p(1) ne(1) demo_dead [OF p(2)], of "[]"] by auto
  have c: "0 < window_count p" "0 < column_count p" using p(2) by (simp_all add: same_setup_simps demo_windows)
  have "operator_class (pi_aggregateOperators (pp_info p) ! 0) = Some SumColumn"
    using p(2) by (simp add: same_setup_def demo_windows operator_class_def)
  then show ?thesis using second_expired_query_faults [OF p(1) ne(1) demo_dead [OF p(2)] q ne(2) c] by blast
qed

end
