(* ===== verification/Group_Keys.thy ===== *)
theory Group_Keys
  imports Pre_Processor
begin

text \<open>
  The group keys of \<open>PreProcessor.cpp\<close>: the values of the group columns, each
  followed by \<open>+\<close>.  The key computed for an event (\<open>get_group_from_event\<close>) and the
  key computed for a queried row (\<open>get_group_from_row\<close>) agree, and a key
  determines the group values as long as no value contains a \<open>+\<close>.
\<close>

definition key_of :: "string list \<Rightarrow> string" where
  "key_of cells = concat (map (\<lambda>cell. cell @ ''+'') cells)"

definition ids_fit :: "string list \<Rightarrow> int list \<Rightarrow> bool" where
  "ids_fit row gids = list_all (\<lambda>i. 0 \<le> i \<and> i < int (length row)) gids"

lemma key_of_simps [simp]: "key_of [] = []" "key_of (c # cs) = c @ ''+'' @ key_of cs"
  by (simp_all add: key_of_def)

lemma group_from_event_key:
  "ids_fit row gids \<Longrightarrow> group_from_event row gids acc = Inr (acc @ key_of (map (\<lambda>i. row ! nat i) gids))"
  by (induction row gids acc rule: group_from_event.induct) (simp_all add: ids_fit_def)

lemma group_from_row_key:
  "ids_fit row gids \<Longrightarrow> length filled = length row \<Longrightarrow>
    group_from_row row filled gids acc =
      Inr (if list_all (\<lambda>i. filled ! nat i) gids then acc @ key_of (map (\<lambda>i. row ! nat i) gids) else [])"
  by (induction row filled gids acc rule: group_from_row.induct) (simp_all add: ids_fit_def)

lemma plus_split:
  "a @ ''+'' @ x = b @ ''+'' @ y \<Longrightarrow> CHR ''+'' \<notin> set a \<Longrightarrow> CHR ''+'' \<notin> set b \<Longrightarrow> a = b \<and> x = y"
proof (induction a arbitrary: b)
  case Nil
  then show ?case by (cases b) auto
next
  case (Cons c a)
  then show ?case by (cases b) auto
qed

lemma key_of_inj:
  "key_of xs = key_of ys \<Longrightarrow> length xs = length ys \<Longrightarrow>
    list_all (\<lambda>c. CHR ''+'' \<notin> set c) xs \<Longrightarrow> list_all (\<lambda>c. CHR ''+'' \<notin> set c) ys \<Longrightarrow> xs = ys"
proof (induction xs arbitrary: ys)
  case (Cons x xs)
  then obtain y zs where "ys = y # zs" by (cases ys) auto
  with Cons show ?case using plus_split [of x "key_of xs" y "key_of zs"] by auto
qed simp

text \<open>a row whose group columns are all filled is looked up under the key its events were stored under; one with a missing group column gets the empty key.\<close>
theorem group_keys_agree:
  assumes "ids_fit row (pp_groupIds p)" "length filled = length row" "te_row e = row"
  shows "get_group_from_row p row filled =
    (if list_all (\<lambda>i. filled ! nat i) (pp_groupIds p) then get_group_from_event p e else Inr [])"
  using assms by (simp add: get_group_from_row_def get_group_from_event_def group_from_row_key
      group_from_event_key)

text \<open>if no group value contains a plus sign, events with the same key have the same group values.\<close>
theorem group_key_injective:
  assumes "ids_fit (te_row e) (pp_groupIds p)" "ids_fit (te_row e') (pp_groupIds p)"
    and "list_all (\<lambda>i. CHR ''+'' \<notin> set (te_row e ! nat i) \<and> CHR ''+'' \<notin> set (te_row e' ! nat i)) (pp_groupIds p)"
    and "get_group_from_event p e = get_group_from_event p e'"
  shows "list_all (\<lambda>i. te_row e ! nat i = te_row e' ! nat i) (pp_groupIds p)"
proof -
  have "key_of (map (\<lambda>i. te_row e ! nat i) (pp_groupIds p)) = key_of (map (\<lambda>i. te_row e' ! nat i) (pp_groupIds p))"
    using assms(1,2,4) by (simp add: get_group_from_event_def group_from_event_key)
  then have "map (\<lambda>i. te_row e ! nat i) (pp_groupIds p) = map (\<lambda>i. te_row e' ! nat i) (pp_groupIds p)"
    using assms(3) by (intro key_of_inj) (simp_all add: list_all_iff)
  then show ?thesis by (simp add: list_all_iff)
qed

definition demo_groups :: "string \<Rightarrow> string \<Rightarrow> table_event" where
  "demo_groups a b = \<lparr>te_groups = [], te_timestamp = 0, te_row = [a, b]\<rparr>"

definition demo_keyed :: "(32 word) preprocessor" where
  "demo_keyed = \<lparr>pp_id = 0, pp_groupIds = [0, 1], pp_columnIds = [], pp_isUseless = False,
     pp_info = \<lparr>pi_rollingWindowsInSecs = [], pi_columnsToAggregate = [], pi_aggregateOperators = [],
       pi_groupColumns = [''a'', ''b''], pi_defaultVector = [], pi_tableName = [], pi_valid = True\<rparr>,
     pp_defaultFeature = [], pp_rollingWindows = [], pp_groupWiseFeatureMap = []\<rparr>"

lemma group_keys_agree_witness:
  "get_group_from_row demo_keyed [''x'', ''y''] [True, True] = get_group_from_event demo_keyed (demo_groups ''x'' ''y'')"
  using group_keys_agree [of "[''x'', ''y'']" demo_keyed "[True, True]" "demo_groups ''x'' ''y''"]
  by (simp add: ids_fit_def demo_keyed_def demo_groups_def)

lemma group_key_injective_witness:
  "list_all (\<lambda>i. te_row (demo_groups ''x'' ''y'') ! nat i = te_row (demo_groups ''x'' ''y'') ! nat i)
     (pp_groupIds demo_keyed)"
  by (rule group_key_injective) (simp_all add: ids_fit_def demo_keyed_def demo_groups_def)

text \<open>with a plus sign in a value the keys collide: two different groups share one feature vector.\<close>
theorem group_key_collision:
  "get_group_from_event demo_keyed (demo_groups ''a+'' ''b'') =
   get_group_from_event demo_keyed (demo_groups ''a'' ''+b'')"
  by code_simp

end
