(* ===== verification/Table_Store.thy ===== *)
theory Table_Store
  imports Pre_Processor
begin

text \<open>
  \<open>nimblenet/UserEvents/TableStore\<close>: the in-memory log of one table and the
  preprocessors that read it.  A \<open>BasePreProcessor*\<close> is one of the four template
  instances; the operations on \<open>float\<close> and \<open>double\<close> are the parameter \<open>F\<close>.
\<close>

record ('f, 'd) float_ops =
  fo_float :: "'f value_type"
  fo_double :: "'d value_type"

datatype ('f, 'd) base_preprocessor =
    PFloat "'f preprocessor"
  | PDouble "'d preprocessor"
  | PInt32 "i32 preprocessor"
  | PInt64 "i64 preprocessor"

datatype ('f, 'd) any_input =
    IFloat "'f model_input"
  | IDouble "'d model_input"
  | IInt32 "i32 model_input"
  | IInt64 "i64 model_input"

record ('f, 'd) table_store =
  ts_tableName :: string
  ts_allEvents :: "table_event list"
  ts_preprocessors :: "('f, 'd) base_preprocessor list"
  ts_modelInputPreprocessorIdMap :: "(string, int) smap"
  ts_columnToIdMap :: "(string, int) smap"
  ts_columns :: "string list"
  ts_tableInfo :: table_info
  ts_isReadyToBeFilled :: bool

text \<open>\<open>SinglePreprocessorInput\<close>: parallel arrays of C strings.\<close>

record single_input =
  si_keys :: "string list"
  si_values :: "string list"
  si_keysLength :: int

section \<open>Virtual calls on a preprocessor\<close>

definition base_group_from_event :: "('f, 'd) base_preprocessor \<Rightarrow> table_event \<Rightarrow> string outcome" where
  "base_group_from_event b e = (case b of
     PFloat p \<Rightarrow> get_group_from_event p e | PDouble p \<Rightarrow> get_group_from_event p e
   | PInt32 p \<Rightarrow> get_group_from_event p e | PInt64 p \<Rightarrow> get_group_from_event p e)"

definition base_group_from_row ::
  "('f, 'd) base_preprocessor \<Rightarrow> string list \<Rightarrow> bool list \<Rightarrow> string outcome" where
  "base_group_from_row b row filled = (case b of
     PFloat p \<Rightarrow> get_group_from_row p row filled | PDouble p \<Rightarrow> get_group_from_row p row filled
   | PInt32 p \<Rightarrow> get_group_from_row p row filled | PInt64 p \<Rightarrow> get_group_from_row p row filled)"

definition rewrap :: "('a \<Rightarrow> 'b) \<Rightarrow> 'a outcome \<Rightarrow> 'b outcome" where
  "rewrap f m = ubind m (\<lambda>x. Inr (f x))"

definition base_add_event ::
  "('f, 'd) float_ops \<Rightarrow> (nat \<Rightarrow> int) \<Rightarrow> ('f, 'd) base_preprocessor \<Rightarrow> table_event list \<Rightarrow> int
    \<Rightarrow> ('f, 'd) base_preprocessor outcome" where
  "base_add_event F clk b evs i = (case b of
     PFloat p \<Rightarrow> rewrap PFloat (preprocessor_add_event (fo_float F) clk p evs i)
   | PDouble p \<Rightarrow> rewrap PDouble (preprocessor_add_event (fo_double F) clk p evs i)
   | PInt32 p \<Rightarrow> rewrap PInt32 (preprocessor_add_event int_type clk p evs i)
   | PInt64 p \<Rightarrow> rewrap PInt64 (preprocessor_add_event int_type clk p evs i))"

definition base_get_model_input ::
  "('f, 'd) float_ops \<Rightarrow> (nat \<Rightarrow> int \<Rightarrow> int) \<Rightarrow> ('f, 'd) base_preprocessor \<Rightarrow> string list \<Rightarrow> table_event list
    \<Rightarrow> (('f, 'd) base_preprocessor \<times> ('f, 'd) any_input option) outcome" where
  "base_get_model_input F clk b gs evs = (case b of
     PFloat p \<Rightarrow> rewrap (map_prod PFloat (map_option IFloat)) (preprocessor_get_model_input (fo_float F) clk p gs evs)
   | PDouble p \<Rightarrow> rewrap (map_prod PDouble (map_option IDouble)) (preprocessor_get_model_input (fo_double F) clk p gs evs)
   | PInt32 p \<Rightarrow> rewrap (map_prod PInt32 (map_option IInt32)) (preprocessor_get_model_input int_type clk p gs evs)
   | PInt64 p \<Rightarrow> rewrap (map_prod PInt64 (map_option IInt64)) (preprocessor_get_model_input int_type clk p gs evs))"

section \<open>Construction\<close>

text \<open>The columns are numbered in the order of the schema map, that is by name.\<close>

definition new_table_store :: "table_info \<Rightarrow> ('f, 'd) table_store" where
  "new_table_store info =
     \<lparr>ts_tableName = ti_name info, ts_allEvents = [], ts_preprocessors = [],
      ts_modelInputPreprocessorIdMap = [],
      ts_columnToIdMap = fst (fold (\<lambda>c (m, i). (smap_put c i m, i + 1)) (smap_keys (ti_schema info)) ([], 0)),
      ts_columns = smap_keys (ti_schema info), ts_tableInfo = info, ts_isReadyToBeFilled = False\<rparr>"

definition set_to_fill_in_memory :: "('f, 'd) table_store \<Rightarrow> ('f, 'd) table_store" where
  "set_to_fill_in_memory s = s\<lparr>ts_isReadyToBeFilled := True\<rparr>"

definition is_table_ready_to_be_filled :: "('f, 'd) table_store \<Rightarrow> bool" where
  "is_table_ready_to_be_filled s = ts_isReadyToBeFilled s"

section \<open>Rows\<close>

definition check_columns_of_row :: "('f, 'd) table_store \<Rightarrow> table_row \<Rightarrow> bool" where
  "check_columns_of_row s r =
     (list_all (\<lambda>c. smap_has (ts_columnToIdMap s) c) (smap_keys (tr_row r)) \<and>
      list_all (\<lambda>c. smap_has (tr_row r) c) (smap_keys (ts_columnToIdMap s)))"

text \<open>The loop over the cells: \<open>None\<close> is the early return for an unknown column.\<close>

fun row_cells :: "(string, int) smap \<Rightarrow> (string, string) smap \<Rightarrow> string list \<Rightarrow> string list option" where
  "row_cells ids [] acc = Some acc"
| "row_cells ids ((c, v) # cvs) acc = (if smap_has ids c then row_cells ids cvs (acc @ [v]) else None)"

text \<open>The loop over the preprocessors; \<open>clk k j\<close> is the clock in window \<open>j\<close> of preprocessor \<open>k\<close>.\<close>

definition push_group :: "table_event list \<Rightarrow> int \<Rightarrow> string \<Rightarrow> table_event list outcome" where
  "push_group evs i g =
     ubind (vec_get evs i) (\<lambda>e. vec_set evs i (e\<lparr>te_groups := te_groups e @ [g]\<rparr>))"

fun add_to_preprocessors ::
  "('f, 'd) float_ops \<Rightarrow> (nat \<Rightarrow> nat \<Rightarrow> int) \<Rightarrow> nat \<Rightarrow> table_event \<Rightarrow> ('f, 'd) base_preprocessor list
    \<Rightarrow> table_event list \<Rightarrow> int \<Rightarrow> (('f, 'd) base_preprocessor list \<times> table_event list) outcome" where
  "add_to_preprocessors F clk k e [] evs n = Inr ([], evs)"
| "add_to_preprocessors F clk k e (b # bs) evs n =
     ubind (base_group_from_event b e) (\<lambda>g.
     ubind (push_group evs n g) (\<lambda>evs1.
     ubind (base_add_event F (clk k) b evs1 (int (length evs1) - 1)) (\<lambda>b'.
     ubind (add_to_preprocessors F clk (Suc k) e bs evs1 n) (\<lambda>(bs', evs2). Inr (b' # bs', evs2)))))"

definition add_row ::
  "('f, 'd) float_ops \<Rightarrow> (nat \<Rightarrow> nat \<Rightarrow> int) \<Rightarrow> ('f, 'd) table_store \<Rightarrow> table_row \<Rightarrow> ('f, 'd) table_store outcome" where
  "add_row F clk s r =
     (if \<not> ts_isReadyToBeFilled s then Inr s
      else case row_cells (ts_columnToIdMap s) (tr_row r) [] of
        None \<Rightarrow> Inr s
      | Some cells \<Rightarrow>
          (let newIndex = int (length (ts_allEvents s));
               e = \<lparr>te_groups = [], te_timestamp = tr_timestamp r, te_row = cells\<rparr> in
           ubind (add_to_preprocessors F clk 0 e (ts_preprocessors s) (ts_allEvents s @ [e]) newIndex)
             (\<lambda>(bs, evs). Inr (s\<lparr>ts_preprocessors := bs, ts_allEvents := evs\<rparr>))))"

section \<open>Creating a preprocessor\<close>

definition tolower :: "string \<Rightarrow> string" where
  "tolower s = map (\<lambda>c. let n = (of_char c :: nat) in
     if 65 \<le> n \<and> n \<le> 90 then char_of (n + 32) else c) s"

fun is_prefix :: "string \<Rightarrow> string \<Rightarrow> bool" where
  "is_prefix [] ys = True"
| "is_prefix (x # xs) [] = False"
| "is_prefix (x # xs) (y # ys) = (x = y \<and> is_prefix xs ys)"

fun contains :: "string \<Rightarrow> string \<Rightarrow> bool" where
  "contains [] pat = is_prefix pat []"
| "contains (c # cs) pat = (is_prefix pat (c # cs) \<or> contains cs pat)"

fun find_group_ids :: "(string, int) smap \<Rightarrow> string list \<Rightarrow> int list option" where
  "find_group_ids ids [] = Some []"
| "find_group_ids ids (c # cs) =
     (case smap_find ids c of
        None \<Rightarrow> None
      | Some i \<Rightarrow> map_option (\<lambda>is. i # is) (find_group_ids ids cs))"

text \<open>\<open>Inr None\<close> is the early return \<open>false\<close> of the loop.\<close>

fun find_column_ids ::
  "(string, int) smap \<Rightarrow> (string, string) smap \<Rightarrow> string list \<Rightarrow> int \<Rightarrow> string list \<Rightarrow> int list option outcome" where
  "find_column_ids ids schema ops i [] = Inr (Some [])"
| "find_column_ids ids schema ops i (c # cs) =
     (case smap_find ids c of
        None \<Rightarrow> Inr None
      | Some k \<Rightarrow>
          ubind (vec_get ops i) (\<lambda>op.
            if op \<noteq> ''Count'' \<and> contains (tolower (smap_at [] schema c)) ''varchar'' then Inr None
            else ubind (find_column_ids ids schema ops (i + 1) cs)
                   (\<lambda>is. Inr (map_option (\<lambda>is. k # is) is))))"

text \<open>The events that are already in memory; \<open>clk i j\<close> is the clock in window \<open>j\<close> at event \<open>i\<close>.\<close>

fun replay_events ::
  "'v value_type \<Rightarrow> (nat \<Rightarrow> nat \<Rightarrow> int) \<Rightarrow> 'v preprocessor \<Rightarrow> table_event list \<Rightarrow> nat list
    \<Rightarrow> ('v preprocessor \<times> table_event list) outcome" where
  "replay_events T clk p evs [] = Inr (p, evs)"
| "replay_events T clk p evs (i # is) =
     ubind (vec_get evs (int i)) (\<lambda>e.
     ubind (get_group_from_event p e) (\<lambda>g.
     ubind (push_group evs (int i) g) (\<lambda>evs1.
     ubind (preprocessor_add_event T (clk i) p evs1 (int i)) (\<lambda>p'.
       replay_events T clk p' evs1 is))))"

definition create_preprocessor ::
  "'v value_type \<Rightarrow> ('v preprocessor \<Rightarrow> ('f, 'd) base_preprocessor) \<Rightarrow> (nat \<Rightarrow> nat \<Rightarrow> int)
    \<Rightarrow> ('f, 'd) table_store \<Rightarrow> string \<Rightarrow> 'v preprocessor_info \<Rightarrow> (('f, 'd) table_store \<times> bool) outcome" where
  "create_preprocessor T wrap clk s modelInputIdentifier info =
     (case find_group_ids (ts_columnToIdMap s) (pi_groupColumns info) of
        None \<Rightarrow> Inr (s, False)
      | Some groupIds \<Rightarrow>
          ubind (find_column_ids (ts_columnToIdMap s) (ti_schema (ts_tableInfo s)) (pi_aggregateOperators info)
                   0 (pi_columnsToAggregate info)) (\<lambda>found.
            case found of
              None \<Rightarrow> Inr (s, False)
            | Some columnIds \<Rightarrow>
                (let newPreprocessorId = int (length (ts_preprocessors s)) in
                 ubind (new_preprocessor newPreprocessorId info groupIds columnIds) (\<lambda>p.
                 ubind (replay_events T clk p (ts_allEvents s) [0..<length (ts_allEvents s)]) (\<lambda>(p', evs).
                   Inr (s\<lparr>ts_allEvents := evs,
                          ts_modelInputPreprocessorIdMap :=
                            smap_put modelInputIdentifier newPreprocessorId (ts_modelInputPreprocessorIdMap s),
                          ts_preprocessors := ts_preprocessors s @ [wrap p']\<rparr>, True))))))"

section \<open>Queries\<close>

fun fill_row ::
  "(string, int) smap \<Rightarrow> single_input \<Rightarrow> int list \<Rightarrow> string list \<times> bool list \<Rightarrow> (string list \<times> bool list) outcome" where
  "fill_row ids inp [] rf = Inr rf"
| "fill_row ids inp (j # js) (row, filled) =
     ubind (vec_get (si_keys inp) j) (\<lambda>key.
     ubind (vec_get (si_values inp) j) (\<lambda>val.
       case smap_find ids key of
         None \<Rightarrow> fill_row ids inp js (row, filled)
       | Some i \<Rightarrow>
           ubind (vec_set filled i True) (\<lambda>filled'.
           ubind (vec_set row i val) (\<lambda>row'. fill_row ids inp js (row', filled')))))"

fun find_groups ::
  "('f, 'd) table_store \<Rightarrow> ('f, 'd) base_preprocessor \<Rightarrow> single_input list \<Rightarrow> int list \<Rightarrow> string list option outcome" where
  "find_groups s b inps [] = Inr (Some [])"
| "find_groups s b inps (i # is) =
     ubind (vec_get inps i) (\<lambda>inp.
     ubind (fill_row (ts_columnToIdMap s) inp [0 .. si_keysLength inp - 1]
              (replicate (length (ts_columns s)) [], replicate (length (ts_columns s)) False)) (\<lambda>(row, filled).
     ubind (base_group_from_row b row filled) (\<lambda>g.
       if g = [] then Inr None
       else ubind (find_groups s b inps is) (\<lambda>gs. Inr (map_option (\<lambda>gs. g # gs) gs)))))"

definition table_get_model_input ::
  "('f, 'd) float_ops \<Rightarrow> (nat \<Rightarrow> int \<Rightarrow> int) \<Rightarrow> ('f, 'd) table_store \<Rightarrow> string \<Rightarrow> single_input list \<Rightarrow> int
    \<Rightarrow> (('f, 'd) table_store \<times> ('f, 'd) any_input option) outcome" where
  "table_get_model_input F clk s modelInputIdentifier inps preprocessorInputLength =
     (case smap_find (ts_modelInputPreprocessorIdMap s) modelInputIdentifier of
        None \<Rightarrow> Inr (s, None)
      | Some k \<Rightarrow>
          ubind (vec_get (ts_preprocessors s) k) (\<lambda>b.
          ubind (find_groups s b inps [0 .. preprocessorInputLength - 1]) (\<lambda>found.
            case found of
              None \<Rightarrow> Inr (s, None)
            | Some gs \<Rightarrow>
                ubind (base_get_model_input F clk b gs (ts_allEvents s)) (\<lambda>(b', r).
                  ubind (vec_set (ts_preprocessors s) k b') (\<lambda>bs. Inr (s\<lparr>ts_preprocessors := bs\<rparr>, r))))))"

end
