(* ===== verification/Table_Store_Contract.thy ===== *)
theory Table_Store_Contract
  imports Table_Store Group_Keys
begin

text \<open>
  What \<open>TableStore\<close> keeps: rows are stored in column order, every event has one
  group per preprocessor, preprocessors are numbered by position; and creating a
  preprocessor commutes with adding a row.
\<close>

section \<open>Preprocessor calls keep the identity\<close>

definition same_identity :: "'v preprocessor \<Rightarrow> 'v preprocessor \<Rightarrow> bool" where
  "same_identity p q =
     (pp_id q = pp_id p \<and> pp_groupIds q = pp_groupIds p \<and> pp_columnIds q = pp_columnIds p \<and> pp_info q = pp_info p)"

lemma same_identity_trans: "same_identity p q \<Longrightarrow> same_identity q r \<Longrightarrow> same_identity p r"
  by (simp add: same_identity_def)

lemma add_event_identity: "preprocessor_add_event T clk p evs i = Inr q \<Longrightarrow> same_identity p q"
  by (auto simp: preprocessor_add_event_def ensure_group_def ubind_Inr_iff same_identity_def Let_def split: if_splits)

lemma get_model_input_identity: "preprocessor_get_model_input T clk p gs evs = Inr (q, r) \<Longrightarrow> same_identity p q"
  by (auto simp: preprocessor_get_model_input_def ubind_Inr_iff same_identity_def Let_def split: if_splits)

lemma new_preprocessor_id: "new_preprocessor k info gids cids = Inr p \<Longrightarrow>
    pp_id p = k \<and> pp_groupIds p = gids \<and> pp_columnIds p = cids \<and> pp_info p = info"
  by (auto simp: new_preprocessor_def ubind_Inr_iff Let_def)

definition base_id :: "('f, 'd) base_preprocessor \<Rightarrow> int" where
  "base_id b = (case b of PFloat p \<Rightarrow> pp_id p | PDouble p \<Rightarrow> pp_id p | PInt32 p \<Rightarrow> pp_id p | PInt64 p \<Rightarrow> pp_id p)"

definition base_groupIds :: "('f, 'd) base_preprocessor \<Rightarrow> int list" where
  "base_groupIds b =
     (case b of PFloat p \<Rightarrow> pp_groupIds p | PDouble p \<Rightarrow> pp_groupIds p
      | PInt32 p \<Rightarrow> pp_groupIds p | PInt64 p \<Rightarrow> pp_groupIds p)"

lemma base_group_from_event_eq: "base_group_from_event b e = group_from_event (te_row e) (base_groupIds b) []"
  by (cases b) (simp_all add: base_group_from_event_def base_groupIds_def get_group_from_event_def)

lemma base_group_from_row_eq: "base_group_from_row b row filled = group_from_row row filled (base_groupIds b) []"
  by (cases b) (simp_all add: base_group_from_row_def base_groupIds_def get_group_from_row_def)

lemma rewrap_Inr_iff: "rewrap f m = Inr y \<longleftrightarrow> (\<exists>x. m = Inr x \<and> y = f x)"
  by (auto simp: rewrap_def ubind_Inr_iff)

lemma base_add_event_identity:
  "base_add_event F clk b evs i = Inr b' \<Longrightarrow> base_id b' = base_id b \<and> base_groupIds b' = base_groupIds b"
  by (cases b) (auto simp: base_add_event_def rewrap_Inr_iff base_id_def base_groupIds_def same_identity_def
      dest!: add_event_identity)

lemma base_get_identity:
  "base_get_model_input F clk b gs evs = Inr (b', r) \<Longrightarrow> base_id b' = base_id b \<and> base_groupIds b' = base_groupIds b"
  by (cases b) (auto simp: base_get_model_input_def rewrap_Inr_iff base_id_def base_groupIds_def same_identity_def
      dest!: get_model_input_identity)

section \<open>An event is read at its own index only\<close>

lemma column_add_event_local:
  assumes "vec_get evs i = vec_get evs' i"
  shows "column_add_event T c v evs i = column_add_event T c v evs' i"
proof -
  have eq: "event_group c evs i = event_group c evs' i" "event_value T c evs i = event_value T c evs' i"
    by (simp_all add: event_group_def event_value_def assms)
  show ?thesis
    unfolding column_add_event.simps SumColumn_add_event_def CountColumn_add_event_def
      MinColumn_add_event_def MaxColumn_add_event_def Extremum_add_event_def AverageColumn_add_event_def eq
    by (cases "ac_class c") (simp_all add: SumColumn_add_event_def CountColumn_add_event_def
        Extremum_add_event_def AverageColumn_add_event_def eq cong: if_cong)
qed

lemma window_add_event_local:
  assumes "vec_get evs i = vec_get evs' i"
  shows "window_add_event T now w mem evs i = window_add_event T now w mem evs' i"
proof -
  have "(\<lambda>c v. column_add_event T c v evs i) = (\<lambda>c v. column_add_event T c v evs' i)"
    using column_add_event_local [OF assms] by (intro ext)
  then show ?thesis by (simp only: window_add_event_def assms)
qed

lemma preprocessor_add_event_local:
  assumes "vec_get evs i = vec_get evs' i"
  shows "preprocessor_add_event T clk p evs i = preprocessor_add_event T clk p evs' i"
proof -
  have "add_to_windows T clk j ws mem evs i = add_to_windows T clk j ws mem evs' i" for j ws mem
    by (induction ws arbitrary: j mem) (simp_all add: window_add_event_local [OF assms])
  then show ?thesis by (simp only: preprocessor_add_event_def assms)
qed

lemma base_add_event_local:
  "vec_get evs i = vec_get evs' i \<Longrightarrow> base_add_event F clk b evs i = base_add_event F clk b evs' i"
  by (cases b) (simp_all add: base_add_event_def preprocessor_add_event_local [of evs i evs'])

section \<open>The loop over the preprocessors\<close>

lemma vec_get_snoc [simp]: "vec_get (xs @ [x]) (int (length xs)) = Inr x"
  by (simp add: vec_get_def)

lemma vec_set_snoc [simp]: "vec_set (xs @ [x]) (int (length xs)) y = Inr (xs @ [y])"
  by (simp add: vec_set_def)

lemma push_group_snoc [simp]:
  "push_group (evs @ [e]) (int (length evs)) g = Inr (evs @ [e\<lparr>te_groups := te_groups e @ [g]\<rparr>])"
  by (simp add: push_group_def)

lemma add_to_preprocessors_snoc:
  assumes "n = int (length evs)"
  shows "add_to_preprocessors F clk k e (b # bs) (evs @ [x]) n =
    ubind (base_group_from_event b e) (\<lambda>g.
      let x' = x\<lparr>te_groups := te_groups x @ [g]\<rparr> in
      ubind (base_add_event F (clk k) b (evs @ [x']) n) (\<lambda>b'.
      ubind (add_to_preprocessors F clk (Suc k) e bs (evs @ [x']) n) (\<lambda>(bs', evs'). Inr (b' # bs', evs'))))"
  using assms by (simp add: Let_def)

lemma add_to_preprocessors_result:
  assumes "add_to_preprocessors F clk k e bs (evs @ [x]) (int (length evs)) = Inr (bs', evs')"
  shows "\<exists>gs. evs' = evs @ [x\<lparr>te_groups := te_groups x @ gs\<rparr>] \<and>
    list_all2 (\<lambda>b g. base_group_from_event b e = Inr g) bs gs \<and>
    list_all2 (\<lambda>b b'. base_id b' = base_id b \<and> base_groupIds b' = base_groupIds b) bs bs'"
  using assms
proof (induction bs arbitrary: k x bs')
  case (Cons b bs)
  let ?x = "\<lambda>g. x\<lparr>te_groups := te_groups x @ [g]\<rparr>"
  obtain g b' bs1 where *: "base_group_from_event b e = Inr g"
    "base_add_event F (clk k) b (evs @ [?x g]) (int (length evs)) = Inr b'"
    "add_to_preprocessors F clk (Suc k) e bs (evs @ [?x g]) (int (length evs)) = Inr (bs1, evs')" "bs' = b' # bs1"
    using Cons.prems unfolding add_to_preprocessors_snoc [OF refl] by (auto simp: ubind_Inr_iff Let_def)
  from Cons.IH [OF *(3)] obtain gs where
    "evs' = evs @ [x\<lparr>te_groups := te_groups x @ g # gs\<rparr>]" "list_all2 (\<lambda>b g. base_group_from_event b e = Inr g) bs gs"
    "list_all2 (\<lambda>b b'. base_id b' = base_id b \<and> base_groupIds b' = base_groupIds b) bs bs1" by auto
  with * base_add_event_identity [OF *(2)] show ?case by (intro exI [of _ "g # gs"]) auto
qed auto

text \<open>The earlier events do not matter.\<close>

lemma add_to_preprocessors_local:
  assumes "length evs = length evs'"
  shows "add_to_preprocessors F clk k e bs (evs' @ [x]) (int (length evs')) =
    rewrap (\<lambda>(bs', es). (bs', evs' @ drop (length evs) es))
      (add_to_preprocessors F clk k e bs (evs @ [x]) (int (length evs)))"
proof (induction bs arbitrary: k x)
  case (Cons b bs)
  have "base_add_event F (clk k) b (evs' @ [y]) (int (length evs)) = base_add_event F (clk k) b (evs @ [y]) (int (length evs))" for y
    using assms by (intro base_add_event_local) (metis vec_get_snoc)
  with Cons.IH [of "Suc k"] assms show ?case
    by (auto simp: add_to_preprocessors_snoc rewrap_def ubind_assoc Let_def case_prod_unfold
        simp del: add_to_preprocessors.simps intro!: ubind_cong)
qed (simp add: rewrap_def assms)

lemma add_to_preprocessors_append:
  "add_to_preprocessors F clk k e (bs @ cs) evs n =
    ubind (add_to_preprocessors F clk k e bs evs n) (\<lambda>(bs', evs1).
    ubind (add_to_preprocessors F clk (k + length bs) e cs evs1 n) (\<lambda>(cs', evs2). Inr (bs' @ cs', evs2)))"
  by (induction bs arbitrary: k evs) (auto simp: ubind_assoc case_prod_unfold intro!: ubind_cong)

lemma add_to_preprocessors_clock:
  assumes "\<And>i. k \<le> i \<Longrightarrow> i < k + length bs \<Longrightarrow> clk i = clk' i"
  shows "add_to_preprocessors F clk k e bs evs n = add_to_preprocessors F clk' k e bs evs n"
  using assms
proof (induction bs arbitrary: k evs)
  case (Cons b bs)
  have "clk k = clk' k" using Cons.prems [of k] by simp
  moreover have "add_to_preprocessors F clk (Suc k) e bs es n = add_to_preprocessors F clk' (Suc k) e bs es n" for es
    using Cons.prems by (intro Cons.IH) simp
  ultimately show ?case by simp
qed simp

section \<open>The invariant of a table\<close>

definition ids_inv :: "('f, 'd) table_store \<Rightarrow> bool" where
  "ids_inv s =
     (smap_ok (ts_columnToIdMap s) \<and> smap_keys (ts_columnToIdMap s) = ts_columns s \<and>
      map snd (ts_columnToIdMap s) = map int [0..<length (ts_columns s)])"

definition event_inv :: "('f, 'd) table_store \<Rightarrow> table_event \<Rightarrow> bool" where
  "event_inv s e =
     (length (te_row e) = length (ts_columns s) \<and> length (te_groups e) = length (ts_preprocessors s))"

definition store_inv :: "('f, 'd) table_store \<Rightarrow> bool" where
  "store_inv s =
     (ids_inv s \<and> list_all (event_inv s) (ts_allEvents s) \<and>
      map base_id (ts_preprocessors s) = map int [0..<length (ts_preprocessors s)] \<and>
      list_all (\<lambda>b. ids_fit (ts_columns s) (base_groupIds b)) (ts_preprocessors s) \<and>
      list_all (\<lambda>(m, k). 0 \<le> k \<and> k < int (length (ts_preprocessors s))) (ts_modelInputPreprocessorIdMap s))"

lemma number_columns:
  "sorted_wrt (<) cs \<Longrightarrow> (\<forall>c \<in> set cs. \<forall>d \<in> set (smap_keys m). d < c) \<Longrightarrow>
    fst (fold (\<lambda>c (m, i). (smap_put c i m, i + 1)) cs (m, k)) = m @ zip cs (map (\<lambda>j. k + int j) [0..<length cs])"
proof (induction cs arbitrary: m k)
  case (Cons c cs)
  have "\<forall>d \<in> set (smap_keys m). d < c" using Cons.prems(2) by simp
  then have put: "smap_put c k m = m @ [(c, k)]"
    by (induction m) (auto simp: order.asym)
  have "fst (fold (\<lambda>c (m, i). (smap_put c i m, i + 1)) cs (m @ [(c, k)], k + 1)) =
      (m @ [(c, k)]) @ zip cs (map (\<lambda>j. k + 1 + int j) [0..<length cs])"
    by (rule Cons.IH) (use Cons.prems in \<open>auto simp: smap_keys_def\<close>)
  moreover have "map (\<lambda>j. k + int j) [0..<length (c # cs)] = k # map (\<lambda>j. k + 1 + int j) [0..<length cs]"
    by (simp add: upt_conv_Cons map_Suc_upt [symmetric] algebra_simps del: upt_Suc)
  ultimately show ?case using put by simp
qed simp

lemma new_table_store_inv: "smap_ok (ti_schema info) \<Longrightarrow> store_inv (new_table_store info)"
  using number_columns [of "smap_keys (ti_schema info)" "[]" 0]
  by (simp add: store_inv_def ids_inv_def new_table_store_def smap_ok_def smap_keys_def)

lemma ids_inv_find:
  assumes "ids_inv s"
  shows "smap_find (ts_columnToIdMap s) c = Some i \<longleftrightarrow>
    0 \<le> i \<and> i < int (length (ts_columns s)) \<and> ts_columns s ! nat i = c"
proof -
  let ?m = "ts_columnToIdMap s"
  have m: "?m = zip (ts_columns s) (map int [0..<length (ts_columns s)])"
    using assms zip_map_fst_snd [of ?m] by (simp add: ids_inv_def smap_keys_def)
  have "smap_find ?m c = Some i \<longleftrightarrow> (c, i) \<in> set ?m" using assms by (simp add: ids_inv_def smap_find_in)
  also have "\<dots> \<longleftrightarrow> 0 \<le> i \<and> i < int (length (ts_columns s)) \<and> ts_columns s ! nat i = c"
    by (subst m) (auto simp: in_set_zip intro!: exI [of _ "nat i"])
  finally show ?thesis .
qed

lemma check_columns_keys:
  "check_columns_of_row s r \<longleftrightarrow> set (smap_keys (tr_row r)) = set (smap_keys (ts_columnToIdMap s))"
  by (auto simp: check_columns_of_row_def list_all_iff smap_has_iff)

lemma row_cells_all:
  "list_all (smap_has ids) (smap_keys row) \<Longrightarrow> row_cells ids row acc = Some (acc @ map snd row)"
  by (induction ids row acc rule: row_cells.induct) simp_all

lemma checked_row_cells:
  assumes "ids_inv s" "check_columns_of_row s r" "smap_ok (tr_row r)"
  shows "row_cells (ts_columnToIdMap s) (tr_row r) [] = Some (map snd (tr_row r))"
    and "smap_keys (tr_row r) = ts_columns s" "length (tr_row r) = length (ts_columns s)"
proof -
  show keys: "smap_keys (tr_row r) = ts_columns s"
    using smap_keys_unique [OF assms(3), of "ts_columnToIdMap s"] assms(1,2)
    by (simp add: ids_inv_def check_columns_keys)
  then show "length (tr_row r) = length (ts_columns s)" by (metis length_map smap_keys_def)
  show "row_cells (ts_columnToIdMap s) (tr_row r) [] = Some (map snd (tr_row r))"
    using assms(2) by (simp add: row_cells_all check_columns_of_row_def list_all_iff)
qed

lemma add_row_result:
  assumes "ts_isReadyToBeFilled s" "row_cells (ts_columnToIdMap s) (tr_row r) [] = Some cells"
    and "add_row F clk s r = Inr s'"
  shows "\<exists>bs gs. s' = s\<lparr>ts_preprocessors := bs, ts_allEvents := ts_allEvents s @
      [\<lparr>te_groups = gs, te_timestamp = tr_timestamp r, te_row = cells\<rparr>]\<rparr> \<and>
    list_all2 (\<lambda>b g. group_from_event cells (base_groupIds b) [] = Inr g) (ts_preprocessors s) gs \<and>
    list_all2 (\<lambda>b b'. base_id b' = base_id b \<and> base_groupIds b' = base_groupIds b) (ts_preprocessors s) bs"
proof -
  let ?e = "\<lparr>te_groups = [], te_timestamp = tr_timestamp r, te_row = cells\<rparr>"
  obtain bs evs where "add_to_preprocessors F clk 0 ?e (ts_preprocessors s) (ts_allEvents s @ [?e])
      (int (length (ts_allEvents s))) = Inr (bs, evs)" "s' = s\<lparr>ts_preprocessors := bs, ts_allEvents := evs\<rparr>"
    using assms by (auto simp: add_row_def ubind_Inr_iff Let_def)
  with add_to_preprocessors_result [OF this(1)] show ?thesis
    by (auto simp: base_group_from_event_eq)
qed

lemma add_row_inv:
  assumes inv: "store_inv s" and ck: "check_columns_of_row s r" "smap_ok (tr_row r)" and run: "add_row F clk s r = Inr s'"
  shows "store_inv s'"
proof (cases "ts_isReadyToBeFilled s")
  case True
  have ids: "ids_inv s" using inv by (simp add: store_inv_def)
  note row = checked_row_cells [OF ids ck]
  from add_row_result [OF True row(1) run] obtain bs gs where
    s': "s' = s\<lparr>ts_preprocessors := bs, ts_allEvents := ts_allEvents s @
      [\<lparr>te_groups = gs, te_timestamp = tr_timestamp r, te_row = map snd (tr_row r)\<rparr>]\<rparr>"
    and gs: "list_all2 (\<lambda>b g. group_from_event (map snd (tr_row r)) (base_groupIds b) [] = Inr g) (ts_preprocessors s) gs"
    and bs: "list_all2 (\<lambda>b b'. base_id b' = base_id b \<and> base_groupIds b' = base_groupIds b) (ts_preprocessors s) bs"
    by blast
  have "length bs = length (ts_preprocessors s)" "length gs = length (ts_preprocessors s)"
    using list_all2_lengthD [OF gs] list_all2_lengthD [OF bs] by simp_all
  moreover have "map base_id bs = map base_id (ts_preprocessors s)" "map base_groupIds bs = map base_groupIds (ts_preprocessors s)"
    using bs by (induction rule: list_all2_induct) simp_all
  moreover from this(2) have "list_all (\<lambda>b. ids_fit (ts_columns s) (base_groupIds b)) bs =
      list_all (\<lambda>b. ids_fit (ts_columns s) (base_groupIds b)) (ts_preprocessors s)"
    by (metis (mono_tags, lifting) comp_apply list.pred_map list.pred_cong)
  ultimately show ?thesis using inv row(3)
    by (simp add: s' store_inv_def ids_inv_def event_inv_def [abs_def])
qed (use assms in \<open>simp add: add_row_def\<close>)

lemma push_group_result:
  assumes "push_group evs (int i) g = Inr evs'" "i < length evs"
  shows "evs' = evs[i := (evs ! i)\<lparr>te_groups := te_groups (evs ! i) @ [g]\<rparr>]"
  using assms by (simp add: push_group_def)

definition grown :: "table_event \<Rightarrow> table_event \<Rightarrow> bool" where
  "grown e e' = (\<exists>g. e' = e\<lparr>te_groups := te_groups e @ [g]\<rparr>)"

lemma replay_events_result:
  assumes "replay_events T clk p evs [i..<length evs] = Inr (q, evs')" "i \<le> length evs"
  shows "same_identity p q \<and> length evs' = length evs \<and> take i evs' = take i evs \<and>
    (\<forall>k. i \<le> k \<longrightarrow> k < length evs \<longrightarrow> grown (evs ! k) (evs' ! k))"
  using assms
proof (induction "length evs - i" arbitrary: i p evs)
  case 0
  then show ?case by (simp add: same_identity_def)
next
  case (Suc n)
  then have i: "i < length evs" by simp
  obtain g evs1 p1 where 1: "push_group evs (int i) g = Inr evs1"
    "preprocessor_add_event T (clk i) p evs1 (int i) = Inr p1"
    "replay_events T clk p1 evs1 [Suc i..<length evs] = Inr (q, evs')"
    using Suc.prems i by (auto simp: upt_conv_Cons ubind_Inr_iff)
  note evs1 = push_group_result [OF 1(1) i]
  have "same_identity p1 q \<and> length evs' = length evs1 \<and> take (Suc i) evs' = take (Suc i) evs1 \<and>
    (\<forall>k. Suc i \<le> k \<longrightarrow> k < length evs1 \<longrightarrow> grown (evs1 ! k) (evs' ! k))"
    using 1(3) i Suc.hyps(2) by (intro Suc.hyps(1)) (simp_all add: evs1)
  then have r: "same_identity p1 q" "length evs' = length evs" "take (Suc i) evs' = take (Suc i) evs1"
    "\<And>k. Suc i \<le> k \<Longrightarrow> k < length evs \<Longrightarrow> grown (evs ! k) (evs' ! k)"
    by (simp_all add: evs1)
  have "evs' ! i = evs1 ! i" using r(3) by (metis lessI nth_take)
  then have "grown (evs ! i) (evs' ! i)" using i by (auto simp: evs1 grown_def)
  then have "grown (evs ! k) (evs' ! k)" if "i \<le> k" "k < length evs" for k
    using that r(4) [of k] by (cases "k = i") simp_all
  moreover have "take i evs' = take i evs"
    using arg_cong [OF r(3), of "take i"] i by (simp add: evs1 min_def)
  ultimately show ?case
    using r(2) same_identity_trans [OF add_event_identity [OF 1(2)] r(1)] by simp
qed

locale template_instance =
  fixes F :: "('f, 'd) float_ops" and T :: "'v value_type" and wrap :: "'v preprocessor \<Rightarrow> ('f, 'd) base_preprocessor"
  assumes wrap_add: "base_add_event F clk (wrap p) evs i = rewrap wrap (preprocessor_add_event T clk p evs i)"
    and wrap_group: "base_groupIds (wrap p) = pp_groupIds p"
    and wrap_id: "base_id (wrap p) = pp_id p"
begin

lemma create_result:
  assumes "create_preprocessor T wrap clk s ident info = Inr (s', True)"
  shows "\<exists>gids cids p0 q evs. find_group_ids (ts_columnToIdMap s) (pi_groupColumns info) = Some gids \<and>
    find_column_ids (ts_columnToIdMap s) (ti_schema (ts_tableInfo s)) (pi_aggregateOperators info)
      0 (pi_columnsToAggregate info) = Inr (Some cids) \<and>
    new_preprocessor (int (length (ts_preprocessors s))) info gids cids = Inr p0 \<and>
    replay_events T clk p0 (ts_allEvents s) [0..<length (ts_allEvents s)] = Inr (q, evs) \<and>
    s' = s\<lparr>ts_allEvents := evs,
           ts_modelInputPreprocessorIdMap :=
             smap_put ident (int (length (ts_preprocessors s))) (ts_modelInputPreprocessorIdMap s),
           ts_preprocessors := ts_preprocessors s @ [wrap q]\<rparr>"
  using assms by (auto simp: create_preprocessor_def ubind_Inr_iff Let_def split: option.splits)

lemma find_group_ids_fit:
  "find_group_ids ids cs = Some gids \<Longrightarrow> (\<And>c i. smap_find ids c = Some i \<Longrightarrow> 0 \<le> i \<and> i < int (length row)) \<Longrightarrow>
    ids_fit row gids"
  by (induction ids cs arbitrary: gids rule: find_group_ids.induct)
    (auto simp: ids_fit_def split: option.splits)

lemma create_inv:
  assumes inv: "store_inv s" and run: "create_preprocessor T wrap clk s ident info = Inr (s', ok)"
  shows "store_inv s'"
proof (cases ok)
  case True
  let ?n = "length (ts_preprocessors s)"
  have "create_preprocessor T wrap clk s ident info = Inr (s', True)" using run True by simp
  from create_result [OF this] obtain gids cids p0 q evs where
    c: "find_group_ids (ts_columnToIdMap s) (pi_groupColumns info) = Some gids"
    "new_preprocessor (int ?n) info gids cids = Inr p0"
    "replay_events T clk p0 (ts_allEvents s) [0..<length (ts_allEvents s)] = Inr (q, evs)"
    "s' = s\<lparr>ts_allEvents := evs,
       ts_modelInputPreprocessorIdMap := smap_put ident (int ?n) (ts_modelInputPreprocessorIdMap s),
       ts_preprocessors := ts_preprocessors s @ [wrap q]\<rparr>"
    by (elim exE conjE) (rule that)
  have ids: "ids_inv s" using inv by (simp add: store_inv_def)
  have gids: "ids_fit (ts_columns s) gids"
    using ids_inv_find [OF ids] by (intro find_group_ids_fit [OF c(1)]) blast
  have q: "pp_id q = int ?n" "pp_groupIds q = gids"
    using new_preprocessor_id [OF c(2)] replay_events_result [OF c(3)] by (simp_all add: same_identity_def)
  have evs: "length evs = length (ts_allEvents s)"
    "\<And>k. k < length evs \<Longrightarrow> grown (ts_allEvents s ! k) (evs ! k)"
    using replay_events_result [OF c(3)] by simp_all
  have put: "list_all (\<lambda>(m, k). 0 \<le> k \<and> k < int (Suc ?n)) (smap_put ident (int ?n) (ts_modelInputPreprocessorIdMap s))"
  proof -
    have "list_all (\<lambda>(m, k). 0 \<le> k \<and> k < int (Suc ?n)) m \<Longrightarrow>
        list_all (\<lambda>(m, k). 0 \<le> k \<and> k < int (Suc ?n)) (smap_put ident (int ?n) m)" for m :: "(string, int) smap"
      by (induction ident "int ?n" m rule: smap_put.induct) auto
    moreover have "list_all (\<lambda>(m, k). 0 \<le> k \<and> k < int (Suc ?n)) (ts_modelInputPreprocessorIdMap s)"
      using inv by (auto simp: store_inv_def list_all_iff)
    ultimately show ?thesis by blast
  qed
  have ev: "event_inv s' (evs ! k)" if "k < length evs" for k
    using evs(2) [OF that] inv that evs(1) by (auto simp: store_inv_def list_all_length event_inv_def grown_def c(4))
  show ?thesis
    unfolding store_inv_def
  proof (intro conjI)
    show "list_all (event_inv s') (ts_allEvents s')" using ev by (simp add: list_all_length c(4))
  qed (use inv gids q put in \<open>simp_all add: store_inv_def ids_inv_def c(4) wrap_id wrap_group\<close>)
next
  case False
  have "s' = s" using run False
    by (auto simp: create_preprocessor_def ubind_Inr_iff Let_def split: option.splits)
  with inv show ?thesis by simp
qed

end

interpretation float_instance: template_instance F "fo_float F" PFloat
  by unfold_locales (simp_all add: base_add_event_def base_groupIds_def base_id_def)

interpretation double_instance: template_instance F "fo_double F" PDouble
  by unfold_locales (simp_all add: base_add_event_def base_groupIds_def base_id_def)

interpretation int32_instance: template_instance F int_type PInt32
  by unfold_locales (simp_all add: base_add_event_def base_groupIds_def base_id_def)

interpretation int64_instance: template_instance F int_type PInt64
  by unfold_locales (simp_all add: base_add_event_def base_groupIds_def base_id_def)

lemma get_model_input_inv:
  assumes inv: "store_inv s" and run: "table_get_model_input F clk s ident inps n = Inr (s', r)"
  shows "store_inv s' \<and> ts_allEvents s' = ts_allEvents s"
proof -
  have "s' = s \<or> (\<exists>k b' gs r. k < length (ts_preprocessors s) \<and>
      base_get_model_input F clk (ts_preprocessors s ! k) gs (ts_allEvents s) = Inr (b', r) \<and>
      s' = s\<lparr>ts_preprocessors := (ts_preprocessors s)[k := b']\<rparr>)"
    using run by (auto simp: table_get_model_input_def ubind_Inr_iff vec_set_def vec_get_Inr_iff
        split: option.splits if_splits) (metis nat_less_iff)
  then show ?thesis
  proof
    assume "\<exists>k b' gs r. k < length (ts_preprocessors s) \<and>
      base_get_model_input F clk (ts_preprocessors s ! k) gs (ts_allEvents s) = Inr (b', r) \<and>
      s' = s\<lparr>ts_preprocessors := (ts_preprocessors s)[k := b']\<rparr>"
    then obtain k b' gs r where k: "k < length (ts_preprocessors s)"
      "base_get_model_input F clk (ts_preprocessors s ! k) gs (ts_allEvents s) = Inr (b', r)"
      "s' = s\<lparr>ts_preprocessors := (ts_preprocessors s)[k := b']\<rparr>" by blast
    let ?bs = "ts_preprocessors s"
    have "map base_id (?bs[k := b']) = map base_id ?bs" "map base_groupIds (?bs[k := b']) = map base_groupIds ?bs"
      using base_get_identity [OF k(2)] k(1) by (simp_all add: map_update list_update_same_conv)
    moreover from this(2) have "list_all (\<lambda>b. ids_fit (ts_columns s) (base_groupIds b)) (?bs[k := b']) =
        list_all (\<lambda>b. ids_fit (ts_columns s) (base_groupIds b)) ?bs"
      by (metis (mono_tags, lifting) comp_apply list.pred_map list.pred_cong)
    ultimately show ?thesis using inv by (simp add: k(3) store_inv_def ids_inv_def event_inv_def [abs_def])
  qed (use inv in simp)
qed

section \<open>Creating a preprocessor and adding a row commute\<close>

lemma replay_events_append:
  assumes "\<And>i. i \<in> set is \<Longrightarrow> i < length evs"
  shows "replay_events T clk p (evs @ es) is = rewrap (map_prod id (\<lambda>x. x @ es)) (replay_events T clk p evs is)"
  using assms
proof (induction "is" arbitrary: p evs)
  case (Cons i "is")
  then have i: "i < length evs" by simp
  let ?x = "\<lambda>g. evs[i := (evs ! i)\<lparr>te_groups := te_groups (evs ! i) @ [g]\<rparr>]"
  have add: "preprocessor_add_event T (clk i) p (?x g @ es) (int i) = preprocessor_add_event T (clk i) p (?x g) (int i)" for g
    using i by (intro preprocessor_add_event_local) (simp add: nth_append)
  have "replay_events T clk q (?x g @ es) is = rewrap (map_prod id (\<lambda>x. x @ es)) (replay_events T clk q (?x g) is)" for q g
    using Cons.prems by (intro Cons.IH) simp
  with i add show ?case
    by (auto simp: push_group_def nth_append list_update_append rewrap_def ubind_assoc intro!: ubind_cong)
qed (simp add: rewrap_def)

lemma replay_events_clock:
  assumes "\<And>i. i \<in> set is \<Longrightarrow> clk i = clk' i"
  shows "replay_events T clk p evs is = replay_events T clk' p evs is"
  using assms
proof (induction "is" arbitrary: p evs)
  case (Cons i "is")
  then have "clk i = clk' i" by simp
  moreover have "replay_events T clk q es is = replay_events T clk' q es is" for q es
    using Cons.prems by (intro Cons.IH) simp
  ultimately show ?case by simp
qed simp

lemma replay_events_snoc:
  "replay_events T clk p evs (is @ js) = ubind (replay_events T clk p evs is) (\<lambda>(q, es). replay_events T clk q es js)"
  by (induction "is" arbitrary: p evs) (auto simp: ubind_assoc intro!: ubind_cong)

context template_instance
begin

lemma row_then_create:
  assumes create: "create_preprocessor T wrap clk s ident info = Inr (s1, True)"
    and row: "add_row F rowclk s1 r = Inr s2"
    and ready: "ts_isReadyToBeFilled s" "row_cells (ts_columnToIdMap s) (tr_row r) [] = Some cells"
    and clk: "\<And>i. i < length (ts_allEvents s) \<Longrightarrow> clk' i = clk i"
      "clk' (length (ts_allEvents s)) = rowclk (length (ts_preprocessors s))"
  shows "\<exists>s3. add_row F rowclk s r = Inr s3 \<and> create_preprocessor T wrap clk' s3 ident info = Inr (s2, True)"
proof -
  let ?n = "length (ts_allEvents s)" and ?k = "length (ts_preprocessors s)"
  let ?e = "\<lparr>te_groups = [], te_timestamp = tr_timestamp r, te_row = cells\<rparr>"
  from create_result [OF create] obtain gids cids p0 p1 evs1 where c:
    "find_group_ids (ts_columnToIdMap s) (pi_groupColumns info) = Some gids"
    "find_column_ids (ts_columnToIdMap s) (ti_schema (ts_tableInfo s)) (pi_aggregateOperators info)
      0 (pi_columnsToAggregate info) = Inr (Some cids)"
    "new_preprocessor (int ?k) info gids cids = Inr p0"
    "replay_events T clk p0 (ts_allEvents s) [0..<?n] = Inr (p1, evs1)"
    "s1 = s\<lparr>ts_allEvents := evs1,
       ts_modelInputPreprocessorIdMap := smap_put ident (int ?k) (ts_modelInputPreprocessorIdMap s),
       ts_preprocessors := ts_preprocessors s @ [wrap p1]\<rparr>"
    by (elim exE conjE) (rule that)
  have len: "length evs1 = ?n" and p1: "pp_groupIds p1 = pp_groupIds p0"
    using replay_events_result [OF c(4)] by (simp_all add: same_identity_def)
  obtain bs evs2 where all: "add_to_preprocessors F rowclk 0 ?e (ts_preprocessors s @ [wrap p1]) (evs1 @ [?e]) (int ?n) = Inr (bs, evs2)"
    and s2: "s2 = s1\<lparr>ts_preprocessors := bs, ts_allEvents := evs2\<rparr>"
    using row ready len by (auto simp: add_row_def c(5) ubind_Inr_iff Let_def)
  then obtain bs1 es cs where old: "add_to_preprocessors F rowclk 0 ?e (ts_preprocessors s) (evs1 @ [?e]) (int ?n) = Inr (bs1, es)"
    and new: "add_to_preprocessors F rowclk ?k ?e [wrap p1] es (int ?n) = Inr (cs, evs2)" and bs: "bs = bs1 @ cs"
    by (auto simp: add_to_preprocessors_append ubind_Inr_iff simp del: add_to_preprocessors.simps)
  from add_to_preprocessors_result [OF old [unfolded len [symmetric]]] obtain gs where
    es: "es = evs1 @ [?e\<lparr>te_groups := gs\<rparr>]"
    and l: "list_all2 (\<lambda>b b'. base_id b' = base_id b \<and> base_groupIds b' = base_groupIds b) (ts_preprocessors s) bs1"
    by auto
  have bs1: "length bs1 = ?k" using list_all2_lengthD [OF l] by simp
  let ?x = "?e\<lparr>te_groups := gs\<rparr>"
  obtain g p2 where p2: "get_group_from_event p1 ?e = Inr g"
    "preprocessor_add_event T (rowclk ?k) p1 (evs1 @ [?x\<lparr>te_groups := gs @ [g]\<rparr>]) (int ?n) = Inr p2"
    "cs = [wrap p2]" "evs2 = evs1 @ [?x\<lparr>te_groups := gs @ [g]\<rparr>]"
    using new len unfolding es len [symmetric] add_to_preprocessors_snoc [OF refl]
    by (auto simp: ubind_Inr_iff Let_def base_group_from_event_eq wrap_group wrap_add rewrap_Inr_iff
        get_group_from_event_def)
  let ?s3 = "s\<lparr>ts_preprocessors := bs1, ts_allEvents := ts_allEvents s @ [?x]\<rparr>"
  have "add_to_preprocessors F rowclk 0 ?e (ts_preprocessors s) (ts_allEvents s @ [?e]) (int ?n) =
      Inr (bs1, ts_allEvents s @ [?x])"
    using add_to_preprocessors_local [of evs1 "ts_allEvents s" F rowclk 0 ?e "ts_preprocessors s" ?e] old len
    by (simp add: es rewrap_def)
  then have add: "add_row F rowclk s r = Inr ?s3" using ready by (simp add: add_row_def)
  have "replay_events T clk' p0 (ts_allEvents s @ [?x]) [0..<?n] = Inr (p1, evs1 @ [?x])"
    using replay_events_append [of "[0..<?n]" "ts_allEvents s" T clk p0 "[?x]"] c(4)
    by (subst replay_events_clock [where clk' = clk]) (simp_all add: rewrap_def clk(1))
  moreover have "replay_events T clk' p1 (evs1 @ [?x]) [?n] = Inr (p2, evs2)"
    using p2 clk(2) len unfolding len [symmetric]
    by (simp add: get_group_from_event_def)
  ultimately have "replay_events T clk' p0 (ts_allEvents s @ [?x]) [0..<Suc ?n] = Inr (p2, evs2)"
    by (simp add: replay_events_snoc)
  then have "create_preprocessor T wrap clk' ?s3 ident info = Inr (s2, True)"
    using c(1-3) by (simp add: create_preprocessor_def bs1 s2 c(5) bs p2(3) del: upt_Suc)
  with add show ?thesis by blast
qed

end

section \<open>Queried entities\<close>

definition bound_value :: "single_input \<Rightarrow> nat \<Rightarrow> string \<Rightarrow> string option" where
  "bound_value inp j c = map_of (rev (drop j (zip (si_keys inp) (si_values inp)))) c"

definition input_fits :: "single_input \<Rightarrow> bool" where
  "input_fits inp =
     (length (si_values inp) = length (si_keys inp) \<and> si_keysLength inp = int (length (si_keys inp)))"

lemma fill_row_spec:
  assumes "ids_inv s" "input_fits inp" "j \<le> length (si_keys inp)"
    "length row = length (ts_columns s)" "length filled = length (ts_columns s)"
  shows "\<exists>row' filled'. fill_row (ts_columnToIdMap s) inp [int j .. si_keysLength inp - 1] (row, filled) = Inr (row', filled') \<and>
    length row' = length (ts_columns s) \<and> length filled' = length (ts_columns s) \<and>
    (\<forall>i < length (ts_columns s). case bound_value inp j (ts_columns s ! i) of
        None \<Rightarrow> row' ! i = row ! i \<and> filled' ! i = filled ! i
      | Some v \<Rightarrow> row' ! i = v \<and> filled' ! i)"
  using assms(3-5)
proof (induction "length (si_keys inp) - j" arbitrary: j row filled)
  case 0
  then show ?case using assms(2) by (simp add: input_fits_def bound_value_def)
next
  case (Suc n)
  then have j: "j < length (si_keys inp)" by simp
  let ?key = "si_keys inp ! j" and ?v = "si_values inp ! j"
  have drop: "drop j (zip (si_keys inp) (si_values inp)) = (?key, ?v) # drop (Suc j) (zip (si_keys inp) (si_values inp))"
    using j assms(2) by (subst Cons_nth_drop_Suc [symmetric]) (simp_all add: input_fits_def)
  have bv: "bound_value inp j c = (case bound_value inp (Suc j) c of
      None \<Rightarrow> if c = ?key then Some ?v else None | Some v \<Rightarrow> Some v)" for c
    by (simp add: bound_value_def drop map_add_def split: option.split)
  have upt: "[int j .. si_keysLength inp - 1] = int j # [int (Suc j) .. si_keysLength inp - 1]"
    using j assms(2) by (simp add: input_fits_def upto_rec1 add.commute)
  have get: "vec_get (si_keys inp) (int j) = Inr ?key" "vec_get (si_values inp) (int j) = Inr ?v"
    using j assms(2) by (simp_all add: input_fits_def)
  show ?case
  proof (cases "smap_find (ts_columnToIdMap s) ?key")
    case None
    have "ts_columns s ! i \<noteq> ?key" if "i < length (ts_columns s)" for i
      using None ids_inv_find [OF assms(1), of ?key "int i"] that by auto
    moreover have "bound_value inp j (ts_columns s ! i) = bound_value inp (Suc j) (ts_columns s ! i)"
      if "ts_columns s ! i \<noteq> ?key" for i
      using that by (simp add: bv split: option.split)
    ultimately show ?thesis
      using Suc.hyps(1) [of "Suc j" row filled] Suc.hyps(2) Suc.prems j None get by (simp add: upt)
  next
    case (Some k)
    then have k: "0 \<le> k" "k < int (length (ts_columns s))" "ts_columns s ! nat k = ?key"
      using ids_inv_find [OF assms(1)] by simp_all
    let ?row = "row[nat k := ?v]" and ?filled = "filled[nat k := True]"
    have p: "n = length (si_keys inp) - Suc j" "Suc j \<le> length (si_keys inp)"
      "length ?row = length (ts_columns s)" "length ?filled = length (ts_columns s)"
      using Suc.hyps(2) Suc.prems j by simp_all
    obtain row' filled' where r: "fill_row (ts_columnToIdMap s) inp [int (Suc j) .. si_keysLength inp - 1] (?row, ?filled)
        = Inr (row', filled')" "length row' = length (ts_columns s)" "length filled' = length (ts_columns s)"
      "\<forall>i < length (ts_columns s). case bound_value inp (Suc j) (ts_columns s ! i) of
          None \<Rightarrow> row' ! i = ?row ! i \<and> filled' ! i = ?filled ! i
        | Some v \<Rightarrow> row' ! i = v \<and> filled' ! i"
      using Suc.hyps(1) [OF p] by blast
    have inj: "ts_columns s ! i = ?key \<longleftrightarrow> i = nat k" if "i < length (ts_columns s)" for i
      using ids_inv_find [OF assms(1), of ?key "int i"] Some that k(3) by auto
    have "fill_row (ts_columnToIdMap s) inp [int j .. si_keysLength inp - 1] (row, filled) = Inr (row', filled')"
      using r(1) get Some k Suc.prems by (simp add: upt)
    moreover have "case bound_value inp j (ts_columns s ! i) of
          None \<Rightarrow> row' ! i = row ! i \<and> filled' ! i = filled ! i
        | Some v \<Rightarrow> row' ! i = v \<and> filled' ! i" if "i < length (ts_columns s)" for i
      using r(4) that inj [OF that] Suc.prems by (auto simp: bv split: option.splits)
    ultimately show ?thesis using r(2,3) by blast
  qed
qed

lemma key_of_nonempty: "xs \<noteq> [] \<Longrightarrow> key_of xs \<noteq> []"
  by (cases xs) simp_all

section \<open>Properties\<close>

text \<open>a checked row is appended to the log with its cells in column order and one group per preprocessor.\<close>
theorem add_row_stores_columns:
  assumes "store_inv s" "ts_isReadyToBeFilled s" "check_columns_of_row s r" "smap_ok (tr_row r)"
    and "add_row F clk s r = Inr s'"
  shows "\<exists>e. ts_allEvents s' = ts_allEvents s @ [e] \<and> te_timestamp e = tr_timestamp r \<and>
    length (te_groups e) = length (ts_preprocessors s') \<and>
    list_all (\<lambda>(c, k). Some (te_row e ! nat k) = smap_find (tr_row r) c) (ts_columnToIdMap s')"
proof -
  have ids: "ids_inv s" using assms(1) by (simp add: store_inv_def)
  note row = checked_row_cells [OF ids assms(3,4)]
  from add_row_result [OF assms(2) row(1) assms(5)] obtain bs gs where
    s': "s' = s\<lparr>ts_preprocessors := bs, ts_allEvents := ts_allEvents s @
      [\<lparr>te_groups = gs, te_timestamp = tr_timestamp r, te_row = map snd (tr_row r)\<rparr>]\<rparr>"
    and l: "list_all2 (\<lambda>b g. group_from_event (map snd (tr_row r)) (base_groupIds b) [] = Inr g) (ts_preprocessors s) gs"
      "list_all2 (\<lambda>b b'. base_id b' = base_id b \<and> base_groupIds b' = base_groupIds b) (ts_preprocessors s) bs"
    by blast
  have len: "length gs = length (ts_preprocessors s)" "length bs = length (ts_preprocessors s)"
    using list_all2_lengthD [OF l(1)] list_all2_lengthD [OF l(2)] by simp_all
  have "smap_find (tr_row r) c = Some (map snd (tr_row r) ! nat k)" if "(c, k) \<in> set (ts_columnToIdMap s)" for c k
  proof -
    have "smap_find (ts_columnToIdMap s) c = Some k" using that ids by (simp add: smap_find_in ids_inv_def)
    then have k: "nat k < length (tr_row r)" "ts_columns s ! nat k = c"
      using ids_inv_find [OF ids] row(3) by auto
    show ?thesis by (rule smap_nth [OF assms(4) k(1)]) (simp add: row(2) k(2))
  qed
  then show ?thesis using len by (auto simp: s' list_all_iff)
qed

text \<open>The states a table reaches from its construction by calls that return.\<close>

inductive table_reach :: "('f, 'd) float_ops \<Rightarrow> table_info \<Rightarrow> ('f, 'd) table_store \<Rightarrow> bool" for F info where
  construct: "table_reach F info (new_table_store info)"
| ready: "table_reach F info s \<Longrightarrow> table_reach F info (set_to_fill_in_memory s)"
| row: "table_reach F info s \<Longrightarrow> check_columns_of_row s r \<Longrightarrow> smap_ok (tr_row r) \<Longrightarrow>
    add_row F clk s r = Inr s' \<Longrightarrow> table_reach F info s'"
| create_float: "table_reach F info s \<Longrightarrow>
    create_preprocessor (fo_float F) PFloat clk s ident infof = Inr (s', ok) \<Longrightarrow> table_reach F info s'"
| create_double: "table_reach F info s \<Longrightarrow>
    create_preprocessor (fo_double F) PDouble clk s ident infod = Inr (s', ok) \<Longrightarrow> table_reach F info s'"
| create_int32: "table_reach F info s \<Longrightarrow>
    create_preprocessor int_type PInt32 clk s ident info32 = Inr (s', ok) \<Longrightarrow> table_reach F info s'"
| create_int64: "table_reach F info s \<Longrightarrow>
    create_preprocessor int_type PInt64 clk s ident info64 = Inr (s', ok) \<Longrightarrow> table_reach F info s'"
| model_input: "table_reach F info s \<Longrightarrow>
    table_get_model_input F clk' s ident inps n = Inr (s', res) \<Longrightarrow> table_reach F info s'"

lemma set_to_fill_inv: "store_inv s \<Longrightarrow> store_inv (set_to_fill_in_memory s)"
  by (simp add: set_to_fill_in_memory_def store_inv_def ids_inv_def event_inv_def [abs_def])

text \<open>C25: in every reachable state of a table its rows are full, every event has one group per preprocessor, and preprocessors are numbered by position.\<close>
theorem table_store_invariant:
  assumes "table_reach F info s" "smap_ok (ti_schema info)"
  shows "store_inv s"
  using assms
proof (induction rule: table_reach.induct)
  case construct
  then show ?case by (rule new_table_store_inv)
next
  case (model_input s clk' ident inps n s' res)
  then show ?case using get_model_input_inv [of s] by blast
qed (blast intro: set_to_fill_inv add_row_inv float_instance.create_inv double_instance.create_inv
      int32_instance.create_inv int64_instance.create_inv)+

text \<open>C26: an entity that gives the group columns the values an event has is looked up under the key of that event.\<close>
theorem entity_finds_group_of_event:
  assumes "store_inv s" "b \<in> set (ts_preprocessors s)" "base_groupIds b \<noteq> []" "event_inv s e"
    and "length (si_values inp) = length (si_keys inp)" "si_keysLength inp = int (length (si_keys inp))"
    and "list_all (\<lambda>k. map_of (rev (zip (si_keys inp) (si_values inp))) (ts_columns s ! nat k) = Some (te_row e ! nat k))
      (base_groupIds b)"
  shows "\<exists>key. base_group_from_event b e = Inr key \<and> find_groups s b [inp] [0] = Inr (Some [key])"
proof -
  let ?n = "length (ts_columns s)" and ?key = "key_of (map (\<lambda>k. te_row e ! nat k) (base_groupIds b))"
  have fit: "input_fits inp" using assms(5,6) by (simp add: input_fits_def)
  have ids: "ids_inv s" using assms(1) by (simp add: store_inv_def)
  have gids: "ids_fit (ts_columns s) (base_groupIds b)" using assms(1,2) by (simp add: store_inv_def list_all_iff)
  obtain row filled where r: "fill_row (ts_columnToIdMap s) inp [0 .. si_keysLength inp - 1]
      (replicate ?n [], replicate ?n False) = Inr (row, filled)" "length row = ?n" "length filled = ?n"
    "\<forall>i < ?n. case bound_value inp 0 (ts_columns s ! i) of
        None \<Rightarrow> row ! i = replicate ?n [] ! i \<and> filled ! i = replicate ?n False ! i
      | Some v \<Rightarrow> row ! i = v \<and> filled ! i"
    using fill_row_spec [OF ids fit le0, of "replicate ?n []" "replicate ?n False"] by auto
  have cell: "row ! nat k = te_row e ! nat k \<and> filled ! nat k" if "k \<in> set (base_groupIds b)" for k
  proof -
    have "nat k < ?n" using gids that by (auto simp: ids_fit_def list_all_iff)
    moreover have "bound_value inp 0 (ts_columns s ! nat k) = Some (te_row e ! nat k)"
      using assms(7) that by (simp add: bound_value_def list_all_iff)
    ultimately show ?thesis using r(4) by (auto dest: spec [of _ "nat k"])
  qed
  have "ids_fit row (base_groupIds b)" "ids_fit (te_row e) (base_groupIds b)"
    using gids r(2) assms(4) by (simp_all add: ids_fit_def event_inv_def)
  then have "group_from_row row filled (base_groupIds b) [] = Inr ?key" "base_group_from_event b e = Inr ?key"
    using cell r(2,3) by (auto simp: group_from_row_key base_group_from_event_eq group_from_event_key list_all_iff
        intro!: arg_cong [where f = key_of])
  then show ?thesis using r(1) assms(3) key_of_nonempty
    by (simp add: base_group_from_row_eq)
qed

text \<open>rows are dropped, without a trace, while a table is not ready, and when a column is unknown.\<close>
theorem add_row_ignored:
  assumes "\<not> ts_isReadyToBeFilled s \<or> \<not> list_all (smap_has (ts_columnToIdMap s)) (smap_keys (tr_row r))"
  shows "add_row F clk s r = Inr s"
proof -
  have "\<not> list_all (smap_has ids) (smap_keys row) \<Longrightarrow> row_cells ids row acc = None" for ids row acc
    by (induction ids row acc rule: row_cells.induct) auto
  with assms show ?thesis by (auto simp: add_row_def)
qed


section \<open>An example table\<close>

text \<open>Any operations can stand for the floating-point ones here; the example uses integers.\<close>

definition demo_ops :: "(32 word, 64 word) float_ops" where
  "demo_ops = \<lparr>fo_float = int_type, fo_double = int_type\<rparr>"

definition demo_table :: "(32 word, 64 word) table_store" where
  "demo_table = set_to_fill_in_memory (new_table_store
     \<lparr>ti_valid = True, ti_name = ''clicks'', ti_schema = [(''price'', ''int''), (''user'', ''varchar'')],
      ti_expiryTimeInMins = 10\<rparr>)"

definition demo_row :: table_row where
  "demo_row = \<lparr>tr_timestamp = 5, tr_row = [(''price'', ''7''), (''user'', ''a'')]\<rparr>"

definition demo_request :: "(32 word) preprocessor_info" where
  "demo_request = \<lparr>pi_rollingWindowsInSecs = [100], pi_columnsToAggregate = [''price''],
     pi_aggregateOperators = [''Sum''], pi_groupColumns = [''user''], pi_defaultVector = [0],
     pi_tableName = ''clicks'', pi_valid = True\<rparr>"

definition demo_created :: "(32 word, 64 word) table_store" where
  "demo_created = (case create_preprocessor int_type PFloat (\<lambda>i j. 6) demo_table ''input'' demo_request of
     Inr (s, ok) \<Rightarrow> s | Inl f \<Rightarrow> demo_table)"

definition demo_filled :: "(32 word, 64 word) table_store" where
  "demo_filled = (case add_row demo_ops (\<lambda>k j. 6) demo_created demo_row of Inr s \<Rightarrow> s | Inl f \<Rightarrow> demo_created)"

lemma demo_create: "create_preprocessor (fo_float demo_ops) PFloat (\<lambda>i j. 6) demo_table ''input'' demo_request = Inr (demo_created, True)"
  by code_simp

lemma demo_add: "add_row demo_ops (\<lambda>k j. 6) demo_created demo_row = Inr demo_filled"
  by code_simp

lemma demo_reach: "table_reach demo_ops (ts_tableInfo demo_table) demo_created"
proof -
  have "table_reach demo_ops (ts_tableInfo demo_table) demo_table"
    using table_reach.ready [OF table_reach.construct, of demo_ops "ts_tableInfo demo_table"]
    by (simp add: demo_table_def set_to_fill_in_memory_def new_table_store_def)
  from table_reach.create_float [OF this demo_create] show ?thesis .
qed

lemma demo_schema: "smap_ok (ti_schema (ts_tableInfo demo_table))" "smap_ok (tr_row demo_row)"
  "check_columns_of_row demo_created demo_row" "ts_isReadyToBeFilled demo_created"
  "check_columns_of_row demo_table demo_row" "ts_isReadyToBeFilled demo_table" "ts_allEvents demo_table = []"
  "ts_preprocessors demo_table = []"
  by code_simp+

lemma demo_inv: "store_inv demo_created"
proof -
  have "store_inv demo_table"
    unfolding demo_table_def by (intro set_to_fill_inv new_table_store_inv) simp
  then show ?thesis using float_instance.create_inv [OF _ demo_create] by blast
qed

lemma table_store_invariant_witness: "store_inv demo_filled"
  using table_store_invariant [OF table_reach.row [OF demo_reach demo_schema(3,2) demo_add] demo_schema(1)] .

lemma add_row_stores_columns_witness:
  "\<exists>e. ts_allEvents demo_filled = ts_allEvents demo_created @ [e] \<and> te_timestamp e = tr_timestamp demo_row \<and>
    length (te_groups e) = length (ts_preprocessors demo_filled) \<and>
    list_all (\<lambda>(c, k). Some (te_row e ! nat k) = smap_find (tr_row demo_row) c) (ts_columnToIdMap demo_filled)"
  by (rule add_row_stores_columns [OF demo_inv demo_schema(4,3,2) demo_add])


lemma add_row_ignored_witness:
  "add_row demo_ops (\<lambda>k j. 6) demo_created \<lparr>tr_timestamp = 5, tr_row = [(''zip'', ''1'')]\<rparr> = Inr demo_created"
proof (rule add_row_ignored)
  show "\<not> ts_isReadyToBeFilled demo_created \<or> \<not> list_all (smap_has (ts_columnToIdMap demo_created))
      (smap_keys (tr_row \<lparr>tr_timestamp = 5, tr_row = [(''zip'', ''1'')]\<rparr>))"
    by code_simp
qed

lemma entity_finds_group_of_event_witness:
  "\<exists>key. base_group_from_event (hd (ts_preprocessors demo_filled)) (hd (ts_allEvents demo_filled)) = Inr key \<and>
    find_groups demo_filled (hd (ts_preprocessors demo_filled))
      [\<lparr>si_keys = [''zip'', ''user''], si_values = [''0'', ''a''], si_keysLength = 2\<rparr>] [0] = Inr (Some [key])"
proof -
  have inv: "store_inv demo_filled" by (rule add_row_inv [OF demo_inv demo_schema(3,2) demo_add])
  have "ts_preprocessors demo_filled \<noteq> []" by code_simp
  then have mem: "hd (ts_preprocessors demo_filled) \<in> set (ts_preprocessors demo_filled)" by simp
  have "base_groupIds (hd (ts_preprocessors demo_filled)) \<noteq> []" by code_simp
  moreover have "event_inv demo_filled (hd (ts_allEvents demo_filled))" by code_simp
  moreover have "list_all (\<lambda>k. map_of (rev (zip [''zip'', ''user''] [''0'', ''a''])) (ts_columns demo_filled ! nat k)
      = Some (te_row (hd (ts_allEvents demo_filled)) ! nat k)) (base_groupIds (hd (ts_preprocessors demo_filled)))"
    by code_simp
  ultimately show ?thesis by (intro entity_finds_group_of_event [OF inv mem]) simp_all
qed

end
