(* ===== verification/Table_Input.thy ===== *)
theory Table_Input
  imports Table_Store_Contract Pre_Processor_Contract
begin

text \<open>
  The model input of a whole table.  A table shares one event log between all its
  preprocessors, and every preprocessor writes its group into every event; here the
  contract of \<open>PreProcessor<T>\<close> is carried through \<open>TableStore\<close>: \<open>add_row\<close>, the replay
  in \<open>create_preprocessor\<close>, the creation of other preprocessors and the queries of
  any of them.
\<close>

section \<open>What one preprocessor reads of the log\<close>

definition same_log :: "'v preprocessor \<Rightarrow> table_event list \<Rightarrow> table_event list \<Rightarrow> bool" where
  "same_log p = list_all2 (\<lambda>e e'. te_row e' = te_row e \<and> te_timestamp e' = te_timestamp e \<and>
     te_groups e' ! nat (pp_id p) = te_groups e ! nat (pp_id p))"

lemma same_log_refl: "same_log p evs evs"
  unfolding same_log_def by (rule list_all2_refl) simp

lemma same_log_for:
  "same_log p evs evs' \<Longrightarrow> ac_preprocessorId c = pp_id p \<Longrightarrow> same_for c evs evs' (length evs)"
  by (simp add: same_log_def same_for_def list_all2_conv_all_nth)

lemma same_log_groups: "same_log p evs evs' \<Longrightarrow> group_of p ` set evs' = group_of p ` set evs"
  unfolding same_log_def by (induction rule: list_all2_induct) (simp_all add: group_of_def)

lemma columns_track_same_log:
  assumes "columns_track T ss mem evs lo (length evs) cs" "same_log p evs evs'"
    and "\<And>s. s \<in> set ss \<Longrightarrow> ac_preprocessorId s = pp_id p"
  shows "columns_track T ss mem evs' lo (length evs) cs"
proof -
  have "cell_tracks T mem c evs' lo (length evs)"
    if "s \<in> set ss" "same_column s c" "cell_tracks T mem c evs lo (length evs)" for s c
  proof -
    have "ac_preprocessorId c = pp_id p" using assms(3) [OF that(1)] that(2) by (simp add: same_column_def)
    from tracks_same_for [OF same_log_for [OF assms(2) this]] that(3) show ?thesis by (simp add: cell_tracks_iff)
  qed
  then show ?thesis
    using assms(1) unfolding columns_track_def by (elim list.rel_mono_strong) blast
qed

lemma pp_inv_same_log:
  assumes "pp_inv T p evs lo" "same_log p evs evs'"
  shows "pp_inv T p evs' lo"
proof -
  have len: "length evs' = length evs" using assms(2) by (simp add: same_log_def list_all2_lengthD)
  have "window_inv T p evs' lo (length evs) K j w mem" if "window_inv T p evs lo (length evs) K j w mem" for K j w mem
  proof -
    have "columns_track T (planned T p j g) mem evs' lo (length evs) cs"
      if "columns_track T (planned T p j g) mem evs lo (length evs) cs" for g cs
      by (rule columns_track_same_log [OF that assms(2) planned_cell(3)])
    with that show ?thesis unfolding window_inv_def window_tracks_def Let_def by blast
  qed
  with assms(1) show ?thesis by (auto simp: pp_inv_def Let_def len same_log_groups [OF assms(2)])
qed

section \<open>Setup and acceptance\<close>

lemma add_event_setup: "preprocessor_add_event T clk p evs i = Inr q \<Longrightarrow> same_setup p q"
  by (auto simp: preprocessor_add_event_def ensure_group_def ubind_Inr_iff same_setup_def Let_def split: if_splits)

lemma same_setup_trans: "same_setup p q \<Longrightarrow> same_setup q r \<Longrightarrow> same_setup p r"
  by (simp add: same_setup_def)

lemma replay_events_setup: "replay_events T clk p evs is = Inr (q, evs') \<Longrightarrow> same_setup p q"
  by (induction "is" arbitrary: p evs) (auto simp: ubind_Inr_iff dest!: add_event_setup intro: same_setup_trans)

text \<open>An event that the preprocessor reads without a fault and keeps in every window.\<close>

definition taken :: "'v value_type \<Rightarrow> (nat \<Rightarrow> int) \<Rightarrow> 'v preprocessor \<Rightarrow> table_event \<Rightarrow> bool" where
  "taken T clk p e = (event_ok T p e \<and> accepted clk p e)"

lemma taken_same_setup: "same_setup p q \<Longrightarrow> taken T clk q = taken T clk p"
  by (simp add: taken_def event_ok_same_setup accepted_same_setup fun_eq_iff)

text \<open>The groups of later preprocessors do not matter.\<close>

lemma taken_fewer_groups:
  assumes "taken T clk p (e\<lparr>te_groups := gs @ hs\<rparr>)" "pp_id p < int (length gs)"
  shows "taken T clk p (e\<lparr>te_groups := gs\<rparr>)"
proof -
  have "event_fits T s (e\<lparr>te_groups := gs\<rparr>)"
    if "event_fits T s (e\<lparr>te_groups := gs @ hs\<rparr>)" "s \<in> set (planned T p 0 [])" for s
    using that planned_cell(3) [OF that(2)] assms(2) by (simp add: event_fits_def)
  with assms show ?thesis by (auto simp: taken_def event_ok_def accepted_def alive_def list_all_iff)
qed

section \<open>Replay, rows and queries\<close>

locale table_instance = template_instance F T wrap + value_laws T
  for F :: "('f, 'd) float_ops" and T :: "'v value_type" and wrap :: "'v preprocessor \<Rightarrow> ('f, 'd) base_preprocessor" +
  fixes tag :: "'v model_input \<Rightarrow> ('f, 'd) any_input"
  assumes wrap_get: "base_get_model_input F clk' (wrap p) gs evs =
      rewrap (map_prod wrap (map_option tag)) (preprocessor_get_model_input T clk' p gs evs)"
    and wrap_inj: "wrap p = wrap q \<longleftrightarrow> p = q"
begin

lemma add_taken:
  assumes "pp_inv T p evs 0" "taken T clk p e" "preprocessor_add_event T clk p (evs @ [e]) (int (length evs)) = Inr q"
  shows "same_setup p q" "pp_inv T q (evs @ [e]) 0"
  using preprocessor_add_run [OF assms(1) le0, of e clk] assms(2,3) by (auto simp: taken_def)

lemma replay_run:
  assumes "replay_events T clk p evs [i..<length evs] = Inr (q, evs')" "i \<le> length evs"
    and "pp_inv T p (take i evs) 0"
    and "\<And>j. i \<le> j \<Longrightarrow> j < length evs \<Longrightarrow> taken T (clk j) q (evs' ! j)"
  shows "pp_inv T q evs' 0"
  using assms
proof (induction "length evs - i" arbitrary: i p evs)
  case (Suc n)
  then have i: "i < length evs" by simp
  obtain g evs1 p1 where 1: "push_group evs (int i) g = Inr evs1"
    "preprocessor_add_event T (clk i) p evs1 (int i) = Inr p1"
    "replay_events T clk p1 evs1 [Suc i..<length evs] = Inr (q, evs')"
    using Suc.prems(1) i by (auto simp: upt_conv_Cons ubind_Inr_iff)
  note evs1 = push_group_result [OF 1(1) i]
  have len: "length evs1 = length evs" by (simp add: evs1)
  have take: "take (Suc i) evs' = take (Suc i) evs1"
    using replay_events_result [of T clk p1 evs1 "Suc i" q evs'] 1(3) i len by simp
  have kept: "same_setup p p1" "same_setup p1 q"
    using add_event_setup [OF 1(2)] replay_events_setup [OF 1(3)] by simp_all
  have "evs' ! i = evs1 ! i" using take by (metis lessI nth_take)
  then have e: "taken T (clk i) p (evs1 ! i)"
    using Suc.prems(4) [OF order.refl i] taken_same_setup [OF same_setup_trans [OF kept]] by simp
  have pre: "take i evs1 = take i evs" by (simp add: evs1)
  have snoc: "take (Suc i) evs1 = take i evs @ [evs1 ! i]" "length (take i evs) = i"
    using i pre by (simp_all add: take_Suc_conv_app_nth len)
  have "vec_get evs1 (int i) = vec_get (take i evs @ [evs1 ! i]) (int i)"
    using i by (simp add: len nth_append)
  then have "preprocessor_add_event T (clk i) p (take i evs @ [evs1 ! i]) (int i) = Inr p1"
    using 1(2) by (subst preprocessor_add_event_local [of _ _ evs1]) simp_all
  with add_taken(2) [OF Suc.prems(3) e] snoc have "pp_inv T p1 (take (Suc i) evs1) 0" by simp
  then show ?case
    using 1(3) i Suc.hyps(2) Suc.prems(4) len by (intro Suc.hyps(1) [of evs1 "Suc i" p1]) simp_all
qed simp

lemma row_run:
  assumes inv: "store_inv s" and ck: "check_columns_of_row s r" "smap_ok (tr_row r)"
    and run: "add_row F clk s r = Inr s'" and ready: "ts_isReadyToBeFilled s"
    and k: "k < length (ts_preprocessors s)" "ts_preprocessors s ! k = wrap p" "pp_id p = int k"
    and p: "pp_inv T p (ts_allEvents s) 0" "taken T (clk k) p (last (ts_allEvents s'))"
  shows "length (ts_preprocessors s') = length (ts_preprocessors s) \<and>
    (\<exists>q. ts_preprocessors s' ! k = wrap q \<and> pp_inv T q (ts_allEvents s') 0)"
proof -
  let ?n = "length (ts_allEvents s)" and ?bs = "ts_preprocessors s"
  let ?e = "\<lparr>te_groups = [], te_timestamp = tr_timestamp r, te_row = map snd (tr_row r)\<rparr>"
  let ?x = "\<lambda>gs. ?e\<lparr>te_groups := gs\<rparr>"
  have "ids_inv s" using inv by (simp add: store_inv_def)
  note cells = checked_row_cells(1) [OF this ck]
  obtain as cs where split: "?bs = as @ wrap p # cs" and len: "length as = k"
    using id_take_nth_drop [OF k(1)] k(1,2) by (metis length_take min.absorb4)
  obtain bs evs where all: "add_to_preprocessors F clk 0 ?e ?bs (ts_allEvents s @ [?e]) (int ?n) = Inr (bs, evs)"
    and s': "s' = s\<lparr>ts_preprocessors := bs, ts_allEvents := evs\<rparr>"
    using run ready cells by (auto simp: add_row_def ubind_Inr_iff Let_def)
  from all obtain bs1 es bs2 where
    1: "add_to_preprocessors F clk 0 ?e as (ts_allEvents s @ [?e]) (int ?n) = Inr (bs1, es)"
      "add_to_preprocessors F clk k ?e (wrap p # cs) es (int ?n) = Inr (bs2, evs)" "bs = bs1 @ bs2"
    by (auto simp: split add_to_preprocessors_append len ubind_Inr_iff simp del: add_to_preprocessors.simps)
  from add_to_preprocessors_result [OF 1(1)] obtain gs where
    gs: "es = ts_allEvents s @ [?x gs]" and l: "list_all2 (\<lambda>b g. base_group_from_event b ?e = Inr g) as gs"
      "list_all2 (\<lambda>b b'. base_id b' = base_id b \<and> base_groupIds b' = base_groupIds b) as bs1"
    by auto
  have lens: "length gs = k" "length bs1 = k"
    using list_all2_lengthD [OF l(1)] list_all2_lengthD [OF l(2)] len by simp_all
  obtain g q bs3 where 2: "preprocessor_add_event T (clk k) p (ts_allEvents s @ [?x (gs @ [g])]) (int ?n) = Inr q"
    "add_to_preprocessors F clk (Suc k) ?e cs (ts_allEvents s @ [?x (gs @ [g])]) (int ?n) = Inr (bs3, evs)"
    "bs2 = wrap q # bs3"
    using 1(2) unfolding gs add_to_preprocessors_snoc [OF refl]
    by (auto simp: ubind_Inr_iff Let_def wrap_add rewrap_Inr_iff)
  from add_to_preprocessors_result [OF 2(2)] obtain hs where
    evs: "evs = ts_allEvents s @ [?x ((gs @ [g]) @ hs)]" by auto
  have "taken T (clk k) p (?x ((gs @ [g]) @ hs))" using p(2) by (simp add: s' evs)
  then have "taken T (clk k) p (?x (gs @ [g]))"
    by (rule taken_fewer_groups) (simp add: k(3) lens)
  note q = add_taken [OF p(1) this 2(1)]
  have "pp_id q = int k" using q(1) k(3) by (simp add: same_setup_def)
  then have "same_log q (ts_allEvents s @ [?x (gs @ [g])]) evs"
    unfolding evs same_log_def by (intro list_all2_appendI list_all2_refl) (simp_all add: lens nth_append)
  from pp_inv_same_log [OF q(2) this] add_to_preprocessors_result [OF 2(2)] show ?thesis
    by (auto simp: s' 1(3) 2(3) lens nth_append split len dest: list_all2_lengthD)
qed

lemma query_run:
  assumes inv: "pp_inv T p (ts_allEvents s) 0" "last_alive clk p (ts_allEvents s)"
    and k: "k < length (ts_preprocessors s)" "ts_preprocessors s ! k = wrap p"
    and find: "smap_find (ts_modelInputPreprocessorIdMap s) ident = Some (int k)"
      "find_groups s (wrap p) inps [0 .. n - 1] = Inr (Some gs)"
  shows "\<exists>q. table_get_model_input F clk s ident inps n =
      Inr (s\<lparr>ts_preprocessors := (ts_preprocessors s)[k := wrap q]\<rparr>,
           Some (tag (concat (map (reference_row T p (ts_allEvents s) 0) gs)))) \<and> pp_inv T q (ts_allEvents s) 0"
proof -
  obtain q where q: "preprocessor_get_model_input T clk p gs (ts_allEvents s) =
      Inr (q, Some (concat (map (reference_row T p (ts_allEvents s) 0) gs)))" "pp_inv T q (ts_allEvents s) 0"
    using get_model_input_run [OF inv, of gs] by blast
  then have "table_get_model_input F clk s ident inps n =
      Inr (s\<lparr>ts_preprocessors := (ts_preprocessors s)[k := wrap q]\<rparr>,
           Some (tag (concat (map (reference_row T p (ts_allEvents s) 0) gs))))"
    using k find by (simp add: table_get_model_input_def wrap_get rewrap_def)
  with q(2) show ?thesis by blast
qed

end

context template_instance
begin

lemma create_grows:
  assumes "create_preprocessor T wrap clk s ident info = Inr (s', ok)"
  shows "(\<exists>bs. ts_preprocessors s' = ts_preprocessors s @ bs) \<and>
    list_all2 (\<lambda>e e'. e' = e \<or> grown e e') (ts_allEvents s) (ts_allEvents s')"
proof (cases ok)
  case True
  with assms have "create_preprocessor T wrap clk s ident info = Inr (s', True)" by simp
  from create_result [OF this] obtain p0 q evs where
    c: "replay_events T clk p0 (ts_allEvents s) [0..<length (ts_allEvents s)] = Inr (q, evs)"
    "ts_preprocessors s' = ts_preprocessors s @ [wrap q]" "ts_allEvents s' = evs" by fastforce
  with replay_events_result [OF c(1)] show ?thesis by (simp add: list_all2_conv_all_nth)
next
  case False
  then have "s' = s" using assms
    by (auto simp: create_preprocessor_def ubind_Inr_iff Let_def split: option.splits)
  then show ?thesis by (simp add: list_all2_refl)
qed

end

section \<open>A table in use\<close>

text \<open>A preprocessor of any of the four types is created.\<close>

inductive created_in :: "('f, 'd) float_ops \<Rightarrow> ('f, 'd) table_store \<Rightarrow> ('f, 'd) table_store \<Rightarrow> bool" for F s where
  "create_preprocessor (fo_float F) PFloat clk s ident infof = Inr (s', ok) \<Longrightarrow> created_in F s s'"
| "create_preprocessor (fo_double F) PDouble clk s ident infod = Inr (s', ok) \<Longrightarrow> created_in F s s'"
| "create_preprocessor int_type PInt32 clk s ident info32 = Inr (s', ok) \<Longrightarrow> created_in F s s'"
| "create_preprocessor int_type PInt64 clk s ident info64 = Inr (s', ok) \<Longrightarrow> created_in F s s'"

lemma created_in_inv: "created_in F s s' \<Longrightarrow> store_inv s \<Longrightarrow> store_inv s'"
  by (induction rule: created_in.induct)
    (blast intro: float_instance.create_inv double_instance.create_inv int32_instance.create_inv int64_instance.create_inv)+

lemma created_in_grows:
  "created_in F s s' \<Longrightarrow> (\<exists>bs. ts_preprocessors s' = ts_preprocessors s @ bs) \<and>
    list_all2 (\<lambda>e e'. e' = e \<or> grown e e') (ts_allEvents s) (ts_allEvents s')"
  by (induction rule: created_in.induct)
    (erule float_instance.create_grows double_instance.create_grows int32_instance.create_grows
       int64_instance.create_grows)+

text \<open>
  The life of preprocessor \<open>k\<close> of a table, an instance over \<open>T\<close>: it is created with
  known operators on a log it takes in whole; then rows arrive that it takes in, other
  preprocessors are created, and models ask for their input, its own while its last
  event is alive.  Nothing is asked of the other preprocessors but that calls return.
\<close>

inductive live_table ::
  "('f, 'd) float_ops \<Rightarrow> 'v value_type \<Rightarrow> ('v preprocessor \<Rightarrow> ('f, 'd) base_preprocessor) \<Rightarrow> table_info \<Rightarrow> nat
    \<Rightarrow> ('f, 'd) table_store \<Rightarrow> bool" for F T wrap info k where
  created: "table_reach F info s \<Longrightarrow> k = length (ts_preprocessors s) \<Longrightarrow>
    create_preprocessor T wrap clk s ident request = Inr (s', True) \<Longrightarrow> ts_preprocessors s' ! k = wrap p \<Longrightarrow>
    operators_known request (pp_columnIds p) \<Longrightarrow>
    (\<And>i. i < length (ts_allEvents s') \<Longrightarrow> taken T (clk i) p (ts_allEvents s' ! i)) \<Longrightarrow>
    live_table F T wrap info k s'"
| ready: "live_table F T wrap info k s \<Longrightarrow> live_table F T wrap info k (set_to_fill_in_memory s)"
| row: "live_table F T wrap info k s \<Longrightarrow> check_columns_of_row s r \<Longrightarrow> smap_ok (tr_row r) \<Longrightarrow>
    add_row F clk s r = Inr s' \<Longrightarrow> ts_preprocessors s ! k = wrap p \<Longrightarrow>
    (ts_isReadyToBeFilled s \<Longrightarrow> taken T (clk k) p (last (ts_allEvents s'))) \<Longrightarrow>
    live_table F T wrap info k s'"
| create: "live_table F T wrap info k s \<Longrightarrow> created_in F s s' \<Longrightarrow> live_table F T wrap info k s'"
| model_input: "live_table F T wrap info k s \<Longrightarrow> table_get_model_input F clk' s ident inps n = Inr (s', res) \<Longrightarrow>
    ts_preprocessors s ! k = wrap p \<Longrightarrow>
    (smap_find (ts_modelInputPreprocessorIdMap s) ident = Some (int k) \<Longrightarrow> last_alive clk' p (ts_allEvents s)) \<Longrightarrow>
    live_table F T wrap info k s'"

context table_instance
begin

definition tracked :: "nat \<Rightarrow> ('f, 'd) table_store \<Rightarrow> bool" where
  "tracked k s = (store_inv s \<and> k < length (ts_preprocessors s) \<and>
     (\<exists>p. ts_preprocessors s ! k = wrap p \<and> pp_inv T p (ts_allEvents s) 0))"

lemma numbered: "store_inv s \<Longrightarrow> k < length (ts_preprocessors s) \<Longrightarrow> ts_preprocessors s ! k = wrap p \<Longrightarrow> pp_id p = int k"
proof -
  assume "store_inv s" and k: "k < length (ts_preprocessors s)" "ts_preprocessors s ! k = wrap p"
  then have "map base_id (ts_preprocessors s) ! k = map int [0..<length (ts_preprocessors s)] ! k"
    by (simp add: store_inv_def)
  with k show "pp_id p = int k" by (simp add: wrap_id)
qed

lemma tracked_created:
  assumes inv: "store_inv s" and k: "k = length (ts_preprocessors s)"
    and run: "create_preprocessor T wrap clk s ident request = Inr (s', True)" "ts_preprocessors s' ! k = wrap p"
    and ok: "operators_known request (pp_columnIds p)"
      "\<And>i. i < length (ts_allEvents s') \<Longrightarrow> taken T (clk i) p (ts_allEvents s' ! i)"
  shows "tracked k s'"
proof -
  from create_result [OF run(1)] obtain gids cids p0 q evs where
    c: "new_preprocessor (int k) request gids cids = Inr p0"
    "replay_events T clk p0 (ts_allEvents s) [0..<length (ts_allEvents s)] = Inr (q, evs)"
    "ts_preprocessors s' = ts_preprocessors s @ [wrap q]" "ts_allEvents s' = evs" by (fastforce simp: k)
  have p: "p = q" using run(2) c(3) by (simp add: k wrap_inj)
  have "pp_columnIds p = cids"
    using new_preprocessor_id [OF c(1)] replay_events_setup [OF c(2)] by (simp add: p same_setup_def)
  then have "pp_inv T p0 (take 0 (ts_allEvents s)) 0" using new_preprocessor_inv [OF _ c(1)] ok(1) by simp
  moreover have "length evs = length (ts_allEvents s)" using replay_events_result [OF c(2)] by simp
  ultimately have "pp_inv T q evs 0" using ok(2) p c(4) by (intro replay_run [OF c(2)]) simp_all
  with create_inv [OF inv run(1)] c(3,4) show ?thesis by (auto simp: tracked_def k)
qed

lemma tracked_create:
  assumes "tracked k s" "created_in F s s'"
  shows "tracked k s'"
proof -
  obtain p where s: "store_inv s" "k < length (ts_preprocessors s)" "ts_preprocessors s ! k = wrap p"
    "pp_inv T p (ts_allEvents s) 0" using assms(1) by (auto simp: tracked_def)
  obtain bs where bs: "ts_preprocessors s' = ts_preprocessors s @ bs"
    and evs: "list_all2 (\<lambda>e e'. e' = e \<or> grown e e') (ts_allEvents s) (ts_allEvents s')"
    using created_in_grows [OF assms(2)] by blast
  have "te_row e' = te_row e \<and> te_timestamp e' = te_timestamp e \<and> te_groups e' ! nat (pp_id p) = te_groups e ! nat (pp_id p)"
    if "e \<in> set (ts_allEvents s)" "e' = e \<or> grown e e'" for e e'
    using that s(1,2) numbered [OF s(1-3)]
    by (auto simp: grown_def store_inv_def list_all_iff event_inv_def nth_append)
  with evs have "same_log p (ts_allEvents s) (ts_allEvents s')"
    unfolding same_log_def by (elim list.rel_mono_strong) blast
  from pp_inv_same_log [OF s(4) this] created_in_inv [OF assms(2) s(1)] bs s(2,3) show ?thesis
    by (auto simp: tracked_def nth_append)
qed

lemma tracked_query:
  assumes "tracked k s" "table_get_model_input F clk' s ident inps n = Inr (s', res)" "ts_preprocessors s ! k = wrap p"
    and alive: "smap_find (ts_modelInputPreprocessorIdMap s) ident = Some (int k) \<Longrightarrow> last_alive clk' p (ts_allEvents s)"
  shows "tracked k s'"
proof -
  have s: "store_inv s" "k < length (ts_preprocessors s)" "pp_inv T p (ts_allEvents s) 0"
    using assms(1,3) by (auto simp: tracked_def wrap_inj)
  note kept = get_model_input_inv [OF s(1) assms(2)]
  consider "s' = s" | j b where "j \<noteq> k" "s' = s\<lparr>ts_preprocessors := (ts_preprocessors s)[j := b]\<rparr>"
    | gs where "smap_find (ts_modelInputPreprocessorIdMap s) ident = Some (int k)"
      "find_groups s (wrap p) inps [0 .. n - 1] = Inr (Some gs)"
    using assms(2,3) by (auto simp: table_get_model_input_def ubind_Inr_iff vec_set_def vec_get_Inr_iff
        split: option.splits if_splits) (metis int_nat_eq)
  then show ?thesis
  proof cases
    case 3
    from query_run [OF s(3) alive [OF 3(1)] s(2) assms(3) 3] assms(2) kept show ?thesis
      using s(2) by (auto simp: tracked_def)
  qed (use kept assms(1,3) s in \<open>auto simp: tracked_def\<close>)
qed

lemma live_table_tracked: "live_table F T wrap info k s \<Longrightarrow> smap_ok (ti_schema info) \<Longrightarrow> tracked k s"
proof (induction rule: live_table.induct)
  case (created s clk ident request s' p)
  then show ?case using tracked_created table_store_invariant by blast
next
  case (ready s)
  then show ?case using set_to_fill_inv by (auto simp: tracked_def set_to_fill_in_memory_def)
next
  case (row s r clk s' p)
  then have s: "store_inv s" "k < length (ts_preprocessors s)" "pp_inv T p (ts_allEvents s) 0" "tracked k s"
    by (auto simp: tracked_def wrap_inj)
  note kept = add_row_inv [OF s(1) row.hyps(2-4)]
  show ?case
  proof (cases "ts_isReadyToBeFilled s")
    case True
    note run = row_run [OF s(1) row.hyps(2-4) True s(2) row.hyps(5) numbered [OF s(1,2) row.hyps(5)] s(3) row.hyps(6) [OF True]]
    from run kept s(2) show ?thesis by (simp add: tracked_def)
  next
    case False
    with row.hyps(4) s(4) show ?thesis by (simp add: add_row_def)
  qed
qed (blast intro: tracked_create tracked_query)+

end

interpretation int32_table: table_instance F int_type PInt32 IInt32
  by unfold_locales (simp_all add: base_get_model_input_def)

interpretation int64_table: table_instance F int_type PInt64 IInt64
  by unfold_locales (simp_all add: base_get_model_input_def)

section \<open>Properties\<close>


section \<open>An example\<close>

text \<open>
  A table with one preprocessor and one row gets a second preprocessor, which replays
  the row; then another row arrives and the second model asks for its input.
\<close>

definition late_request :: "i32 preprocessor_info" where
  "late_request = \<lparr>pi_rollingWindowsInSecs = [100, 200], pi_columnsToAggregate = [''price'', ''price''],
     pi_aggregateOperators = [''Sum'', ''Max''], pi_groupColumns = [''user''], pi_defaultVector = [0, -1],
     pi_tableName = ''clicks'', pi_valid = True\<rparr>"

definition late_created :: "(32 word, 64 word) table_store" where
  "late_created = (case create_preprocessor int_type PInt32 (\<lambda>i j. 6) demo_filled ''late'' late_request of
     Inr (s, ok) \<Rightarrow> s | Inl f \<Rightarrow> demo_filled)"

definition late_row :: table_row where
  "late_row = \<lparr>tr_timestamp = 8, tr_row = [(''price'', ''5''), (''user'', ''a'')]\<rparr>"

definition late_filled :: "(32 word, 64 word) table_store" where
  "late_filled = (case add_row demo_ops (\<lambda>k j. 9) late_created late_row of Inr s \<Rightarrow> s | Inl f \<Rightarrow> late_created)"

definition second_preprocessor :: "('f, 'd) table_store \<Rightarrow> i32 preprocessor" where
  "second_preprocessor s = (case ts_preprocessors s ! 1 of PInt32 p \<Rightarrow> p)"

definition late_entities :: "single_input list" where
  "late_entities = [\<lparr>si_keys = [''user''], si_values = [''a''], si_keysLength = 1\<rparr>,
     \<lparr>si_keys = [''user''], si_values = [''b''], si_keysLength = 1\<rparr>]"

lemma late_create: "create_preprocessor int_type PInt32 (\<lambda>i j. 6) demo_filled ''late'' late_request = Inr (late_created, True)"
  by code_simp

lemma late_add: "add_row demo_ops (\<lambda>k j. 9) late_created late_row = Inr late_filled"
  by code_simp

lemma late_setup: "length (ts_preprocessors demo_filled) = 1" "length (ts_allEvents late_created) = 1"
  "ts_preprocessors late_created ! 1 = PInt32 (second_preprocessor late_created)"
  "ts_preprocessors late_filled ! 1 = PInt32 (second_preprocessor late_filled)"
  "operators_known late_request (pp_columnIds (second_preprocessor late_created))"
  "smap_find (ts_modelInputPreprocessorIdMap late_filled) ''late'' = Some 1"
  "check_columns_of_row late_created late_row" "smap_ok (tr_row late_row)"
  by code_simp+

lemma late_taken: "taken int_type (\<lambda>j. 6) (second_preprocessor late_created) (ts_allEvents late_created ! 0)"
  "taken int_type (\<lambda>j. 9) (second_preprocessor late_created) (last (ts_allEvents late_filled))"
  "last_alive (\<lambda>j i. 50) (second_preprocessor late_filled) (ts_allEvents late_filled)"
  by code_simp+

lemma late_groups: "find_groups late_filled (PInt32 (second_preprocessor late_filled)) late_entities [0 .. 2 - 1]
    = Inr (Some [''a+'', ''b+''])"
  by code_simp

lemma late_live: "live_table demo_ops int_type PInt32 (ts_tableInfo demo_table) 1 late_filled"
proof -
  have "table_reach demo_ops (ts_tableInfo demo_table) demo_filled"
    by (rule table_reach.row [OF demo_reach demo_schema(3,2) demo_add])
  from live_table.created [OF this _ late_create late_setup(3,5)]
  have "live_table demo_ops int_type PInt32 (ts_tableInfo demo_table) 1 late_created"
    using late_setup(1,2) late_taken(1) by simp
  from live_table.row [OF this late_setup(7,8) late_add late_setup(3) late_taken(2)] show ?thesis .
qed


end
