(* ===== verification/Json_Model.thy ===== *)
theory Json_Model
  imports Complex_Main Std_Map
begin

text \<open>
  \<open>nlohmann::json\<close> values as the SDK uses them, and \<open>nimblenet/util/src/json.cpp\<close>
  with \<open>util/include/json.h\<close>.

  A \<open>json\<close> value is a datatype; a floating-point number is the rational it stands
  for.  The accessors (\<open>at\<close>, \<open>find\<close>, \<open>get_to\<close>) throw \<open>json::exception\<close>s; these are
  values of \<open>json_error\<close>.  \<open>Undefined\<close> is not an exception: it is undefined
  behaviour of the C++ code around the library, which no \<open>catch\<close> sees.  The text
  syntax (\<open>json::parse\<close>, \<open>dump\<close>) is a parameter wherever it is used.
\<close>

section \<open>Values and errors\<close>

datatype json =
    JNull
  | JBool bool
  | JInt int
  | JFloat rat
  | JString string
  | JArray "json list"
  | JObject "(string \<times> json) list"

datatype json_error = Type_Error | Out_Of_Range | Undefined fault

type_synonym 'a parsed = "json_error + 'a"

definition pbind :: "'a parsed \<Rightarrow> ('a \<Rightarrow> 'b parsed) \<Rightarrow> 'b parsed" where
  "pbind m f = (case m of Inl e \<Rightarrow> Inl e | Inr x \<Rightarrow> f x)"

lemma pbind_simps [simp]: "pbind (Inl e) f = Inl e" "pbind (Inr x) f = f x"
  by (simp_all add: pbind_def)

lemma pbind_Inr_iff: "pbind m f = Inr y \<longleftrightarrow> (\<exists>x. m = Inr x \<and> f x = Inr y)"
  by (cases m) auto

lemma pbind_cong [fundef_cong]:
  "m = m' \<Longrightarrow> (\<And>x. m' = Inr x \<Longrightarrow> f x = f' x) \<Longrightarrow> pbind m f = pbind m' f'"
  by (cases m') auto

section \<open>Accessors\<close>

definition jat :: "json \<Rightarrow> string \<Rightarrow> json parsed" where
  "jat j k = (case j of
     JObject m \<Rightarrow> (case smap_find m k of None \<Rightarrow> Inl Out_Of_Range | Some v \<Rightarrow> Inr v)
   | _ \<Rightarrow> Inl Type_Error)"

definition jfind :: "json \<Rightarrow> string \<Rightarrow> json option" where
  "jfind j k = (case j of JObject m \<Rightarrow> smap_find m k | _ \<Rightarrow> None)"

definition get_string :: "json \<Rightarrow> string parsed" where
  "get_string j = (case j of JString s \<Rightarrow> Inr s | _ \<Rightarrow> Inl Type_Error)"

definition get_bool :: "json \<Rightarrow> bool parsed" where
  "get_bool j = (case j of JBool b \<Rightarrow> Inr b | _ \<Rightarrow> Inl Type_Error)"

text \<open>\<open>static_cast\<close> of a number to a signed or unsigned integer type of \<open>w\<close> bits.\<close>

definition cast_signed :: "nat \<Rightarrow> int \<Rightarrow> int" where
  "cast_signed w x = (let r = x mod 2 ^ w in if r < 2 ^ (w - 1) then r else r - 2 ^ w)"

definition trunc_rat :: "rat \<Rightarrow> int" where
  "trunc_rat r = (if 0 \<le> r then \<lfloor>r\<rfloor> else \<lceil>r\<rceil>)"

definition cast_float :: "int \<Rightarrow> int \<Rightarrow> rat \<Rightarrow> int parsed" where
  "cast_float lo hi r =
     (let x = trunc_rat r in if lo \<le> x \<and> x \<le> hi then Inr x else Inl (Undefined Arith_Overflow))"

text \<open>\<open>int\<close> also accepts a boolean; \<open>int64_t\<close> and \<open>uint64_t\<close> are the library's own number types.\<close>

definition get_int :: "json \<Rightarrow> int parsed" where
  "get_int j = (case j of
     JInt x \<Rightarrow> Inr (cast_signed 32 x)
   | JFloat r \<Rightarrow> cast_float (- (2 ^ 31)) (2 ^ 31 - 1) r
   | JBool b \<Rightarrow> Inr (if b then 1 else 0)
   | _ \<Rightarrow> Inl Type_Error)"

definition get_int64 :: "json \<Rightarrow> int parsed" where
  "get_int64 j = (case j of
     JInt x \<Rightarrow> Inr (cast_signed 64 x)
   | JFloat r \<Rightarrow> cast_float (- (2 ^ 63)) (2 ^ 63 - 1) r
   | _ \<Rightarrow> Inl Type_Error)"

definition get_uint64 :: "json \<Rightarrow> int parsed" where
  "get_uint64 j = (case j of
     JInt x \<Rightarrow> Inr (x mod 2 ^ 64)
   | JFloat r \<Rightarrow> cast_float 0 (2 ^ 64 - 1) r
   | _ \<Rightarrow> Inl Type_Error)"

fun get_all :: "(json \<Rightarrow> 'a parsed) \<Rightarrow> json list \<Rightarrow> 'a list parsed" where
  "get_all g [] = Inr []"
| "get_all g (j # js) = pbind (g j) (\<lambda>x. pbind (get_all g js) (\<lambda>xs. Inr (x # xs)))"

definition get_vector :: "(json \<Rightarrow> 'a parsed) \<Rightarrow> json \<Rightarrow> 'a list parsed" where
  "get_vector g j = (case j of JArray js \<Rightarrow> get_all g js | _ \<Rightarrow> Inl Type_Error)"

fun get_entries :: "(string \<times> json) list \<Rightarrow> (string, string) smap parsed" where
  "get_entries [] = Inr []"
| "get_entries ((k, j) # kjs) =
     pbind (get_string j) (\<lambda>s. pbind (get_entries kjs) (\<lambda>m. Inr ((k, s) # m)))"

definition get_string_map :: "json \<Rightarrow> (string, string) smap parsed" where
  "get_string_map j = (case j of JObject m \<Rightarrow> get_entries m | _ \<Rightarrow> Inl Type_Error)"

text \<open>The two uses of an optional key: \<open>if (j.find(k) != j.end()) j.at(k).get_to(x)\<close>.\<close>

definition optional_field :: "json \<Rightarrow> string \<Rightarrow> (json \<Rightarrow> 'a parsed) \<Rightarrow> 'a \<Rightarrow> 'a parsed" where
  "optional_field j k g d = (case jfind j k of None \<Rightarrow> Inr d | Some v \<Rightarrow> g v)"

definition field :: "json \<Rightarrow> string \<Rightarrow> (json \<Rightarrow> 'a parsed) \<Rightarrow> 'a parsed" where
  "field j k g = pbind (jat j k) g"

text \<open>\<open>json{{k, v}, ...}\<close>.\<close>

definition jobject :: "(string \<times> json) list \<Rightarrow> json" where
  "jobject kvs = JObject (smap_of kvs)"

section \<open>\<open>JSONParser\<close>\<close>

text \<open>
  \<open>get_from_json\<close> turns a thrown exception into the default object \<open>T()\<close>;
  \<open>JSONParser::get\<close> does the same for text that does not parse.
\<close>

definition get_from_json :: "'a \<Rightarrow> (json \<Rightarrow> 'a parsed) \<Rightarrow> json \<Rightarrow> 'a outcome" where
  "get_from_json d g j = (case g j of
     Inr x \<Rightarrow> Inr x
   | Inl (Undefined f) \<Rightarrow> Inl f
   | Inl _ \<Rightarrow> Inr d)"

definition get_json :: "(string \<Rightarrow> json option) \<Rightarrow> string \<Rightarrow> json option" where
  "get_json parse s = parse s"

definition parser_get ::
  "(string \<Rightarrow> json option) \<Rightarrow> 'a \<Rightarrow> (json \<Rightarrow> 'a parsed) \<Rightarrow> string \<Rightarrow> 'a outcome" where
  "parser_get parse d g s = (case get_json parse s of None \<Rightarrow> Inr d | Some j \<Rightarrow> get_from_json d g j)"

section \<open>Codecs\<close>

text \<open>A type that is written to and read from \<open>json\<close>; \<open>view\<close> is the part that is written.\<close>

locale json_codec =
  fixes to_json :: "'a \<Rightarrow> json" and from_json :: "json \<Rightarrow> 'a parsed" and view :: "'a \<Rightarrow> 'a"
    and valid :: "'a \<Rightarrow> bool"
  assumes decode_encode: "valid x \<Longrightarrow> from_json (to_json x) = Inr (view x)"
begin

lemma get_encoded: "valid x \<Longrightarrow> get_from_json d from_json (to_json x) = Inr (view x)"
  by (simp add: get_from_json_def decode_encode)

lemma get_dumped:
  "valid x \<Longrightarrow> parse (dump (to_json x)) = Some (to_json x) \<Longrightarrow>
    parser_get parse d from_json (dump (to_json x)) = Inr (view x)"
  by (simp add: parser_get_def get_json_def get_encoded)

end

section \<open>Facts\<close>

lemma jat_jobject: "jat (jobject kvs) k = (case map_of (rev kvs) k of None \<Rightarrow> Inl Out_Of_Range | Some v \<Rightarrow> Inr v)"
  by (simp add: jat_def jobject_def smap_find_of)

lemma jfind_jobject: "jfind (jobject kvs) k = map_of (rev kvs) k"
  by (simp add: jfind_def jobject_def smap_find_of)

lemma cast_signed_in:
  assumes "0 < w" "- (2 ^ (w - 1)) \<le> x" "x < 2 ^ (w - 1)"
  shows "cast_signed w x = x"
proof -
  have two: "(2 :: int) ^ w = 2 * 2 ^ (w - 1)" using assms(1) by (cases w) simp_all
  show ?thesis
  proof (cases "0 \<le> x")
    case True
    then have "x mod 2 ^ w = x" using assms(3) by (simp add: two)
    then show ?thesis using assms(3) by (simp add: cast_signed_def)
  next
    case False
    have "(x + 2 ^ w) mod 2 ^ w = x + 2 ^ w"
      using False assms(2) by (intro mod_pos_pos_trivial) (simp_all add: two)
    then have "x mod 2 ^ w = x + 2 ^ w" by simp
    then show ?thesis using False assms(2) by (simp add: cast_signed_def two)
  qed
qed

lemma cast_signed_32: "- (2 ^ 31) \<le> x \<Longrightarrow> x < 2 ^ 31 \<Longrightarrow> cast_signed 32 x = x"
  using cast_signed_in [of 32 x] by simp

lemma get_from_json_exception:
  "g j = Inl Type_Error \<or> g j = Inl Out_Of_Range \<Longrightarrow> get_from_json d g j = Inr d"
  by (auto simp: get_from_json_def)

end
