(* ===== verification/Config_Manager.thy ===== *)
theory Config_Manager
  imports Json_Model
begin

text \<open>
  \<open>nimblenet/ConfigManager\<close>: the configuration the client passes at start-up.
  \<open>config.host.back()\<close> of an empty string is undefined, so the loop that strips
  trailing slashes ends in \<open>Out_Of_Bounds (-1)\<close> when nothing else is left.
\<close>

record config =
  cf_valid :: bool
  cf_deviceId :: string
  cf_clientId :: string
  cf_host :: string
  cf_clientSecret :: string
  cf_modelIds :: "string list"
  cf_featureStores :: "string list"
  cf_tableInfos :: "json list"
  cf_debug :: bool
  cf_maxInputsToSave :: int

definition new_config :: config where
  "new_config = \<lparr>cf_valid = False, cf_deviceId = [], cf_clientId = [], cf_host = [], cf_clientSecret = [],
     cf_modelIds = [], cf_featureStores = [], cf_tableInfos = [], cf_debug = False, cf_maxInputsToSave = 0\<rparr>"

function strip_slashes :: "string \<Rightarrow> string outcome" where
  "strip_slashes host =
     (if host = [] then Inl (Out_Of_Bounds (-1))
      else if last host = CHR ''/'' then strip_slashes (butlast host)
      else Inr host)"
  by pat_completeness auto
termination
  by (relation "measure length") auto

declare strip_slashes.simps [simp del]

definition lift_outcome :: "'a outcome \<Rightarrow> 'a parsed" where
  "lift_outcome m = (case m of Inl f \<Rightarrow> Inl (Undefined f) | Inr x \<Rightarrow> Inr x)"

lemma lift_outcome_Inr_iff: "lift_outcome m = Inr x \<longleftrightarrow> m = Inr x"
  by (auto simp: lift_outcome_def split: sum.splits)

definition config_from_json :: "json \<Rightarrow> config parsed" where
  "config_from_json j =
     pbind (field j ''host'' get_string) (\<lambda>host.
     pbind (field j ''deviceID'' get_string) (\<lambda>deviceId.
     pbind (field j ''clientID'' get_string) (\<lambda>clientId.
     pbind (field j ''modelIDs'' (get_vector get_string)) (\<lambda>modelIds.
     pbind (field j ''clientSecret'' get_string) (\<lambda>clientSecret.
     pbind (optional_field j ''featureStores'' (get_vector get_string) []) (\<lambda>featureStores.
     pbind (optional_field j ''databaseConfig'' (get_vector Inr) []) (\<lambda>tableInfos.
     pbind (optional_field j ''maxInputsToSave'' get_int 0) (\<lambda>maxInputsToSave.
     pbind (lift_outcome (strip_slashes host)) (\<lambda>host'.
     pbind (optional_field j ''debug'' get_bool False) (\<lambda>debug.
       Inr \<lparr>cf_valid = True, cf_deviceId = deviceId, cf_clientId = clientId, cf_host = host',
            cf_clientSecret = clientSecret, cf_modelIds = modelIds, cf_featureStores = featureStores,
            cf_tableInfos = tableInfos, cf_debug = debug, cf_maxInputsToSave = maxInputsToSave\<rparr>))))))))))"

definition load_user_config :: "(string \<Rightarrow> json option) \<Rightarrow> string \<Rightarrow> config outcome" where
  "load_user_config parse configJson = parser_get parse new_config config_from_json configJson"

text \<open>The summary \<open>Config::c_str\<close> that goes to the log; \<open>dump\<close> prints a table description.\<close>

definition bracketed :: "string list \<Rightarrow> string" where
  "bracketed xs = ''['' @ concat (map (\<lambda>x. x @ '','') xs) @ '']''"

definition bool_str :: "bool \<Rightarrow> string" where
  "bool_str b = (if b then ''true'' else ''false'')"

fun nat_digits :: "nat \<Rightarrow> string" where
  "nat_digits n = (if n < 10 then [char_of (48 + n)] else nat_digits (n div 10) @ [char_of (48 + n mod 10)])"

declare nat_digits.simps [simp del]

definition int_str :: "int \<Rightarrow> string" where
  "int_str x = (if x < 0 then CHR ''-'' # nat_digits (nat (- x)) else nat_digits (nat x))"

definition config_c_str :: "(json \<Rightarrow> string) \<Rightarrow> config \<Rightarrow> string" where
  "config_c_str dump c =
     ''valid='' @ bool_str (cf_valid c) @ '',deviceId='' @ cf_deviceId c @ '',clientId='' @ cf_clientId c @
     '',clientSecret=****,host='' @ cf_host c @ '',modelIds='' @ bracketed (cf_modelIds c) @
     '',featureStores='' @ bracketed (cf_featureStores c) @
     '', databaseConfig='' @ bracketed (map dump (cf_tableInfos c)) @
     '', debug:'' @ bool_str (cf_debug c) @ '', maxInputsToSave:'' @ int_str (cf_maxInputsToSave c)"

section \<open>Facts\<close>

lemma strip_slashes_result:
  "strip_slashes host = Inr h \<Longrightarrow> h \<noteq> [] \<and> last h \<noteq> CHR ''/'' \<and> (\<exists>n. host = h @ replicate n (CHR ''/''))"
proof (induction host rule: strip_slashes.induct)
  case (1 host)
  show ?case
  proof (cases "host \<noteq> [] \<and> last host = CHR ''/''")
    case True
    then have "strip_slashes (butlast host) = Inr h" using "1.prems" by (simp add: strip_slashes.simps [of host])
    with "1.IH" True obtain n where "h \<noteq> []" "last h \<noteq> CHR ''/''" "butlast host = h @ replicate n (CHR ''/'')" by auto
    moreover have "host = butlast host @ [CHR ''/'']" using True by (metis append_butlast_last_id)
    ultimately have "host = h @ replicate (Suc n) (CHR ''/'')" by (simp add: replicate_append_same)
    with \<open>h \<noteq> []\<close> \<open>last h \<noteq> CHR ''/''\<close> show ?thesis by blast
  next
    case False
    with "1.prems" have "h = host" "host \<noteq> []" by (auto simp: strip_slashes.simps [of host] split: if_splits)
    with False show ?thesis by (intro conjI exI [of _ 0]) auto
  qed
qed

lemma strip_slashes_fault:
  "strip_slashes host = Inl (Out_Of_Bounds (-1)) \<longleftrightarrow> list_all (\<lambda>c. c = CHR ''/'') host"
proof (induction host rule: strip_slashes.induct)
  case (1 host)
  show ?case
  proof (cases "host = []")
    case False
    have *: "list_all (\<lambda>c. c = CHR ''/'') host \<longleftrightarrow>
        last host = CHR ''/'' \<and> list_all (\<lambda>c. c = CHR ''/'') (butlast host)"
      by (subst append_butlast_last_id [OF False, symmetric], subst list_all_append) auto
    show ?thesis
    proof (cases "last host = CHR ''/''")
      case True
      with "1.IH" [OF False True] * False show ?thesis by (simp add: strip_slashes.simps [of host])
    next
      case no: False
      with * False show ?thesis by (simp add: strip_slashes.simps [of host])
    qed
  qed (simp add: strip_slashes.simps)
qed

section \<open>Properties\<close>

text \<open>a configuration that is accepted has a host that is not empty and does not end in a slash, and is the given host up to trailing slashes.\<close>
theorem accepted_config_host:
  assumes "load_user_config parse s = Inr c" "cf_valid c"
  shows "cf_host c \<noteq> [] \<and> last (cf_host c) \<noteq> CHR ''/'' \<and>
    (\<exists>j n. parse s = Some j \<and> field j ''host'' get_string = Inr (cf_host c @ replicate n (CHR ''/'')))"
proof -
  obtain j where j: "parse s = Some j" "config_from_json j = Inr c"
    using assms by (auto simp: load_user_config_def parser_get_def get_json_def get_from_json_def new_config_def
        split: option.splits sum.splits json_error.splits)
  then obtain host where h: "field j ''host'' get_string = Inr host" "strip_slashes host = Inr (cf_host c)"
    by (auto simp: config_from_json_def pbind_Inr_iff lift_outcome_Inr_iff)
  from strip_slashes_result [OF h(2)] h(1) j(1) show ?thesis by auto
qed

definition demo_config :: "string \<Rightarrow> json" where
  "demo_config host = jobject [(''host'', JString host), (''deviceID'', JString ''d''), (''clientID'', JString ''c''),
     (''modelIDs'', JArray [JString ''m'']), (''clientSecret'', JString ''s'')]"

lemma accepted_config_host_witness:
  "\<exists>c. load_user_config (\<lambda>s. Some (demo_config s)) ''http://h//'' = Inr c \<and> cf_host c = ''http://h'' \<and>
    last (cf_host c) \<noteq> CHR ''/''"
proof -
  have "map_sum id (\<lambda>c. (cf_valid c, cf_host c)) (load_user_config (\<lambda>s. Some (demo_config s)) ''http://h//'')
      = Inr (True, ''http://h'')"
    by code_simp
  then obtain c where c: "load_user_config (\<lambda>s. Some (demo_config s)) ''http://h//'' = Inr c" "cf_valid c"
    "cf_host c = ''http://h''"
    by (cases "load_user_config (\<lambda>s. Some (demo_config s)) ''http://h//''") auto
  with accepted_config_host [OF c(1,2)] show ?thesis by blast
qed

text \<open>a host that consists of slashes only (or of nothing) is undefined behaviour, not a refused configuration.\<close>
theorem slashes_only_host:
  assumes "parse s = Some j" "field j ''host'' get_string = Inr host" "list_all (\<lambda>c. c = CHR ''/'') host"
    and "field j ''deviceID'' get_string = Inr d" "field j ''clientID'' get_string = Inr c"
    and "field j ''modelIDs'' (get_vector get_string) = Inr ms" "field j ''clientSecret'' get_string = Inr k"
    and "optional_field j ''featureStores'' (get_vector get_string) [] = Inr fs"
    and "optional_field j ''databaseConfig'' (get_vector Inr) [] = Inr ts"
    and "optional_field j ''maxInputsToSave'' get_int 0 = Inr n"
  shows "load_user_config parse s = Inl (Out_Of_Bounds (-1))"
  using assms strip_slashes_fault [of host]
  by (simp add: load_user_config_def parser_get_def get_json_def get_from_json_def config_from_json_def lift_outcome_def)

lemma slashes_only_host_witness:
  "load_user_config (\<lambda>s. Some (demo_config s)) ''//'' = Inl (Out_Of_Bounds (-1))"
proof (rule slashes_only_host [of _ _ "demo_config ''//''" "''//''" "''d''" "''c''" "[''m'']" "''s''" "[]" "[]" 0])
  show "field (demo_config ''//'') ''modelIDs'' (get_vector get_string) = Inr [''m'']" by code_simp
qed (simp_all, code_simp+)

end
