(* ===== verification/User_Events.thy ===== *)
theory User_Events
  imports Table_Store Config_Manager
begin

text \<open>
  \<open>nimblenet/UserEvents/UserEventsManager\<close>: the tables of user events, kept in
  memory (\<open>TableStore\<close>) and in SQLite.

  SQLite is a parameter: \<open>sq_exec db query\<close> is the new database, whether the query
  succeeded, and the rows handed to the callback (column name and value, \<open>None\<close>
  for NULL).  The text syntax of JSON is a parameter as in \<open>Native_Interface\<close>, and
  \<open>sq_round\<close> is the rounding of a \<open>double\<close> to \<open>float\<close>.
\<close>

type_synonym sql_row = "(string \<times> string option) list"

record 'db sql =
  sq_exec :: "'db \<Rightarrow> string \<Rightarrow> 'db \<times> bool \<times> sql_row list"
  sq_parse :: "string \<Rightarrow> json option"
  sq_dump :: "json \<Rightarrow> string"
  sq_round :: "rat \<Rightarrow> rat"

record ('f, 'd, 'db) user_events =
  ue_db :: 'db
  ue_tableStoreMap :: "(string, ('f, 'd) table_store) smap"
  ue_modelInputToTableNameMap :: "(string, string) smap"
  ue_debugMode :: bool

text \<open>A template instance: the operations on \<open>T\<close>, its subclass, and \<open>json::get<T>\<close>.\<close>

record ('v, 'f, 'd) instance_of =
  io_type :: "'v value_type"
  io_wrap :: "'v preprocessor \<Rightarrow> ('f, 'd) base_preprocessor"
  io_get :: "json \<Rightarrow> 'v parsed"

section \<open>Reading descriptions (\<open>UserEventsStruct.cpp\<close>)\<close>

definition no_table_info :: table_info where
  "no_table_info = \<lparr>ti_valid = False, ti_name = [], ti_schema = [], ti_expiryTimeInMins = 0\<rparr>"

definition table_info_from_json :: "json \<Rightarrow> table_info parsed" where
  "table_info_from_json j =
     pbind (field j ''tableName'' get_string) (\<lambda>n.
     pbind (field j ''schema'' get_string_map) (\<lambda>s.
     pbind (field j ''expiryInMins'' get_int64) (\<lambda>e.
       Inr \<lparr>ti_valid = True, ti_name = n, ti_schema = s, ti_expiryTimeInMins = e\<rparr>)))"

definition get_float :: "'db sql \<Rightarrow> json \<Rightarrow> rat parsed" where
  "get_float sq j = (case j of
     JInt x \<Rightarrow> Inr (rat_of_int (f32_of_int x))
   | JFloat r \<Rightarrow> Inr (sq_round sq r)
   | JBool b \<Rightarrow> Inr (if b then 1 else 0)
   | _ \<Rightarrow> Inl Type_Error)"

definition no_info :: "'v preprocessor_info" where
  "no_info = \<lparr>pi_rollingWindowsInSecs = [], pi_columnsToAggregate = [], pi_aggregateOperators = [],
     pi_groupColumns = [], pi_defaultVector = [], pi_tableName = [], pi_valid = False\<rparr>"

text \<open>The loop over the operations; \<open>(info, False)\<close> is the early return that leaves \<open>valid\<close> unset.\<close>

fun read_operations ::
  "(json \<Rightarrow> 'v parsed) \<Rightarrow> json list \<Rightarrow> 'v preprocessor_info \<Rightarrow> ('v preprocessor_info \<times> bool) parsed" where
  "read_operations get [] info = Inr (info, True)"
| "read_operations get (j # js) info =
     (case (jfind j ''columnName'', jfind j ''operator'', jfind j ''default'') of
        (Some c, Some op, Some d) \<Rightarrow>
          pbind (get_string c) (\<lambda>c'. pbind (get_string op) (\<lambda>op'. pbind (get d) (\<lambda>d'.
            read_operations get js (info\<lparr>
              pi_columnsToAggregate := pi_columnsToAggregate info @ [c'],
              pi_aggregateOperators := pi_aggregateOperators info @ [op'],
              pi_defaultVector := pi_defaultVector info @ [d']\<rparr>))))
      | _ \<Rightarrow> Inr (info, False))"

definition info_from_json :: "'db sql \<Rightarrow> (json \<Rightarrow> 'v parsed) \<Rightarrow> json \<Rightarrow> 'v preprocessor_info parsed" where
  "info_from_json sq get j =
     pbind (field j ''rollingWindowsInSecs'' (get_vector (get_float sq))) (\<lambda>ws.
     pbind (field j ''operations'' (get_vector Inr)) (\<lambda>opers.
     pbind (read_operations get opers (no_info\<lparr>pi_rollingWindowsInSecs := ws\<rparr>)) (\<lambda>(info, complete).
       if \<not> complete then Inr info
       else pbind (optional_field j ''tableName'' get_string (pi_tableName info)) (\<lambda>t.
            pbind (field j ''groupBy'' (get_vector get_string)) (\<lambda>g.
              Inr (info\<lparr>pi_tableName := t, pi_groupColumns := g, pi_valid := True\<rparr>))))))"

section \<open>Tables in the database\<close>

definition run_sql :: "'db sql \<Rightarrow> ('f, 'd, 'db) user_events \<Rightarrow> string \<Rightarrow> ('f, 'd, 'db) user_events \<times> bool \<times> sql_row list" where
  "run_sql sq m q = (let (db, ok, rows) = sq_exec sq (ue_db m) q in (m\<lparr>ue_db := db\<rparr>, ok, rows))"

fun schema_callback :: "sql_row list \<Rightarrow> string \<Rightarrow> string outcome" where
  "schema_callback [] out = Inr out"
| "schema_callback ([] # rows) out = schema_callback rows out"
| "schema_callback (((name, val) # cells) # rows) out =
     (if name = ''sql'' then (case val of None \<Rightarrow> Inl Dangling | Some s \<Rightarrow> schema_callback rows s)
      else schema_callback rows [])"

definition get_existing_create_table_command ::
  "'db sql \<Rightarrow> ('f, 'd, 'db) user_events \<Rightarrow> string \<Rightarrow> (string \<times> ('f, 'd, 'db) user_events) outcome" where
  "get_existing_create_table_command sq m tableName =
     (let (m1, ok, rows) = run_sql sq m (''SELECT sql FROM sqlite_schema where name='' @ [CHR 0x27] @ tableName @ [CHR 0x27] @ '';'') in
      ubind (schema_callback rows []) (\<lambda>out. Inr (if ok then out else [], m1)))"

definition create_table_query :: "table_info \<Rightarrow> string" where
  "create_table_query info =
     ''CREATE TABLE '' @ ti_name info @ '' (TIMESTAMP INT'' @
     concat (map (\<lambda>(c, t). '', '' @ c @ '' '' @ t) (ti_schema info)) @ '') STRICT;''"

definition create_table_in_db ::
  "'db sql \<Rightarrow> ('f, 'd, 'db) user_events \<Rightarrow> table_info \<Rightarrow> (bool \<times> ('f, 'd, 'db) user_events) outcome" where
  "create_table_in_db sq m info =
     (let query = create_table_query info in
      ubind (get_existing_create_table_command sq m (ti_name info)) (\<lambda>(existing, m1).
        let create = (\<lambda>m. let (m', ok, rows) = run_sql sq m query in (ok, m')) in
        if existing = [] then Inr (create m1)
        else if existing @ '';'' = query then Inr (True, m1)
        else if \<not> ue_debugMode m then Inr (False, m1)
        else let (m2, ok, rows) = run_sql sq m1 (''Drop table '' @ ti_name info @ '';'') in
             if \<not> ok then Inr (False, m2) else Inr (create m2)))"

definition delete_old_rows_from_table_in_db ::
  "'db sql \<Rightarrow> int \<Rightarrow> ('f, 'd, 'db) user_events \<Rightarrow> table_info \<Rightarrow> (bool \<times> ('f, 'd, 'db) user_events) outcome" where
  "delete_old_rows_from_table_in_db sq now m info =
     ubind (signed_result 64 (ti_expiryTimeInMins info * 60)) (\<lambda>seconds.
     ubind (signed_result 64 (now - seconds)) (\<lambda>expiry.
       let (m', ok, rows) = run_sql sq m (''DELETE FROM '' @ ti_name info @ '' where TIMESTAMP <'' @ int_str expiry) in
       Inr (ok, m')))"

definition create_table ::
  "'db sql \<Rightarrow> int \<Rightarrow> ('f, 'd, 'db) user_events \<Rightarrow> json \<Rightarrow> (bool \<times> ('f, 'd, 'db) user_events) outcome" where
  "create_table sq now m tableInfoJson =
     ubind (get_from_json no_table_info table_info_from_json tableInfoJson) (\<lambda>info.
       if \<not> ti_valid info then Inr (False, m)
       else ubind (create_table_in_db sq m info) (\<lambda>(ok, m1).
         if \<not> ok then Inr (False, m1)
         else let m2 = m1\<lparr>ue_tableStoreMap := smap_put (ti_name info) (new_table_store info) (ue_tableStoreMap m1)\<rparr> in
              ubind (delete_old_rows_from_table_in_db sq now m2 info) (\<lambda>(deleted, m3). Inr (True, m3))))"

text \<open>The constructor opens the database and creates the tables; failures are only logged.\<close>

definition new_user_events ::
  "'db sql \<Rightarrow> (nat \<Rightarrow> int) \<Rightarrow> 'db \<Rightarrow> json list \<Rightarrow> bool \<Rightarrow> ('f, 'd, 'db) user_events outcome" where
  "new_user_events sq clk db tableInfos debug =
     ufold (\<lambda>(i, j) m. ubind (create_table sq (clk i) m j) (\<lambda>(ok, m'). Inr m')) (enumerate 0 tableInfos)
       \<lparr>ue_db = db, ue_tableStoreMap = [], ue_modelInputToTableNameMap = [], ue_debugMode = debug\<rparr>"

section \<open>Preprocessors\<close>

text \<open>\<open>stoll\<close>: white space, a sign, digits; anything else throws.\<close>

definition stoll :: "string \<Rightarrow> int outcome" where
  "stoll s = (case extract_int (- (2 ^ 63)) (2 ^ 63 - 1) s of (True, Some v) \<Rightarrow> Inr v | _ \<Rightarrow> Inl Uncaught)"

text \<open>One row of \<open>SELECT *\<close>: the timestamp, if found, and the cells.\<close>

fun read_sql_row :: "sql_row \<Rightarrow> int option \<Rightarrow> (string, string) smap \<Rightarrow> (int option \<times> (string, string) smap) outcome" where
  "read_sql_row [] ts row = Inr (ts, row)"
| "read_sql_row ((name, val) # cells) ts row =
     (if name = ''TIMESTAMP''
      then (case val of
              None \<Rightarrow> Inl Dangling
            | Some s \<Rightarrow> ubind (stoll s) (\<lambda>t. read_sql_row cells (Some t) row))
      else read_sql_row cells ts (smap_put name (case val of None \<Rightarrow> ''NULL'' | Some s \<Rightarrow> s) row))"

definition add_rows_to_table_store ::
  "('f, 'd) float_ops \<Rightarrow> (nat \<Rightarrow> nat \<Rightarrow> int) \<Rightarrow> sql_row \<Rightarrow> ('f, 'd) table_store \<Rightarrow> ('f, 'd) table_store outcome" where
  "add_rows_to_table_store F clk cells s =
     ubind (read_sql_row cells None []) (\<lambda>(ts, row).
       case ts of None \<Rightarrow> Inr s | Some t \<Rightarrow> add_row F clk s \<lparr>tr_timestamp = t, tr_row = row\<rparr>)"

text \<open>\<open>rowclk\<close> is the clock while the rows are read, \<open>clk\<close> while the preprocessor is filled.\<close>

definition ue_create_preprocessor ::
  "'db sql \<Rightarrow> ('f, 'd) float_ops \<Rightarrow> ('v, 'f, 'd) instance_of \<Rightarrow> (nat \<Rightarrow> nat \<Rightarrow> nat \<Rightarrow> int) \<Rightarrow> (nat \<Rightarrow> nat \<Rightarrow> int)
    \<Rightarrow> ('f, 'd, 'db) user_events \<Rightarrow> string \<Rightarrow> json \<Rightarrow> (bool \<times> ('f, 'd, 'db) user_events) outcome" where
  "ue_create_preprocessor sq F I rowclk clk m modelInputIdentifier preprocessorJson =
     ubind (get_from_json no_info (info_from_json sq (io_get I)) preprocessorJson) (\<lambda>info.
       if \<not> pi_valid info then Inr (False, m)
       else case smap_find (ue_tableStoreMap m) (pi_tableName info) of
         None \<Rightarrow> Inr (False, m)
       | Some s \<Rightarrow>
           let fill = (if is_table_ready_to_be_filled s then Inr (True, m)
             else let m0 = m\<lparr>ue_tableStoreMap := smap_put (pi_tableName info) (set_to_fill_in_memory s) (ue_tableStoreMap m)\<rparr>;
                      (m1, ok, rows) = run_sql sq m0 (''SELECT * from '' @ pi_tableName info @ '' ORDER BY TIMESTAMP'') in
                  ubind (ufold (\<lambda>(i, cells) s. add_rows_to_table_store F (rowclk i) cells s) (enumerate 0 rows)
                           (set_to_fill_in_memory s)) (\<lambda>s'.
                    Inr (ok, m1\<lparr>ue_tableStoreMap := smap_put (pi_tableName info) s' (ue_tableStoreMap m1)\<rparr>))) in
           ubind fill (\<lambda>(ok, m1).
             if \<not> ok then Inr (False, m1)
             else let m2 = m1\<lparr>ue_modelInputToTableNameMap :=
                        smap_put modelInputIdentifier (pi_tableName info) (ue_modelInputToTableNameMap m1)\<rparr> in
               case smap_find (ue_tableStoreMap m2) (pi_tableName info) of
                 None \<Rightarrow> Inl Dangling
               | Some s1 \<Rightarrow>
                   ubind (create_preprocessor (io_type I) (io_wrap I) clk s1 modelInputIdentifier info) (\<lambda>(s2, ret).
                     Inr (ret, m2\<lparr>ue_tableStoreMap := smap_put (pi_tableName info) s2 (ue_tableStoreMap m2)\<rparr>))))"

section \<open>Events\<close>

definition get_value_as_string :: "'db sql \<Rightarrow> json \<Rightarrow> string" where
  "get_value_as_string sq j = (case j of JString s \<Rightarrow> s | _ \<Rightarrow> sq_dump sq j)"

text \<open>
  The loop over \<open>items()\<close>: an array or a scalar has items too, but then
  \<open>eventMapTable[column.key()]\<close> throws, and nothing catches it.
\<close>

definition event_items :: "json \<Rightarrow> (string \<times> json) list outcome" where
  "event_items j = (case j of
     JObject m \<Rightarrow> Inr m
   | JNull \<Rightarrow> Inr []
   | JArray [] \<Rightarrow> Inr []
   | _ \<Rightarrow> Inl Uncaught)"

definition insert_query :: "string \<Rightarrow> (string \<times> string) list \<Rightarrow> int \<Rightarrow> string" where
  "insert_query tableName cells now =
     ''INSERT INTO '' @ tableName @ '' (TIMESTAMP '' @ concat (map (\<lambda>(c, v). '' ,'' @ c @ '' '') cells) @
     '') VALUES ('' @ [CHR 0x27] @ int_str now @ [CHR 0x27] @ '' '' @
     concat (map (\<lambda>(c, v). '', '' @ [CHR 0x27] @ v @ [CHR 0x27] @ '' '') cells) @ '');''"

text \<open>\<open>now\<close> and \<open>now'\<close> are the two readings of the clock, for memory and for the database.\<close>

definition add_event ::
  "'db sql \<Rightarrow> ('f, 'd) float_ops \<Rightarrow> (nat \<Rightarrow> nat \<Rightarrow> int) \<Rightarrow> int \<Rightarrow> int \<Rightarrow> ('f, 'd, 'db) user_events \<Rightarrow> string \<Rightarrow> string
    \<Rightarrow> (bool \<times> ('f, 'd, 'db) user_events) outcome" where
  "add_event sq F clk now now' m eventMapJsonString tableName =
     (case smap_find (ue_tableStoreMap m) tableName of
        None \<Rightarrow> Inr (False, m)
      | Some s \<Rightarrow>
          (case sq_parse sq eventMapJsonString of
             None \<Rightarrow> Inr (False, m)
           | Some j \<Rightarrow>
               ubind (event_items j) (\<lambda>items.
                 let cells = map (\<lambda>(c, v). (c, get_value_as_string sq v)) items;
                     r = \<lparr>tr_timestamp = now, tr_row = smap_of cells\<rparr> in
                 if \<not> check_columns_of_row s r then Inr (False, m)
                 else let (m1, ok, rows) = run_sql sq m (insert_query tableName cells now') in
                      if \<not> ok then Inr (False, m1)
                      else ubind (add_row F clk s r) (\<lambda>s'.
                             Inr (True, m1\<lparr>ue_tableStoreMap := smap_put tableName s' (ue_tableStoreMap m1)\<rparr>)))))"

definition ue_get_model_input ::
  "('f, 'd) float_ops \<Rightarrow> (nat \<Rightarrow> int \<Rightarrow> int) \<Rightarrow> ('f, 'd, 'db) user_events \<Rightarrow> string \<Rightarrow> single_input list \<Rightarrow> int
    \<Rightarrow> (('f, 'd, 'db) user_events \<times> ('f, 'd) any_input option) outcome" where
  "ue_get_model_input F clk m modelInputIdentifier inps preprocessorInputLength =
     (case smap_find (ue_modelInputToTableNameMap m) modelInputIdentifier of
        None \<Rightarrow> Inr (m, None)
      | Some tableName \<Rightarrow>
          (case smap_find (ue_tableStoreMap m) tableName of
             None \<Rightarrow> Inr (m, None)
           | Some s \<Rightarrow>
               ubind (table_get_model_input F clk s modelInputIdentifier inps preprocessorInputLength) (\<lambda>(s', r).
                 Inr (m\<lparr>ue_tableStoreMap := smap_put tableName s' (ue_tableStoreMap m)\<rparr>, r))))"

end
