(* ===== verification/User_Events_Contract.thy ===== *)
theory User_Events_Contract
  imports User_Events Table_Store_Contract
begin

text \<open>
  What the user-event manager guarantees: a rejected event leaves memory as it was,
  an accepted event is in memory as it is in the database; and two ways in which it
  fails: events that are not objects, and a failed load of the history.
\<close>

lemma run_sql_sel [simp]:
  "run_sql sq m q = (m', ok, rows) \<Longrightarrow> ue_tableStoreMap m' = ue_tableStoreMap m"
  "run_sql sq m q = (m', ok, rows) \<Longrightarrow> ue_modelInputToTableNameMap m' = ue_modelInputToTableNameMap m"
  "run_sql sq m q = (m', ok, rows) \<Longrightarrow> ue_debugMode m' = ue_debugMode m"
  by (auto simp: run_sql_def split: prod.splits)

text \<open>Every table is well formed and stored under its name.\<close>

definition tables_inv :: "('f, 'd, 'db) user_events \<Rightarrow> bool" where
  "tables_inv m =
     (smap_ok (ue_tableStoreMap m) \<and> (\<forall>t s. smap_find (ue_tableStoreMap m) t = Some s \<longrightarrow> store_inv s))"

lemma add_event_cases:
  assumes "add_event sq F clk now now' m text tableName = Inr (ok, m')"
  shows "\<not> ok \<and> ue_tableStoreMap m' = ue_tableStoreMap m \<or>
    (\<exists>s j items s' r. ok \<and> smap_find (ue_tableStoreMap m) tableName = Some s \<and> sq_parse sq text = Some j \<and>
       event_items j = Inr items \<and>
       r = \<lparr>tr_timestamp = now, tr_row = smap_of (map (\<lambda>(c, v). (c, get_value_as_string sq v)) items)\<rparr> \<and>
       check_columns_of_row s r \<and> add_row F clk s r = Inr s' \<and>
       ue_tableStoreMap m' = smap_put tableName s' (ue_tableStoreMap m))"
  using assms
  by (auto simp: add_event_def ubind_Inr_iff Let_def split: option.splits if_splits prod.splits)

lemma add_event_inv:
  assumes "tables_inv m" "add_event sq F clk now now' m text tableName = Inr (ok, m')"
  shows "tables_inv m'"
  using add_event_cases [OF assms(2)]
proof (elim disjE exE conjE)
  fix s j items s' r
  assume s: "smap_find (ue_tableStoreMap m) tableName = Some s" and ck: "check_columns_of_row s r"
    and r: "r = \<lparr>tr_timestamp = now, tr_row = smap_of (map (\<lambda>(c, v). (c, get_value_as_string sq v)) items)\<rparr>"
    and run: "add_row F clk s r = Inr s'" and m': "ue_tableStoreMap m' = smap_put tableName s' (ue_tableStoreMap m)"
  have "store_inv s" using assms(1) s by (simp add: tables_inv_def)
  from add_row_inv [OF this ck _ run] have "store_inv s'" by (simp add: r)
  with assms(1) m' show ?thesis by (simp add: tables_inv_def)
qed (use assms(1) in \<open>simp add: tables_inv_def\<close>)

text \<open>an event that is rejected, for whatever reason, leaves every table in memory as it was.\<close>
theorem rejected_event_no_effect:
  assumes "add_event sq F clk now now' m text tableName = Inr (False, m')"
  shows "ue_tableStoreMap m' = ue_tableStoreMap m \<and>
    ue_modelInputToTableNameMap m' = ue_modelInputToTableNameMap m"
  using assms
  by (auto simp: add_event_def ubind_Inr_iff Let_def split: option.splits if_splits prod.splits)

text \<open>C15: an accepted event is appended to the log of its table (once the table is in memory), every column holding the string form of the value the event gives for it, and no other table changes.\<close>
theorem accepted_event_recorded:
  assumes "tables_inv m" "add_event sq F clk now now' m text tableName = Inr (True, m')"
    and "smap_find (ue_tableStoreMap m) tableName = Some s" "ts_isReadyToBeFilled s"
  shows "\<exists>s' e kvs. smap_find (ue_tableStoreMap m') tableName = Some s' \<and> ts_allEvents s' = ts_allEvents s @ [e] \<and>
    map_option event_items (sq_parse sq text) = Some (Inr kvs) \<and> te_timestamp e = now \<and>
    list_all (\<lambda>(c, k). Some (te_row e ! nat k) = map_option (get_value_as_string sq) (map_of (rev kvs) c))
      (ts_columnToIdMap s') \<and>
    (\<forall>t. t \<noteq> tableName \<longrightarrow> smap_find (ue_tableStoreMap m') t = smap_find (ue_tableStoreMap m) t)"
proof -
  obtain j items s' r where *: "sq_parse sq text = Some j" "event_items j = Inr items"
    "r = \<lparr>tr_timestamp = now, tr_row = smap_of (map (\<lambda>(c, v). (c, get_value_as_string sq v)) items)\<rparr>"
    "check_columns_of_row s r" "add_row F clk s r = Inr s'"
    "ue_tableStoreMap m' = smap_put tableName s' (ue_tableStoreMap m)"
    using add_event_cases [OF assms(2)] assms(3) by auto
  have inv: "store_inv s" using assms(1,3) by (simp add: tables_inv_def)
  have ids: "ids_inv s" using inv by (simp add: store_inv_def)
  have ok: "smap_ok (tr_row r)" by (simp add: *(3))
  note row = checked_row_cells [OF ids *(4) ok]
  obtain bs gs where s': "s' = s\<lparr>ts_preprocessors := bs, ts_allEvents := ts_allEvents s @
      [\<lparr>te_groups = gs, te_timestamp = tr_timestamp r, te_row = map snd (tr_row r)\<rparr>]\<rparr>"
    using add_row_result [OF assms(4) row(1) *(5)] by blast
  have cell: "map_option (get_value_as_string sq) (map_of (rev items) c) = Some (map snd (tr_row r) ! nat k)"
    if "(c, k) \<in> set (ts_columnToIdMap s)" for c k
  proof -
    have "smap_find (ts_columnToIdMap s) c = Some k" using that ids by (simp add: smap_find_in ids_inv_def)
    then have k: "nat k < length (tr_row r)" "ts_columns s ! nat k = c" using ids_inv_find [OF ids] row(3) by auto
    have "smap_find (tr_row r) c = Some (map snd (tr_row r) ! nat k)"
      by (rule smap_nth [OF ok k(1)]) (simp add: row(2) k(2))
    then show ?thesis by (simp add: *(3) smap_find_of rev_map map_of_map)
  qed
  let ?e = "\<lparr>te_groups = gs, te_timestamp = tr_timestamp r, te_row = map snd (tr_row r)\<rparr>"
  have "list_all (\<lambda>(c, k). Some (te_row ?e ! nat k) = map_option (get_value_as_string sq) (map_of (rev items) c))
      (ts_columnToIdMap s')"
    unfolding list_all_iff s' by (auto simp: cell simp del: map_option_eq_Some map_of_eq_Some_iff)
  moreover have "te_timestamp ?e = now" by (simp add: *(3))
  moreover have "ts_allEvents s' = ts_allEvents s @ [?e]" by (simp add: s')
  moreover have "map_option event_items (sq_parse sq text) = Some (Inr items)" by (simp add: *(1,2))
  moreover have "smap_find (ue_tableStoreMap m') tableName = Some s'"
    "\<forall>t. t \<noteq> tableName \<longrightarrow> smap_find (ue_tableStoreMap m') t = smap_find (ue_tableStoreMap m) t"
    by (simp_all add: *(6))
  ultimately show ?thesis by blast
qed

text \<open>an event that is a non-empty array, or a number, string or boolean, makes the SDK throw an exception that nobody catches.\<close>
theorem non_object_event_uncaught:
  assumes "smap_has (ue_tableStoreMap m) tableName" "sq_parse sq text = Some j"
    and "case j of JObject kvs \<Rightarrow> False | JNull \<Rightarrow> False | JArray js \<Rightarrow> js \<noteq> [] | _ \<Rightarrow> True"
  shows "add_event sq F clk now now' m text tableName = Inl Uncaught"
  using assms by (auto simp: add_event_def smap_has_def event_items_def split: json.splits list.splits)

text \<open>if reading the history of a table fails, the table is marked as loaded all the same, and no later call reads the history again: the next preprocessor of that table is built on whatever rows the failed query delivered.\<close>
theorem failed_load_loses_history:
  assumes "get_from_json no_info (info_from_json sq (io_get I)) j = Inr info" "pi_valid info"
    and "smap_find (ue_tableStoreMap m) (pi_tableName info) = Some s" "\<not> ts_isReadyToBeFilled s"
    and "sq_exec sq (ue_db m) (''SELECT * from '' @ pi_tableName info @ '' ORDER BY TIMESTAMP'') = (db', False, [])"
  shows "\<exists>m'. ue_create_preprocessor sq F I rowclk clk m ident j = Inr (False, m') \<and>
    smap_find (ue_tableStoreMap m') (pi_tableName info) = Some (set_to_fill_in_memory s) \<and>
    (\<forall>r m''. ue_create_preprocessor sq F I rowclk' clk' m' ident j = Inr (r, m'') \<longrightarrow> ue_db m'' = ue_db m')"
proof -
  let ?t = "pi_tableName info" and ?s = "set_to_fill_in_memory s"
  let ?m = "m\<lparr>ue_db := db', ue_tableStoreMap := smap_put ?t ?s (smap_put ?t ?s (ue_tableStoreMap m))\<rparr>"
  have "ue_create_preprocessor sq F I rowclk clk m ident j = Inr (False, ?m)"
    using assms by (simp add: ue_create_preprocessor_def is_table_ready_to_be_filled_def run_sql_def Let_def)
  moreover have "smap_find (ue_tableStoreMap ?m) ?t = Some ?s" by simp
  moreover have "ue_db m'' = ue_db ?m" if "ue_create_preprocessor sq F I rowclk' clk' ?m ident j = Inr (r, m'')" for r m''
    using that assms(1,2)
    by (auto simp: ue_create_preprocessor_def is_table_ready_to_be_filled_def set_to_fill_in_memory_def ubind_Inr_iff Let_def)
  ultimately show ?thesis by blast
qed

text \<open>outside debug mode a table whose definition changed is refused, and the database is only asked, not written.\<close>
theorem changed_schema_refused:
  assumes "\<not> ue_debugMode m" "sq_exec sq (ue_db m) (''SELECT sql FROM sqlite_schema where name='' @ [CHR 0x27] @
      ti_name info @ [CHR 0x27] @ '';'') = (db', True, [[(''sql'', Some old)]])"
    and "old \<noteq> []" "old @ '';'' \<noteq> create_table_query info"
  shows "create_table_in_db sq m info = Inr (False, m\<lparr>ue_db := db'\<rparr>)"
  using assms by (simp add: create_table_in_db_def get_existing_create_table_command_def run_sql_def Let_def)

section \<open>An example manager\<close>

definition demo_sql :: "bool \<Rightarrow> nat sql" where
  "demo_sql works = \<lparr>sq_exec = (\<lambda>db q. (Suc db, works, if take 10 q = ''SELECT sql'' then [[(''sql'', Some ''old'')]] else [])),
     sq_parse = (\<lambda>s. if s = ''click'' then Some (jobject [(''price'', JInt 7), (''user'', JString ''a'')])
                     else if s = ''[1]'' then Some (JArray [JInt 1]) else None),
     sq_dump = (\<lambda>j. case j of JInt x \<Rightarrow> int_str x | _ \<Rightarrow> ''?''), sq_round = id\<rparr>"

definition demo_manager :: "(32 word, 64 word, nat) user_events" where
  "demo_manager = \<lparr>ue_db = 0, ue_tableStoreMap = [(''clicks'', demo_created)],
     ue_modelInputToTableNameMap = [(''input'', ''clicks'')], ue_debugMode = False\<rparr>"

definition demo_fresh :: "(32 word, 64 word, nat) user_events" where
  "demo_fresh = demo_manager\<lparr>ue_tableStoreMap := [(''clicks'', new_table_store (ts_tableInfo demo_table))]\<rparr>"

definition demo_instance :: "(32 word, 32 word, 64 word) instance_of" where
  "demo_instance = \<lparr>io_type = int_type, io_wrap = PFloat, io_get = (\<lambda>j. case get_int j of Inr x \<Rightarrow> Inr (word_of_int x) | Inl e \<Rightarrow> Inl e)\<rparr>"

definition demo_description :: json where
  "demo_description = jobject [(''rollingWindowsInSecs'', JArray [JInt 100]), (''operations'', JArray [jobject
     [(''columnName'', JString ''price''), (''operator'', JString ''Sum''), (''default'', JInt 0)]]),
     (''tableName'', JString ''clicks''), (''groupBy'', JArray [JString ''user''])]"

lemma rejected_event_no_effect_witness:
  "\<exists>m'. add_event (demo_sql False) demo_ops (\<lambda>k j. 6) 5 5 demo_manager ''click'' ''clicks'' = Inr (False, m') \<and>
    ue_tableStoreMap m' = ue_tableStoreMap demo_manager"
proof -
  have "map_sum id fst (add_event (demo_sql False) demo_ops (\<lambda>k j. 6) 5 5 demo_manager ''click'' ''clicks'') = Inr False"
    by code_simp
  then obtain m' where m': "add_event (demo_sql False) demo_ops (\<lambda>k j. 6) 5 5 demo_manager ''click'' ''clicks'' = Inr (False, m')"
    by (cases "add_event (demo_sql False) demo_ops (\<lambda>k j. 6) 5 5 demo_manager ''click'' ''clicks''") auto
  with rejected_event_no_effect [OF m'] show ?thesis by blast
qed

lemma accepted_event_recorded_witness:
  "\<exists>m' s'. add_event (demo_sql True) demo_ops (\<lambda>k j. 6) 5 5 demo_manager ''click'' ''clicks'' = Inr (True, m') \<and>
    smap_find (ue_tableStoreMap m') ''clicks'' = Some s' \<and> length (ts_allEvents s') = 1"
proof -
  have "map_sum id fst (add_event (demo_sql True) demo_ops (\<lambda>k j. 6) 5 5 demo_manager ''click'' ''clicks'') = Inr True"
    by code_simp
  then obtain m' where m': "add_event (demo_sql True) demo_ops (\<lambda>k j. 6) 5 5 demo_manager ''click'' ''clicks'' = Inr (True, m')"
    by (cases "add_event (demo_sql True) demo_ops (\<lambda>k j. 6) 5 5 demo_manager ''click'' ''clicks''") auto
  have inv: "tables_inv demo_manager" using demo_inv by (simp add: tables_inv_def demo_manager_def)
  have find: "smap_find (ue_tableStoreMap demo_manager) ''clicks'' = Some demo_created" by (simp add: demo_manager_def)
  have "ts_allEvents demo_created = []" by code_simp
  with accepted_event_recorded [OF inv m' find demo_schema(4)] m' show ?thesis by auto
qed

lemma non_object_event_uncaught_witness:
  "add_event (demo_sql True) demo_ops (\<lambda>k j. 6) 5 5 demo_manager ''[1]'' ''clicks'' = Inl Uncaught"
  by (rule non_object_event_uncaught [where j = "JArray [JInt 1]"])
    (simp_all add: demo_manager_def demo_sql_def smap_has_def)

lemma failed_load_loses_history_witness:
  "\<exists>m'. ue_create_preprocessor (demo_sql False) demo_ops demo_instance (\<lambda>i k j. 6) (\<lambda>i j. 6) demo_fresh ''input'' demo_description
    = Inr (False, m')"
proof -
  let ?info = "no_info\<lparr>pi_rollingWindowsInSecs := [100], pi_columnsToAggregate := [''price''], pi_aggregateOperators := [''Sum''],
    pi_defaultVector := [0], pi_tableName := ''clicks'', pi_groupColumns := [''user''], pi_valid := True\<rparr> :: i32 preprocessor_info"
  have 1: "get_from_json no_info (info_from_json (demo_sql False) (io_get demo_instance)) demo_description = Inr ?info"
    by code_simp
  have 2: "smap_find (ue_tableStoreMap demo_fresh) (pi_tableName ?info) = Some (new_table_store (ts_tableInfo demo_table))"
    by (simp add: demo_fresh_def)
  have 3: "\<not> ts_isReadyToBeFilled (new_table_store (ts_tableInfo demo_table) :: (32 word, 64 word) table_store)" by code_simp
  have 4: "sq_exec (demo_sql False) (ue_db demo_fresh) (''SELECT * from '' @ pi_tableName ?info @ '' ORDER BY TIMESTAMP'')
      = (Suc (ue_db demo_fresh), False, [])" by (simp add: demo_sql_def)
  have 5: "pi_valid ?info" by simp
  from failed_load_loses_history [OF 1 5 2 3 4, where F = demo_ops and rowclk = "\<lambda>i k j. 6" and clk = "\<lambda>i j. 6"
    and ident = "''input''"] show ?thesis by blast
qed

lemma changed_schema_refused_witness:
  "create_table_in_db (demo_sql True) demo_manager (ts_tableInfo demo_table) = Inr (False, demo_manager\<lparr>ue_db := 1\<rparr>)"
proof (rule changed_schema_refused [where old = "''old''"])
  show "''old'' @ '';'' \<noteq> create_table_query (ts_tableInfo demo_table)" by code_simp
qed (simp_all add: demo_manager_def demo_sql_def)

end
