(* ===== verification/Native_Interface.thy ===== *)
theory Native_Interface
  imports Json_Model
begin

text \<open>
  \<open>nimblenet/NativeInterface\<close> and the interface of the platform clients
  (\<open>linux\<close>, \<open>android\<close>): files under \<open>HOMEDIR\<close> and HTTP requests.

  What the platform does is a parameter: \<open>pf_net n r\<close> is the answer to the \<open>n\<close>-th
  request \<open>r\<close>, \<open>pf_parse\<close> and \<open>pf_dump\<close> are the text syntax of JSON, \<open>pf_writable\<close>
  says which files can be opened for writing (a failed \<open>ofstream\<close> is not noticed).
  The state keeps the files and the requests sent so far.
\<close>

section \<open>State and parameters\<close>

record net_request =
  nr_body :: string
  nr_headers :: string
  nr_url :: string
  nr_method :: string

record c_response =
  cr_statusCode :: int
  cr_body :: "string option"
  cr_bodyLength :: int

record platform =
  pf_net :: "nat \<Rightarrow> net_request \<Rightarrow> c_response"
  pf_parse :: "string \<Rightarrow> json option"
  pf_dump :: "json \<Rightarrow> string"
  pf_writable :: "string \<Rightarrow> bool"

record device =
  dv_home :: string
  dv_files :: "(string, string) smap"
  dv_sent :: "net_request list"

section \<open>Files\<close>

definition get_file_from_device :: "device \<Rightarrow> string \<Rightarrow> string option" where
  "get_file_from_device d fileName = smap_find (dv_files d) (dv_home d @ fileName)"

text \<open>\<open>save_file_on_device\<close> reports success in every case.\<close>

definition save_file_on_device :: "platform \<Rightarrow> device \<Rightarrow> string \<Rightarrow> string \<Rightarrow> bool \<Rightarrow> device \<times> bool" where
  "save_file_on_device pf d content fileName overWrite =
     (let path = dv_home d @ fileName in
      if \<not> pf_writable pf path then (d, True)
      else if overWrite then (d\<lparr>dv_files := smap_put path content (dv_files d)\<rparr>, True)
      else (d\<lparr>dv_files := smap_put path (smap_at [] (dv_files d) path @ content) (dv_files d)\<rparr>, True))"

section \<open>Requests\<close>

text \<open>
  \<open>NetworkResponse\<close> replaces a missing body by a one-byte buffer holding \<open>NUL\<close>; the
  length that came with it is kept.
\<close>

definition network_response :: "c_response \<Rightarrow> c_response" where
  "network_response r = (case cr_body r of None \<Rightarrow> r\<lparr>cr_body := Some [char_of (0 :: nat)]\<rparr> | Some b \<Rightarrow> r)"

definition send_request :: "platform \<Rightarrow> device \<Rightarrow> net_request \<Rightarrow> c_response \<times> device" where
  "send_request pf d r =
     (network_response (pf_net pf (length (dv_sent d)) r), d\<lparr>dv_sent := dv_sent d @ [r]\<rparr>)"

text \<open>\<open>string(r.body, r.bodyLength)\<close> and \<open>string(r.body)\<close>.\<close>

definition body_string :: "c_response \<Rightarrow> string outcome" where
  "body_string r = (case cr_body r of
     None \<Rightarrow> Inl Dangling
   | Some b \<Rightarrow> if 0 \<le> cr_bodyLength r \<and> cr_bodyLength r \<le> int (length b)
               then Inr (take (nat (cr_bodyLength r)) b) else Inl (Out_Of_Bounds (cr_bodyLength r)))"

definition body_c_string :: "c_response \<Rightarrow> string outcome" where
  "body_c_string r = (case cr_body r of
     None \<Rightarrow> Inl Dangling
   | Some b \<Rightarrow> if char_of (0 :: nat) \<in> set b then Inr (takeWhile (\<lambda>c. c \<noteq> char_of (0 :: nat)) b)
               else Inl (Out_Of_Bounds (int (length b))))"

section \<open>The interface of a file store\<close>

locale file_store =
  fixes load :: "'d \<Rightarrow> string \<Rightarrow> string option"
    and save :: "'d \<Rightarrow> string \<Rightarrow> string \<Rightarrow> 'd"
    and can :: "string \<Rightarrow> bool"
    and ok :: "'d \<Rightarrow> bool"
  assumes load_save: "ok d \<Longrightarrow> can f \<Longrightarrow> load (save d c f) g = (if g = f then Some c else load d g)"
    and ok_save: "ok d \<Longrightarrow> ok (save d c f)"
    and save_fails: "ok d \<Longrightarrow> \<not> can f \<Longrightarrow> save d c f = d"
begin

lemma load_other: "ok d \<Longrightarrow> g \<noteq> f \<Longrightarrow> load (save d c f) g = load d g"
  by (cases "can f") (simp_all add: load_save save_fails)

lemma load_two:
  assumes "ok d" "can f" "can g" "f \<noteq> g"
  shows "load (save (save d a f) b g) f = Some a" "load (save (save d a f) b g) g = Some b"
  using assms by (simp_all add: load_save ok_save)

end

definition device_ok :: "device \<Rightarrow> bool" where
  "device_ok d = smap_ok (dv_files d)"

definition saved :: "platform \<Rightarrow> device \<Rightarrow> string \<Rightarrow> string \<Rightarrow> device" where
  "saved pf d content fileName = fst (save_file_on_device pf d content fileName True)"

text \<open>A home directory is fixed by the initialisation.\<close>

definition at_home :: "string \<Rightarrow> device \<Rightarrow> bool" where
  "at_home h d = (device_ok d \<and> dv_home d = h)"

interpretation device_files: file_store get_file_from_device "saved pf" "\<lambda>f. pf_writable pf (h @ f)" "at_home h"
  for pf h
proof unfold_locales
  fix d c f g assume "at_home h d" "pf_writable pf (h @ f)"
  then show "get_file_from_device (saved pf d c f) g = (if g = f then Some c else get_file_from_device d g)"
    by (simp add: get_file_from_device_def saved_def save_file_on_device_def at_home_def device_ok_def Let_def)
next
  fix d c f assume "at_home h d"
  then show "at_home h (saved pf d c f)"
    by (simp add: saved_def save_file_on_device_def at_home_def device_ok_def Let_def)
next
  fix d c f assume "at_home h d" "\<not> pf_writable pf (h @ f)"
  then show "saved pf d c f = d"
    by (simp add: saved_def save_file_on_device_def at_home_def Let_def)
qed

lemma save_file_eq: "save_file_on_device pf d content fileName True = (saved pf d content fileName, True)"
  by (simp add: saved_def save_file_on_device_def Let_def)

lemma saved_sel [simp]:
  "dv_sent (saved pf d c f) = dv_sent d" "dv_home (saved pf d c f) = dv_home d"
  by (simp_all add: saved_def save_file_on_device_def Let_def)

lemma send_request_sent [simp]: "dv_sent (snd (send_request pf d r)) = dv_sent d @ [r]"
  by (simp add: send_request_def)

lemma send_request_body: "\<exists>b. cr_body (fst (send_request pf d r)) = Some b"
  by (auto simp: send_request_def network_response_def split: option.split)

lemma body_string_Dangling: "body_string (fst (send_request pf d r)) \<noteq> Inl Dangling"
  using send_request_body [of pf d r] by (auto simp: body_string_def split: if_splits)

end
