(* ===== verification/Server_Api.thy ===== *)
theory Server_Api
  imports Native_Interface Config_Manager
begin

text \<open>
  \<open>nimblenet/ServerAPI\<close>: the REST calls of the SDK.  The static members of
  \<open>ServerAPI\<close> are the record \<open>server_api\<close>; the files and the requests sent are the
  device of \<open>Native_Interface\<close>.
\<close>

section \<open>Constants of \<open>util.h\<close> and \<open>crossPlatformUtil.h\<close>\<close>

definition SUCCESS :: int where "SUCCESS = 200"
definition AUTH_ERR :: int where "AUTH_ERR = 401"
definition JSON_PARSE_ERR :: int where "JSON_PARSE_ERR = 5000"
definition EXECUTOR_LOAD_MODEL_ERR :: int where "EXECUTOR_LOAD_MODEL_ERR = 5001"
definition TERMINAL_ERROR :: int where "TERMINAL_ERROR = 5002"
definition RETRYABLE_ERROR :: int where "RETRYABLE_ERROR = -1"

definition DEFAULT_AUTH_ERROR_RETRIES :: nat where "DEFAULT_AUTH_ERROR_RETRIES = 3"
definition DEFAULT_REGISTER_RETRIES :: int where "DEFAULT_REGISTER_RETRIES = 3"
definition DEFAULT_LOAD_MODEL_RETRIES :: int where "DEFAULT_LOAD_MODEL_RETRIES = 3"
definition DEFAULT_FETCH_CLOUD_CONFIG_RETRIES :: int where "DEFAULT_FETCH_CLOUD_CONFIG_RETRIES = 3"

definition API_VERSION :: string where "API_VERSION = ''/api/v1''"
definition HTTPSERVICE :: string where "HTTPSERVICE = ''/mds''"
definition FEATURESERVICE :: string where "FEATURESERVICE = ''/nimblesync''"
definition DEFAULT_UPLOAD_LOGS_URL :: string where "DEFAULT_UPLOAD_LOGS_URL = ''https://logs.nimbleedgehq.ai''"

section \<open>Requests and responses (\<open>ServerAPIStructs\<close>)\<close>

record base_request =
  bq_deviceId :: string
  bq_clientId :: string

record model_request =
  mq_base :: base_request
  mq_partNum :: int
  mq_version :: string

record plan_request =
  pq_base :: base_request
  pq_partNum :: int
  pq_version :: string
  pq_modelId :: string

record version_request =
  vq_base :: base_request
  vq_dataType :: string
  vq_modelId :: string

record base_response =
  br_status :: int
  br_error :: string

record register_response = rr_base :: base_response rr_token :: string

record get_model_response =
  gr_base :: base_response
  gr_modelWeights :: string
  gr_version :: string

record version_response =
  vr_base :: base_response
  vr_fileParts :: int
  vr_version :: string
  vr_extras :: string

record cloud_response =
  cl_base :: base_response
  cl_logKey :: string
  cl_logUrl :: string
  cl_logTimeInterval :: int
  cl_metricsKey :: string
  cl_metricsTimeInterval :: int
  cl_metricsCollectionInterval :: int
  cl_timeInMicros :: int

record feature_version_response =
  fr_base :: base_response
  fr_version :: string
  fr_dataType :: int
  fr_expiry :: int

record log_request =
  lq_host :: string
  lq_headers :: json
  lq_body :: json

record auth_info = ai_valid :: bool ai_apiHeader :: string

definition no_base :: base_response where
  "no_base = \<lparr>br_status = JSON_PARSE_ERR, br_error = []\<rparr>"

definition no_register :: register_response where "no_register = \<lparr>rr_base = no_base, rr_token = []\<rparr>"

definition no_get_model :: get_model_response where
  "no_get_model = \<lparr>gr_base = no_base, gr_modelWeights = [], gr_version = []\<rparr>"

definition no_version :: version_response where
  "no_version = \<lparr>vr_base = no_base, vr_fileParts = 0, vr_version = [], vr_extras = []\<rparr>"

definition no_cloud :: cloud_response where
  "no_cloud = \<lparr>cl_base = no_base, cl_logKey = [], cl_logUrl = DEFAULT_UPLOAD_LOGS_URL,
     cl_logTimeInterval = 5, cl_metricsKey = [], cl_metricsTimeInterval = 5,
     cl_metricsCollectionInterval = 20, cl_timeInMicros = 0\<rparr>"

definition no_feature_version :: feature_version_response where
  "no_feature_version = \<lparr>fr_base = no_base, fr_version = [], fr_dataType = 0, fr_expiry = 0\<rparr>"

definition no_auth :: auth_info where "no_auth = \<lparr>ai_valid = False, ai_apiHeader = []\<rparr>"

section \<open>Reading responses\<close>

definition error_from_json :: "json \<Rightarrow> string parsed" where
  "error_from_json j = field j ''description'' get_string"

definition base_from_json :: "json \<Rightarrow> base_response parsed" where
  "base_from_json j =
     pbind (field j ''status'' get_int) (\<lambda>status.
       if status \<noteq> SUCCESS
       then pbind (field j ''error'' error_from_json) (\<lambda>e. Inr \<lparr>br_status = status, br_error = e\<rparr>)
       else Inr \<lparr>br_status = status, br_error = []\<rparr>)"

definition register_from_json :: "json \<Rightarrow> register_response parsed" where
  "register_from_json j =
     pbind (base_from_json j) (\<lambda>b.
       if br_status b = SUCCESS
       then pbind (field j ''token'' get_string) (\<lambda>t. Inr \<lparr>rr_base = b, rr_token = t\<rparr>)
       else Inr \<lparr>rr_base = b, rr_token = []\<rparr>)"

definition get_model_from_json :: "json \<Rightarrow> get_model_response parsed" where
  "get_model_from_json j =
     pbind (base_from_json j) (\<lambda>b.
       if br_status b = SUCCESS
       then pbind (field j ''modelWeights'' get_string) (\<lambda>w.
            pbind (field j ''modelVersion'' get_string) (\<lambda>v.
              Inr \<lparr>gr_base = b, gr_modelWeights = w, gr_version = v\<rparr>))
       else Inr \<lparr>gr_base = b, gr_modelWeights = [], gr_version = []\<rparr>)"

definition version_from_json :: "json \<Rightarrow> version_response parsed" where
  "version_from_json j =
     pbind (base_from_json j) (\<lambda>b.
       if br_status b = SUCCESS
       then pbind (field j ''fileParts'' get_int) (\<lambda>n.
            pbind (field j ''version'' get_string) (\<lambda>v.
            pbind (field j ''features'' get_string) (\<lambda>x.
              Inr \<lparr>vr_base = b, vr_fileParts = n, vr_version = v, vr_extras = x\<rparr>)))
       else Inr (no_version\<lparr>vr_base := b\<rparr>))"

definition feature_version_from_json :: "json \<Rightarrow> feature_version_response parsed" where
  "feature_version_from_json j =
     pbind (base_from_json j) (\<lambda>b.
       if br_status b = SUCCESS
       then pbind (field j ''version'' get_string) (\<lambda>v.
            pbind (field j ''dataType'' get_int) (\<lambda>t.
            pbind (field j ''expiry'' get_uint64) (\<lambda>e.
              Inr \<lparr>fr_base = b, fr_version = v, fr_dataType = t, fr_expiry = e\<rparr>)))
       else Inr (no_feature_version\<lparr>fr_base := b\<rparr>))"

definition cloud_from_json :: "json \<Rightarrow> cloud_response parsed" where
  "cloud_from_json j =
     pbind (base_from_json j) (\<lambda>b.
       let d = no_cloud\<lparr>cl_base := b\<rparr> in
       if br_status b = SUCCESS
       then pbind (optional_field j ''logKey'' get_string (cl_logKey d)) (\<lambda>lk.
            pbind (optional_field j ''metricsKey'' get_string (cl_metricsKey d)) (\<lambda>mk.
            pbind (optional_field j ''logUrl'' get_string (cl_logUrl d)) (\<lambda>url.
            pbind (optional_field j ''metricsInterval'' get_int (cl_metricsTimeInterval d)) (\<lambda>mi.
            pbind (optional_field j ''logInterval'' get_int (cl_logTimeInterval d)) (\<lambda>li.
            pbind (optional_field j ''metricsCollectionTimeInterval'' get_int (cl_metricsCollectionInterval d)) (\<lambda>mc.
              Inr (d\<lparr>cl_logKey := lk, cl_metricsKey := mk, cl_logUrl := url, cl_metricsTimeInterval := mi,
                     cl_logTimeInterval := li, cl_metricsCollectionInterval := mc\<rparr>)))))))
       else Inr d)"

definition auth_from_json :: "json \<Rightarrow> auth_info parsed" where
  "auth_from_json j = pbind (field j ''apiHeader'' get_string) (\<lambda>h. Inr \<lparr>ai_valid = True, ai_apiHeader = h\<rparr>)"

definition auth_to_json :: "auth_info \<Rightarrow> json" where
  "auth_to_json a = jobject [(''apiHeader'', JString (ai_apiHeader a))]"

interpretation auth_codec: json_codec auth_to_json auth_from_json "\<lambda>a. a\<lparr>ai_valid := True\<rparr>" "\<lambda>a. True"
  by unfold_locales (simp add: auth_to_json_def auth_from_json_def field_def jat_jobject get_string_def)

section \<open>The state of \<open>ServerAPI\<close>\<close>

record server_api =
  sa_HEADER :: string
  sa_HOST :: string
  sa_config :: config
  sa_registerRetries :: int
  sa_registerDone :: bool
  sa_device :: device

definition new_server_api :: "device \<Rightarrow> server_api" where
  "new_server_api d = \<lparr>sa_HEADER = [], sa_HOST = [], sa_config = new_config,
     sa_registerRetries = DEFAULT_REGISTER_RETRIES, sa_registerDone = False, sa_device = d\<rparr>"

definition api_send :: "platform \<Rightarrow> server_api \<Rightarrow> net_request \<Rightarrow> c_response \<times> server_api" where
  "api_send pf s r = (let (resp, d) = send_request pf (sa_device s) r in (resp, s\<lparr>sa_device := d\<rparr>))"

section \<open>Registration\<close>

definition register_url :: "server_api \<Rightarrow> string" where
  "register_url s =
     sa_HOST s @ HTTPSERVICE @ API_VERSION @ ''/clients/'' @ cf_clientId (sa_config s) @ ''/register''"

definition register_request :: "platform \<Rightarrow> server_api \<Rightarrow> net_request" where
  "register_request pf s =
     \<lparr>nr_body = pf_dump pf (jobject [(''deviceId'', JString (cf_deviceId (sa_config s))),
        (''clientId'', JString (cf_clientId (sa_config s))),
        (''modelNames'', JArray (map JString (cf_modelIds (sa_config s))))]),
      nr_headers = pf_dump pf (jobject [(''ClientSecret'', JString (cf_clientSecret (sa_config s)))]),
      nr_url = register_url s, nr_method = ''POST''\<rparr>"

definition device_register :: "platform \<Rightarrow> server_api \<Rightarrow> (bool \<times> server_api) outcome" where
  "device_register pf s =
     (let (resp, s1) = api_send pf s (register_request pf s) in
      ubind (body_string resp) (\<lambda>text.
      ubind (parser_get (pf_parse pf) no_register register_from_json text) (\<lambda>r.
        if br_status (rr_base r) \<noteq> SUCCESS then Inr (False, s1)
        else let header = pf_dump pf (jobject [(''AuthorizationId'', JString (''Bearer '' @ rr_token r))]);
                 info = \<lparr>ai_valid = False, ai_apiHeader = header\<rparr>;
                 d = fst (save_file_on_device pf (sa_device s1) (pf_dump pf (auth_to_json info)) ''AuthInfo.txt'' True)
             in Inr (True, s1\<lparr>sa_HEADER := header, sa_device := d\<rparr>))))"

definition server_init :: "platform \<Rightarrow> config \<Rightarrow> server_api \<Rightarrow> (bool \<times> server_api) outcome" where
  "server_init pf config s =
     (if sa_registerDone s then Inr (True, s)
      else if sa_registerRetries s = 0 then Inr (False, s)
      else
        let s1 = s\<lparr>sa_registerRetries := sa_registerRetries s - 1, sa_HOST := cf_host config, sa_config := config\<rparr>;
            register = ubind (device_register pf s1) (\<lambda>(ok, s2).
              if ok then Inr (True, s2\<lparr>sa_registerDone := True\<rparr>) else Inr (False, s2))
        in case get_file_from_device (sa_device s1) ''AuthInfo.txt'' of
             None \<Rightarrow> register
           | Some text \<Rightarrow>
               ubind (parser_get (pf_parse pf) no_auth auth_from_json text) (\<lambda>info.
                 if ai_valid info then Inr (True, s1\<lparr>sa_HEADER := ai_apiHeader info, sa_registerDone := True\<rparr>)
                 else register))"

definition reset_register_retries :: "server_api \<Rightarrow> server_api" where
  "reset_register_retries s = s\<lparr>sa_registerRetries := DEFAULT_REGISTER_RETRIES\<rparr>"

section \<open>Calls that register again after an authorisation error\<close>

text \<open>
  The shape shared by \<open>get_plan\<close>, \<open>version_check\<close>, \<open>get_cloud_config\<close>, \<open>get_feature\<close>
  and \<open>get_feature_version\<close>: send, and on status 401 register and call again with
  one retry less.  \<open>reads\<close> holds for the calls that build the response string
  before they look at the status.
\<close>

definition get_request :: "server_api \<Rightarrow> string \<Rightarrow> net_request" where
  "get_request s path = \<lparr>nr_body = [], nr_headers = sa_HEADER s, nr_url = sa_HOST s @ path, nr_method = ''GET''\<rparr>"

fun authorised_get ::
  "platform \<Rightarrow> bool \<Rightarrow> string \<Rightarrow> nat \<Rightarrow> server_api \<Rightarrow> (c_response \<times> server_api) outcome" where
  "authorised_get pf reads path retries s =
     (let (resp, s1) = api_send pf s (get_request s path) in
      ubind (if reads then body_string resp else Inr []) (\<lambda>text.
        if cr_statusCode resp = AUTH_ERR then
          (case retries of
             0 \<Rightarrow> Inr (resp, s1)
           | Suc n \<Rightarrow> ubind (device_register pf s1) (\<lambda>(ok, s2).
               if ok then authorised_get pf reads path n s2 else Inr (resp, s2)))
        else Inr (resp, s1)))"

declare authorised_get.simps [simp del]

definition decode_response ::
  "platform \<Rightarrow> 'a \<Rightarrow> (json \<Rightarrow> 'a parsed) \<Rightarrow> c_response \<times> server_api \<Rightarrow> ('a \<times> server_api) outcome" where
  "decode_response pf d g rs = (case rs of (resp, s) \<Rightarrow>
     ubind (body_string resp) (\<lambda>text. ubind (parser_get (pf_parse pf) d g text) (\<lambda>r. Inr (r, s))))"

definition clients_path :: "string \<Rightarrow> string \<Rightarrow> string" where
  "clients_path service clientId = service @ API_VERSION @ ''/clients/'' @ clientId"

definition plan_path :: "plan_request \<Rightarrow> string" where
  "plan_path q = clients_path HTTPSERVICE (bq_clientId (pq_base q)) @ ''/models/'' @ pq_modelId q @
     ''/versions/'' @ pq_version q @ ''/parts/'' @ int_str (pq_partNum q) @ ''?planType=inference''"

definition get_plan :: "platform \<Rightarrow> plan_request \<Rightarrow> nat \<Rightarrow> server_api \<Rightarrow> (c_response \<times> server_api) outcome" where
  "get_plan pf q retries s = authorised_get pf False (plan_path q) retries s"

definition version_check ::
  "platform \<Rightarrow> version_request \<Rightarrow> nat \<Rightarrow> server_api \<Rightarrow> (version_response \<times> server_api) outcome" where
  "version_check pf q retries s =
     ubind (authorised_get pf True (clients_path HTTPSERVICE (bq_clientId (vq_base q)) @ ''/models/'' @
              vq_modelId q @ ''/version'') retries s)
       (decode_response pf no_version version_from_json)"

definition get_feature ::
  "platform \<Rightarrow> string \<Rightarrow> string \<Rightarrow> nat \<Rightarrow> server_api \<Rightarrow> (c_response \<times> server_api) outcome" where
  "get_feature pf featureName featureVersion retries s =
     authorised_get pf False (clients_path FEATURESERVICE (cf_clientId (sa_config s)) @ ''/features/'' @
       featureName @ ''/versions/'' @ featureVersion) retries s"

definition get_feature_version ::
  "platform \<Rightarrow> string \<Rightarrow> nat \<Rightarrow> server_api \<Rightarrow> (feature_version_response \<times> server_api) outcome" where
  "get_feature_version pf featureName retries s =
     ubind (authorised_get pf True (clients_path FEATURESERVICE (cf_clientId (sa_config s)) @ ''/features/'' @
              featureName @ ''/version'') retries s)
       (decode_response pf no_feature_version feature_version_from_json)"

text \<open>\<open>micros\<close> is the measured time of the request; the metrics key is overwritten by the log key.\<close>

definition finish_cloud_config :: "int \<Rightarrow> cloud_response \<Rightarrow> cloud_response" where
  "finish_cloud_config micros r =
     (let r' = r\<lparr>cl_timeInMicros := micros\<rparr> in
      if br_status (cl_base r') = SUCCESS then r'\<lparr>cl_metricsKey := cl_logKey r'\<rparr> else r')"

definition get_cloud_config ::
  "platform \<Rightarrow> int \<Rightarrow> nat \<Rightarrow> server_api \<Rightarrow> (cloud_response \<times> server_api) outcome" where
  "get_cloud_config pf micros retries s =
     ubind (authorised_get pf True (clients_path HTTPSERVICE (cf_clientId (sa_config s)) @ ''/events/config'') retries s)
       (\<lambda>rs. ubind (decode_response pf no_cloud cloud_from_json rs) (\<lambda>(r, s').
          Inr (finish_cloud_config micros r, s')))"

text \<open>\<open>get_model\<close> decides by the status inside the body and reads the body as a C string.\<close>

fun get_model :: "platform \<Rightarrow> model_request \<Rightarrow> nat \<Rightarrow> server_api \<Rightarrow> (get_model_response \<times> server_api) outcome" where
  "get_model pf q retries s =
     (let path = ''v1/getmodel'' @ ''/clientId/'' @ bq_clientId (mq_base q) @ ''/deviceId/'' @ bq_deviceId (mq_base q) @
                 ''/numPart/'' @ int_str (mq_partNum q) @ ''/version/'' @ mq_version q;
          (resp, s1) = api_send pf s (get_request s path) in
      ubind (body_c_string resp) (\<lambda>text.
      ubind (parser_get (pf_parse pf) no_get_model get_model_from_json text) (\<lambda>r.
        if br_status (gr_base r) = AUTH_ERR then
          (case retries of
             0 \<Rightarrow> Inr (r, s1)
           | Suc n \<Rightarrow> ubind (device_register pf s1) (\<lambda>(ok, s2).
               if ok then get_model pf q n s2 else Inr (r, s2)))
        else Inr (r, s1))))"

declare get_model.simps [simp del]

definition upload_logs :: "platform \<Rightarrow> log_request \<Rightarrow> server_api \<Rightarrow> (bool \<times> server_api) outcome" where
  "upload_logs pf q s =
     (let (resp, s1) = api_send pf s \<lparr>nr_body = pf_dump pf (lq_body q), nr_headers = pf_dump pf (lq_headers q),
                                      nr_url = lq_host q, nr_method = ''POST''\<rparr> in
      ubind (body_string resp) (\<lambda>text. Inr (cr_statusCode resp = 202, s1)))"

end
