(* ===== verification/Server_Api_Contract.thy ===== *)
theory Server_Api_Contract
  imports Server_Api
begin

text \<open>
  Bounds on what \<open>ServerAPI\<close> sends, and what survives a restart.  A retry budget is
  an interface: a transition never spends more than it takes from the budget, so a
  run never spends more than the budget it started with.
\<close>

section \<open>Retry budgets\<close>

locale retry_budget =
  fixes tick :: "'s \<Rightarrow> 's \<Rightarrow> bool"
    and left :: "'s \<Rightarrow> int"
    and spent :: "'s \<Rightarrow> nat"
  assumes pays: "tick s t \<Longrightarrow> 0 \<le> left s \<Longrightarrow> int (spent t) + left t \<le> int (spent s) + left s"
    and stays: "tick s t \<Longrightarrow> 0 \<le> left s \<Longrightarrow> 0 \<le> left t"
begin

lemma run_pays:
  assumes "tick\<^sup>*\<^sup>* s t" "0 \<le> left s"
  shows "0 \<le> left t \<and> int (spent t) + left t \<le> int (spent s) + left s"
  using assms
proof (induction rule: rtranclp_induct)
  case (step t u)
  then show ?case using pays [of t u] stays [of t u] by simp
qed simp

lemma run_bound: "tick\<^sup>*\<^sup>* s t \<Longrightarrow> 0 \<le> left s \<Longrightarrow> int (spent t) \<le> int (spent s) + left s"
  using run_pays [of s t] by simp

end

section \<open>What a call sends\<close>

definition sent :: "server_api \<Rightarrow> net_request list" where
  "sent s = dv_sent (sa_device s)"

definition is_register :: "net_request \<Rightarrow> bool" where
  "is_register r = (nr_method r = ''POST'')"

definition registers :: "server_api \<Rightarrow> nat" where
  "registers s = length (filter is_register (sent s))"

definition gets :: "server_api \<Rightarrow> nat" where
  "gets s = length (filter (\<lambda>r. \<not> is_register r) (sent s))"

definition same_server :: "server_api \<Rightarrow> server_api \<Rightarrow> bool" where
  "same_server s t =
     (sa_HOST t = sa_HOST s \<and> sa_config t = sa_config s \<and> sa_registerRetries t = sa_registerRetries s \<and>
      sa_registerDone t = sa_registerDone s \<and> dv_home (sa_device t) = dv_home (sa_device s))"

lemma same_server_refl [simp]: "same_server s s"
  by (simp add: same_server_def)

lemma same_server_trans: "same_server s t \<Longrightarrow> same_server t u \<Longrightarrow> same_server s u"
  by (simp add: same_server_def)

lemma api_send_result:
  assumes "api_send pf s r = (resp, t)"
  shows "sent t = sent s @ [r]" "same_server s t" "sa_HEADER t = sa_HEADER s"
    "dv_files (sa_device t) = dv_files (sa_device s)"
  using assms by (auto simp: api_send_def sent_def same_server_def send_request_def split: prod.splits)

lemma device_register_result:
  assumes "device_register pf s = Inr (ok, t)"
  shows "sent t = sent s @ [register_request pf s]" "same_server s t" "\<not> ok \<Longrightarrow> sa_HEADER t = sa_HEADER s"
proof -
  obtain resp s1 where a: "api_send pf s (register_request pf s) = (resp, s1)" by fastforce
  show "sent t = sent s @ [register_request pf s]" "same_server s t" "\<not> ok \<Longrightarrow> sa_HEADER t = sa_HEADER s"
    using assms a api_send_result [OF a]
    by (auto simp: device_register_def ubind_Inr_iff sent_def same_server_def Let_def save_file_eq split: if_splits)
qed

lemma is_register_requests [simp]: "is_register (register_request pf s)" "\<not> is_register (get_request s p)"
  by (simp_all add: is_register_def register_request_def get_request_def)

lemma device_register_counts:
  "device_register pf s = Inr (ok, t) \<Longrightarrow> registers t = Suc (registers s) \<and> gets t = gets s"
  by (simp add: registers_def gets_def device_register_result)

lemma authorised_get_counts:
  "authorised_get pf reads path retries s = Inr (resp, t) \<Longrightarrow>
    same_server s t \<and> gets t \<le> gets s + retries + 1 \<and> registers t \<le> registers s + retries \<and>
    (cr_statusCode resp = AUTH_ERR \<longrightarrow> gets t = gets s + retries + 1 \<or> is_register (last (sent t)))"
proof (induction pf reads path retries s arbitrary: resp t rule: authorised_get.induct)
  case (1 pf reads path retries s)
  obtain r1 s1 where a: "api_send pf s (get_request s path) = (r1, s1)" by fastforce
  note s1 = api_send_result [OF a]
  have c1: "gets s1 = Suc (gets s)" "registers s1 = registers s" by (simp_all add: gets_def registers_def s1)
  show ?case
  proof (cases "cr_statusCode r1 = AUTH_ERR")
    case False
    with 1(2) a have "r1 = resp" "s1 = t"
      by (auto simp: authorised_get.simps [of pf reads path retries s] ubind_Inr_iff)
    with c1 s1(2) False show ?thesis by simp
  next
    case auth: True
    show ?thesis
    proof (cases retries)
      case 0
      with 1(2) a auth have "r1 = resp" "s1 = t"
        by (auto simp: authorised_get.simps [of pf reads path 0 s] ubind_Inr_iff)
      with c1 s1(2) 0 show ?thesis by simp
    next
      case (Suc n)
      with 1(2) a auth obtain ok s2 x where x: "(if reads then body_string r1 else Inr []) = Inr x"
        and reg: "device_register pf s1 = Inr (ok, s2)"
        and rest: "(if ok then authorised_get pf reads path n s2 else Inr (r1, s2)) = Inr (resp, t)"
        by (auto simp: authorised_get.simps [of pf reads path "Suc n" s] ubind_Inr_iff)
      note s2 = device_register_result [OF reg] device_register_counts [OF reg]
      have s02: "same_server s s2" using s1(2) s2(2) by (rule same_server_trans)
      show ?thesis
      proof (cases ok)
        case True
        with rest have go: "authorised_get pf reads path n s2 = Inr (resp, t)" by simp
        have "same_server s2 t \<and> gets t \<le> gets s2 + n + 1 \<and> registers t \<le> registers s2 + n \<and>
            (cr_statusCode resp = AUTH_ERR \<longrightarrow> gets t = gets s2 + n + 1 \<or> is_register (last (sent t)))"
          by (rule "1.IH" [OF a [symmetric] refl x auth Suc reg refl True go])
        with s02 s2(4) c1 Suc same_server_trans [OF s02] show ?thesis by auto
      next
        case False
        with rest have "t = s2" "resp = r1" by simp_all
        with s02 s2 c1 Suc show ?thesis by simp
      qed
    qed
  qed
qed

section \<open>Registration attempts\<close>

inductive init_tick :: "platform \<Rightarrow> server_api \<Rightarrow> server_api \<Rightarrow> bool" for pf where
  "server_init pf config s = Inr (ok, t) \<Longrightarrow> init_tick pf s t"

inductive_cases init_tickE: "init_tick pf s t"

lemma server_init_pays:
  assumes "server_init pf config s = Inr (ok, t)" "0 \<le> sa_registerRetries s"
  shows "0 \<le> sa_registerRetries t \<and> int (registers t) + sa_registerRetries t \<le> int (registers s) + sa_registerRetries s"
proof (cases "sa_registerDone s \<or> sa_registerRetries s = 0")
  case True
  then have "t = s" using assms(1) by (auto simp: server_init_def split: if_splits)
  with assms(2) show ?thesis by simp
next
  case False
  let ?s1 = "s\<lparr>sa_registerRetries := sa_registerRetries s - 1, sa_HOST := cf_host config, sa_config := config\<rparr>"
  have s1: "registers ?s1 = registers s" by (simp add: registers_def sent_def)
  have "(\<exists>ok' s2. device_register pf ?s1 = Inr (ok', s2) \<and> registers t = registers s2 \<and>
      sa_registerRetries t = sa_registerRetries s2) \<or>
    registers t = registers s \<and> sa_registerRetries t = sa_registerRetries s - 1"
    using False assms(1)
    by (auto simp: server_init_def Let_def ubind_Inr_iff registers_def sent_def split: option.splits if_splits)
  then show ?thesis
  proof (elim disjE exE conjE)
    fix ok' s2 assume r: "device_register pf ?s1 = Inr (ok', s2)" "registers t = registers s2"
      "sa_registerRetries t = sa_registerRetries s2"
    have "registers s2 = Suc (registers s)" using device_register_counts [OF r(1)] s1 by simp
    moreover have "sa_registerRetries s2 = sa_registerRetries s - 1"
      using device_register_result(2) [OF r(1)] by (simp add: same_server_def)
    ultimately show ?thesis using r(2,3) False assms(2) by simp
  qed (use False assms(2) in simp)
qed

interpretation register_budget: retry_budget "init_tick pf" sa_registerRetries registers
  for pf
  by unfold_locales (use server_init_pays in \<open>auto elim!: init_tickE\<close>)

section \<open>Properties\<close>


text \<open>however often initialisation is repeated, at most three registration requests are sent until the retries are reset.\<close>
theorem register_attempts_bounded:
  assumes "(init_tick pf)\<^sup>*\<^sup>* (new_server_api d) t" "dv_sent d = []"
  shows "registers t \<le> 3"
  using register_budget.run_bound [OF assms(1)] assms(2)
  by (simp add: new_server_api_def DEFAULT_REGISTER_RETRIES_def registers_def sent_def)

text \<open>C29: after a successful registration a restarted SDK finds the header on the device and registers without a request.\<close>
theorem registration_survives_restart:
  assumes "device_register pf s = Inr (True, t)" "device_ok (sa_device s)"
    and "pf_writable pf (dv_home (sa_device s) @ ''AuthInfo.txt'')"
    and "\<And>a. pf_parse pf (pf_dump pf (auth_to_json a)) = Some (auth_to_json a)"
  shows "\<exists>u. server_init pf config (new_server_api (sa_device t)) = Inr (True, u) \<and>
    sa_HEADER u = sa_HEADER t \<and> dv_sent (sa_device u) = dv_sent (sa_device t)"
proof -
  obtain resp s1 where a: "api_send pf s (register_request pf s) = (resp, s1)" by fastforce
  note s1 = api_send_result [OF a]
  obtain r where t: "t = s1\<lparr>sa_HEADER := r, sa_device :=
      saved pf (sa_device s1) (pf_dump pf (auth_to_json \<lparr>ai_valid = False, ai_apiHeader = r\<rparr>)) ''AuthInfo.txt''\<rparr>"
    using assms(1) a by (auto simp: device_register_def ubind_Inr_iff Let_def save_file_eq split: if_splits)
  have home: "at_home (dv_home (sa_device s)) (sa_device s1)"
    using assms(2) s1(2,4) by (simp add: at_home_def device_ok_def same_server_def)
  have "get_file_from_device (sa_device t) ''AuthInfo.txt'' =
      Some (pf_dump pf (auth_to_json \<lparr>ai_valid = False, ai_apiHeader = r\<rparr>))"
    unfolding t using device_files.load_save [OF home assms(3), of _ "''AuthInfo.txt''"] by simp
  moreover have "parser_get (pf_parse pf) no_auth auth_from_json
      (pf_dump pf (auth_to_json \<lparr>ai_valid = False, ai_apiHeader = r\<rparr>)) = Inr \<lparr>ai_valid = True, ai_apiHeader = r\<rparr>"
    using auth_codec.get_dumped [where parse = "pf_parse pf" and dump = "pf_dump pf", OF TrueI assms(4)] by simp
  ultimately show ?thesis
    by (simp add: server_init_def new_server_api_def DEFAULT_REGISTER_RETRIES_def t)
qed

text \<open>the metrics key of the cloud configuration is never the one the server sent, it is always the log key.\<close>
theorem cloud_metrics_key_ignored:
  assumes "get_cloud_config pf micros retries s = Inr (r, t)" "br_status (cl_base r) = SUCCESS"
  shows "cl_metricsKey r = cl_logKey r"
  using assms by (auto simp: get_cloud_config_def ubind_Inr_iff finish_cloud_config_def Let_def)

section \<open>An example server\<close>

text \<open>A toy text syntax for the examples: the header object and two fixed responses.\<close>

definition demo_parse :: "string \<Rightarrow> json option" where
  "demo_parse s =
     (if s = ''registered'' then Some (jobject [(''status'', JInt 200), (''token'', JString ''t'')])
      else if s = ''config'' then Some (jobject [(''status'', JInt 200), (''logKey'', JString ''L''),
        (''metricsKey'', JString ''M'')])
      else case s of [] \<Rightarrow> None | c # h \<Rightarrow> if c = CHR ''@'' then Some (auth_to_json \<lparr>ai_valid = False, ai_apiHeader = h\<rparr>)
                                   else None)"

definition demo_dump :: "json \<Rightarrow> string" where
  "demo_dump j = (case jfind j ''apiHeader'' of Some (JString h) \<Rightarrow> CHR ''@'' # h | _ \<Rightarrow> ''{}'')"

definition demo_platform :: platform where
  "demo_platform = \<lparr>pf_net = (\<lambda>n r. if nr_method r = ''POST'' then \<lparr>cr_statusCode = 200, cr_body = Some ''registered'', cr_bodyLength = 10\<rparr>
        else if n = 0 then \<lparr>cr_statusCode = 401, cr_body = None, cr_bodyLength = 0\<rparr>
        else \<lparr>cr_statusCode = 200, cr_body = Some ''config'', cr_bodyLength = 6\<rparr>),
     pf_parse = demo_parse, pf_dump = demo_dump, pf_writable = (\<lambda>f. True)\<rparr>"

definition demo_device :: device where
  "demo_device = \<lparr>dv_home = ''/home/'', dv_files = [], dv_sent = []\<rparr>"

lemma demo_json: "pf_parse demo_platform (pf_dump demo_platform (auth_to_json a)) = Some (auth_to_json a)"
  by (simp add: demo_platform_def demo_parse_def demo_dump_def auth_to_json_def jfind_jobject)


lemma register_attempts_bounded_witness:
  "\<exists>t. server_init demo_platform new_config (new_server_api demo_device) = Inr (True, t) \<and> registers t \<le> 3"
proof -
  have "map_sum id fst (server_init demo_platform new_config (new_server_api demo_device)) = Inr True" by code_simp
  then obtain t where t: "server_init demo_platform new_config (new_server_api demo_device) = Inr (True, t)"
    by (cases "server_init demo_platform new_config (new_server_api demo_device)") auto
  then have "(init_tick demo_platform)\<^sup>*\<^sup>* (new_server_api demo_device) t"
    by (intro r_into_rtranclp init_tick.intros)
  from register_attempts_bounded [OF this] t show ?thesis by (simp add: demo_device_def)
qed

lemma registration_survives_restart_witness:
  "\<exists>t u. device_register demo_platform (new_server_api demo_device) = Inr (True, t) \<and>
    server_init demo_platform new_config (new_server_api (sa_device t)) = Inr (True, u) \<and> sa_HEADER u = sa_HEADER t"
proof -
  have "map_sum id fst (device_register demo_platform (new_server_api demo_device)) = Inr True" by code_simp
  then obtain t where t: "device_register demo_platform (new_server_api demo_device) = Inr (True, t)"
    by (cases "device_register demo_platform (new_server_api demo_device)") auto
  have "device_ok (sa_device (new_server_api demo_device))" by code_simp
  from registration_survives_restart [OF t this _ demo_json] t show ?thesis
    by (auto simp: demo_platform_def)
qed

lemma cloud_metrics_key_ignored_witness:
  "\<exists>r t. get_cloud_config demo_platform 7 3 (new_server_api demo_device) = Inr (r, t) \<and> cl_metricsKey r = cl_logKey r \<and>
     cl_logKey r = ''L''"
proof -
  have "map_sum id (\<lambda>(r, t). (br_status (cl_base r) = SUCCESS, cl_logKey r))
      (get_cloud_config demo_platform 7 3 (new_server_api demo_device)) = Inr (True, ''L'')" by code_simp
  then obtain r t where r: "get_cloud_config demo_platform 7 3 (new_server_api demo_device) = Inr (r, t)"
    "br_status (cl_base r) = SUCCESS" "cl_logKey r = ''L''"
    by (cases "get_cloud_config demo_platform 7 3 (new_server_api demo_device)") auto
  with cloud_metrics_key_ignored [OF r(1,2)] show ?thesis by blast
qed

end
