(* ===== verification/Feature_Store.thy ===== *)
theory Feature_Store
  imports Native_Interface
begin

text \<open>
  \<open>nimblenet/FeatureStore\<close>: the feature vectors the models read, one store per
  feature named in the configuration.

  A buffer behind a \<open>char*\<close> is the string of its bytes, a null pointer is \<open>None\<close>.  The
  functions of this theory are the effects of the calls when they do not overlap;
  \<open>Feature_Lock\<close> models the lock, the swap of the buffers and the readers.
  \<open>time(NULL)\<close> is the argument \<open>now\<close>.
\<close>

section \<open>State\<close>

record feature =
  ft_dataType :: int
  ft_data :: "string option"
  ft_byteLength :: int
  ft_version :: string

record feature_store =
  fs_valid :: bool
  fs_feature :: feature
  fs_expiry :: int
  fs_isUptoDate :: bool

text \<open>\<open>FeatureData\<close> of \<open>ResourceManagerStructs.h\<close>.\<close>

record feature_data =
  fd_valid :: bool
  fd_feature :: "string option"
  fd_featureLength :: int
  fd_version :: string
  fd_dataType :: int
  fd_expiry :: int

definition no_feature :: feature where
  "no_feature = \<lparr>ft_dataType = -1, ft_data = None, ft_byteLength = 0, ft_version = []\<rparr>"

definition new_feature_store :: feature_store where
  "new_feature_store = \<lparr>fs_valid = False, fs_feature = no_feature, fs_expiry = 0, fs_isUptoDate = False\<rparr>"

definition no_feature_data :: feature_data where
  "no_feature_data = \<lparr>fd_valid = False, fd_feature = None, fd_featureLength = 0, fd_version = [],
     fd_dataType = -1, fd_expiry = 0\<rparr>"

type_synonym feature_map_t = "(string, feature_store) smap"

definition new_feature_store_manager :: "string list \<Rightarrow> feature_map_t" where
  "new_feature_store_manager featureStores = fold (\<lambda>n. smap_put n new_feature_store) featureStores []"

section \<open>One store\<close>

text \<open>
  \<open>new char[n]; memcpy\<close>: a negative length throws (nothing catches it), a length
  beyond the source reads outside it.
\<close>

definition copy_buffer :: "string option \<Rightarrow> int \<Rightarrow> string outcome" where
  "copy_buffer src n =
     (if n < 0 then Inl Uncaught
      else if n = 0 then Inr []
      else case src of
        None \<Rightarrow> Inl Dangling
      | Some b \<Rightarrow> if n \<le> int (length b) then Inr (take (nat n) b) else Inl (Out_Of_Bounds n))"

definition store_get_read_lock :: "feature_store \<Rightarrow> bool" where
  "store_get_read_lock s = fs_valid s"

definition store_load :: "feature_store \<Rightarrow> feature_data \<Rightarrow> feature_store outcome" where
  "store_load s d =
     ubind (copy_buffer (fd_feature d) (fd_featureLength d)) (\<lambda>buf.
       Inr (s\<lparr>fs_feature := \<lparr>ft_dataType = fd_dataType d, ft_data = Some buf,
                              ft_byteLength = fd_featureLength d, ft_version = fd_version d\<rparr>,
              fs_valid := True, fs_expiry := fd_expiry d\<rparr>))"

definition store_should_download :: "int \<Rightarrow> feature_store \<Rightarrow> bool" where
  "store_should_download now s = (if \<not> fs_isUptoDate s then True else fs_expiry s < now)"

definition store_set_upto_date :: "feature_store \<Rightarrow> feature_store" where
  "store_set_upto_date s = s\<lparr>fs_isUptoDate := True\<rparr>"

section \<open>The manager\<close>

text \<open>An unknown name is logged; \<open>get_feature\<close> and \<open>get_version\<close> then return a reference to a dead temporary.\<close>

definition get_read_lock :: "feature_map_t \<Rightarrow> string \<Rightarrow> bool" where
  "get_read_lock m featureName =
     (case smap_find m featureName of Some s \<Rightarrow> store_get_read_lock s | None \<Rightarrow> False)"

definition manager_get_feature :: "feature_map_t \<Rightarrow> string \<Rightarrow> feature outcome" where
  "manager_get_feature m featureName =
     (case smap_find m featureName of Some s \<Rightarrow> Inr (fs_feature s) | None \<Rightarrow> Inl Dangling)"

definition manager_load_feature_store ::
  "feature_map_t \<Rightarrow> string \<Rightarrow> feature_data \<Rightarrow> (bool \<times> feature_map_t) outcome" where
  "manager_load_feature_store m featureName d =
     (case smap_find m featureName of
        Some s \<Rightarrow> ubind (store_load s d) (\<lambda>s'. Inr (True, smap_put featureName s' m))
      | None \<Rightarrow> Inr (False, m))"

definition manager_get_version :: "feature_map_t \<Rightarrow> string \<Rightarrow> string outcome" where
  "manager_get_version m featureName =
     (case smap_find m featureName of Some s \<Rightarrow> Inr (ft_version (fs_feature s)) | None \<Rightarrow> Inl Dangling)"

definition manager_should_download :: "int \<Rightarrow> feature_map_t \<Rightarrow> string \<Rightarrow> bool" where
  "manager_should_download now m featureName =
     (case smap_find m featureName of Some s \<Rightarrow> store_should_download now s | None \<Rightarrow> False)"

definition manager_set_upto_date :: "feature_map_t \<Rightarrow> string \<Rightarrow> feature_map_t" where
  "manager_set_upto_date m featureName =
     (case smap_find m featureName of
        Some s \<Rightarrow> smap_put featureName (store_set_upto_date s) m
      | None \<Rightarrow> m)"

section \<open>Facts\<close>

text \<open>A loaded store owns a buffer of exactly the advertised length.\<close>

definition store_ok :: "feature_store \<Rightarrow> bool" where
  "store_ok s = (fs_valid s \<longrightarrow>
     (\<exists>b. ft_data (fs_feature s) = Some b \<and> ft_byteLength (fs_feature s) = int (length b)))"

definition manager_ok :: "feature_map_t \<Rightarrow> bool" where
  "manager_ok m = (smap_ok m \<and> (\<forall>n s. smap_find m n = Some s \<longrightarrow> store_ok s))"

lemma copy_buffer_length: "copy_buffer src n = Inr b \<Longrightarrow> int (length b) = n"
  by (auto simp: copy_buffer_def split: if_splits option.splits)

lemma copy_buffer_whole [simp]: "copy_buffer (Some b) (int (length b)) = Inr b"
  by (simp add: copy_buffer_def)

lemma store_load_ok: "store_load s d = Inr s' \<Longrightarrow> store_ok s'"
  by (auto simp: store_load_def ubind_Inr_iff store_ok_def dest: copy_buffer_length)

lemma manager_ok_put: "manager_ok m \<Longrightarrow> store_ok s \<Longrightarrow> manager_ok (smap_put n s m)"
  by (simp add: manager_ok_def)

lemma manager_ok_new: "manager_ok (new_feature_store_manager names)"
proof -
  have "manager_ok m \<Longrightarrow> manager_ok (fold (\<lambda>n. smap_put n new_feature_store) names m)" for m
    by (induction names arbitrary: m)
      (simp_all add: manager_ok_put store_ok_def new_feature_store_def)
  from this [of "[]"] show ?thesis by (simp add: new_feature_store_manager_def manager_ok_def)
qed

lemma manager_ok_load: "manager_ok m \<Longrightarrow> manager_load_feature_store m n d = Inr (r, m') \<Longrightarrow> manager_ok m'"
  by (auto simp: manager_load_feature_store_def ubind_Inr_iff split: option.splits
      intro: manager_ok_put store_load_ok)

lemma manager_ok_upto_date: "manager_ok m \<Longrightarrow> manager_ok (manager_set_upto_date m n)"
  by (auto simp: manager_set_upto_date_def manager_ok_def store_ok_def store_set_upto_date_def split: option.splits)

lemma locked_complete:
  assumes "manager_ok m" "get_read_lock m n"
  shows "\<exists>f b. manager_get_feature m n = Inr f \<and> ft_data f = Some b \<and> ft_byteLength f = int (length b)"
proof -
  obtain s where "smap_find m n = Some s" "fs_valid s"
    using assms(2) by (auto simp: get_read_lock_def store_get_read_lock_def split: option.splits)
  moreover from this assms(1) have "store_ok s" by (auto simp: manager_ok_def)
  ultimately show ?thesis by (auto simp: store_ok_def manager_get_feature_def)
qed

lemma manager_load_other:
  "manager_load_feature_store m n d = Inr (r, m') \<Longrightarrow> k \<noteq> n \<Longrightarrow> smap_find m' k = smap_find m k"
  by (auto simp: manager_load_feature_store_def ubind_Inr_iff split: option.splits)

lemma manager_load_known:
  "smap_has m n \<Longrightarrow> fd_feature d = Some b \<Longrightarrow> fd_featureLength d = int (length b) \<Longrightarrow>
    \<exists>m'. manager_load_feature_store m n d = Inr (True, m') \<and>
      manager_get_feature m' n = Inr \<lparr>ft_dataType = fd_dataType d, ft_data = Some b,
        ft_byteLength = int (length b), ft_version = fd_version d\<rparr> \<and> get_read_lock m' n"
  by (auto simp: manager_load_feature_store_def store_load_def smap_has_def manager_get_feature_def
      get_read_lock_def store_get_read_lock_def)

text \<open>a reader that was given the read lock sees a buffer as long as the length
  the store reports, after any sequence of loads and updates of the features.
\<close>
theorem locked_feature_complete:
  assumes "ufold (\<lambda>(n, d) m. ubind (manager_load_feature_store m n d) (\<lambda>(r, m'). Inr (manager_set_upto_date m' n)))
      loads (new_feature_store_manager names) = Inr m"
    and "get_read_lock m name"
  shows "\<exists>f b. manager_get_feature m name = Inr f \<and> ft_data f = Some b \<and> ft_byteLength f = int (length b)"
proof -
  have "manager_ok m"
    by (rule ufold_invariant [where P = manager_ok, OF manager_ok_new _ assms(1)])
      (auto simp: ubind_Inr_iff intro!: manager_ok_upto_date dest: manager_ok_load)
  then show ?thesis using assms(2) by (rule locked_complete)
qed

lemma locked_feature_complete_witness:
  "\<exists>m. ufold (\<lambda>(n, d) m. ubind (manager_load_feature_store m n d) (\<lambda>(r, m'). Inr (manager_set_upto_date m' n)))
      [(''age'', \<lparr>fd_valid = True, fd_feature = Some ''xyz'', fd_featureLength = 3, fd_version = ''1'',
          fd_dataType = 1, fd_expiry = 10\<rparr>)] (new_feature_store_manager [''age'']) = Inr m \<and>
    (\<exists>f b. manager_get_feature m ''age'' = Inr f \<and> ft_data f = Some b \<and> ft_byteLength f = int (length b))"
proof -
  let ?load = "\<lambda>(n, d) m. ubind (manager_load_feature_store m n d) (\<lambda>(r, m'). Inr (manager_set_upto_date m' n))"
  let ?d = "\<lparr>fd_valid = True, fd_feature = Some ''xyz'', fd_featureLength = 3, fd_version = ''1'',
          fd_dataType = 1, fd_expiry = 10\<rparr>"
  have "map_sum id (\<lambda>m. get_read_lock m ''age'') (ufold ?load [(''age'', ?d)] (new_feature_store_manager [''age''])) = Inr True"
    by code_simp
  then obtain m where "ufold ?load [(''age'', ?d)] (new_feature_store_manager [''age'']) = Inr m" "get_read_lock m ''age''"
    by (cases "ufold ?load [(''age'', ?d)] (new_feature_store_manager [''age''])") auto
  with locked_feature_complete show ?thesis by blast
qed

end
