(* ===== verification/Transition_System.thy ===== *)
theory Transition_System
  imports Prelude
begin

text \<open>
  Reachable states of a step relation.  The locale \<open>invariant_system\<close> is what the
  threads of one protocol promise each other: an invariant that holds at the start and
  that every step keeps; it then holds in every reachable state.
\<close>

inductive reach :: "'s \<Rightarrow> ('s \<Rightarrow> 's \<Rightarrow> bool) \<Rightarrow> 's \<Rightarrow> bool" for s0 :: 's and step :: "'s \<Rightarrow> 's \<Rightarrow> bool" where
  reach_start: "reach s0 step s0"
| reach_step: "reach s0 step s \<Longrightarrow> step s s' \<Longrightarrow> reach s0 step s'"

lemma reach_steps: "reach s0 step s \<Longrightarrow> step\<^sup>*\<^sup>* s s' \<Longrightarrow> reach s0 step s'"
  by (rotate_tac, induction rule: rtranclp_induct) (auto intro: reach_step)

lemma reach_iff_steps: "reach s0 step s \<longleftrightarrow> step\<^sup>*\<^sup>* s0 s"
proof
  show "reach s0 step s \<Longrightarrow> step\<^sup>*\<^sup>* s0 s" by (induction rule: reach.induct) auto
  show "step\<^sup>*\<^sup>* s0 s \<Longrightarrow> reach s0 step s" by (rule reach_steps [OF reach_start])
qed

lemma reach_mono: "reach s0 step s \<Longrightarrow> (\<And>s s'. step s s' \<Longrightarrow> step' s s') \<Longrightarrow> reach s0 step' s"
  by (induction rule: reach.induct) (auto intro: reach.intros)

locale invariant_system =
  fixes s0 :: 's and step :: "'s \<Rightarrow> 's \<Rightarrow> bool" and inv :: "'s \<Rightarrow> bool"
  assumes inv_start: "inv s0"
    and inv_step: "step s s' \<Longrightarrow> inv s \<Longrightarrow> inv s'"
begin

lemma reach_inv: "reach s0 step s \<Longrightarrow> inv s"
  by (induction rule: reach.induct) (auto intro: inv_start inv_step)

lemma reach_step_inv: "reach s0 step s \<Longrightarrow> step s s' \<Longrightarrow> inv s \<and> inv s'"
  using reach_inv inv_step by blast

end

section \<open>A mutex\<close>

text \<open>\<open>held inside pcs m\<close>: the mutex \<open>m\<close> is held by the thread inside the critical section.\<close>

definition held :: "('p \<Rightarrow> bool) \<Rightarrow> (nat \<Rightarrow> 'p) \<Rightarrow> nat option \<Rightarrow> bool" where
  "held inside pcs m = (\<forall>t. inside (pcs t) \<longleftrightarrow> m = Some t)"

lemma held_owner: "held inside pcs m \<Longrightarrow> inside (pcs t) \<Longrightarrow> m = Some t"
  by (simp add: held_def)

lemma held_other: "held inside pcs m \<Longrightarrow> \<not> inside (pcs t) \<Longrightarrow> m \<noteq> Some t"
  by (simp add: held_def)

lemma held_move: "held inside pcs m \<Longrightarrow> inside p = inside (pcs t) \<Longrightarrow> held inside (pcs(t := p)) m"
  by (simp add: held_def)

lemma held_enter: "held inside pcs None \<Longrightarrow> inside p \<Longrightarrow> held inside (pcs(t := p)) (Some t)"
  by (auto simp: held_def)

lemma held_leave: "held inside pcs m \<Longrightarrow> inside (pcs t) \<Longrightarrow> \<not> inside p \<Longrightarrow> held inside (pcs(t := p)) None"
  unfolding held_def by (metis fun_upd_apply option.distinct(1) option.inject)

lemmas held_steps = held_move held_enter held_leave

section \<open>Runs\<close>

text \<open>A run written as the list of its states, which the examples evaluate.\<close>

fun run_of :: "('s \<Rightarrow> 's \<Rightarrow> bool) \<Rightarrow> 's \<Rightarrow> 's list \<Rightarrow> bool" where
  "run_of step s [] = True"
| "run_of step s (s' # ss) = (step s s' \<and> run_of step s' ss)"

lemma run_of_reach: "reach s0 step s \<Longrightarrow> run_of step s ss \<Longrightarrow> reach s0 step (last (s # ss))"
proof (induction ss arbitrary: s)
  case (Cons s' ss)
  then have "reach s0 step s'" by (auto intro: reach_step)
  from Cons.IH [OF this] Cons.prems show ?case by simp
qed simp

end
