(* ===== verification/Feature_Lock.thy ===== *)
theory Feature_Lock
  imports Feature_Store Transition_System
begin

text \<open>
  The concurrency of \<open>FeatureStore\<close>: inference threads read a feature vector while
  the command thread replaces it.  A state has the heap of buffers, the fields of the
  store, the program point of every reader and of the single writer; a step is one
  access to shared memory or to the lock.

  Readers run \<open>get_read_lock\<close> (the flag is read before the lock is taken), copy the
  pointer with \<open>get_feature\<close> and use it until their \<open>shared_lock\<close> is released at the
  end of \<open>ONNXModel::get_inference\<close>.  The writer runs \<open>load_feature_store\<close>.  It is the
  only one: \<open>initialize\<close> loads the features before it starts the command thread.
\<close>

section \<open>States and steps\<close>

datatype reader = RIdle | RChecked | RLocked | RHolds nat

datatype writer =
    WIdle
  | WCopied nat "nat option"
  | WLocked nat "nat option"
  | WStored "nat option"
  | WUnlocked "nat option"

record lock_state =
  lk_heap :: "nat \<Rightarrow> string option"
  lk_next :: nat
  lk_data :: "nat option"
  lk_valid :: bool
  lk_readers :: "nat \<Rightarrow> reader"
  lk_writer :: writer

definition lock_init :: lock_state where
  "lock_init = \<lparr>lk_heap = (\<lambda>a. None), lk_next = 0, lk_data = None, lk_valid = False,
     lk_readers = (\<lambda>t. RIdle), lk_writer = WIdle\<rparr>"

text \<open>The shared mutex: who holds it, and in which mode.\<close>

fun holds_shared :: "reader \<Rightarrow> bool" where
  "holds_shared RLocked = True"
| "holds_shared (RHolds a) = True"
| "holds_shared _ = False"

fun holds_unique :: "writer \<Rightarrow> bool" where
  "holds_unique (WLocked new old) = True"
| "holds_unique (WStored old) = True"
| "holds_unique _ = False"

definition free_buffer :: "nat option \<Rightarrow> (nat \<Rightarrow> string option) \<Rightarrow> nat \<Rightarrow> string option" where
  "free_buffer p h = (case p of None \<Rightarrow> h | Some a \<Rightarrow> h(a := None))"

inductive access_step :: "lock_state \<Rightarrow> lock_state \<Rightarrow> bool" where
  read_flag: "lk_readers s t = RIdle \<Longrightarrow> lk_valid s \<Longrightarrow>
    access_step s (s\<lparr>lk_readers := (lk_readers s)(t := RChecked)\<rparr>)"
| lock_shared: "lk_readers s t = RChecked \<Longrightarrow> \<not> holds_unique (lk_writer s) \<Longrightarrow>
    access_step s (s\<lparr>lk_readers := (lk_readers s)(t := RLocked)\<rparr>)"
| copy_pointer: "lk_readers s t = RLocked \<Longrightarrow> lk_data s = Some a \<Longrightarrow>
    access_step s (s\<lparr>lk_readers := (lk_readers s)(t := RHolds a)\<rparr>)"
| unlock_shared: "lk_readers s t = RHolds a \<Longrightarrow>
    access_step s (s\<lparr>lk_readers := (lk_readers s)(t := RIdle)\<rparr>)"
| copy_vector: "lk_writer s = WIdle \<Longrightarrow>
    access_step s (s\<lparr>lk_heap := (lk_heap s)(lk_next s \<mapsto> d), lk_next := Suc (lk_next s),
                   lk_writer := WCopied (lk_next s) (lk_data s)\<rparr>)"
| lock_unique: "lk_writer s = WCopied new old \<Longrightarrow> (\<And>t. \<not> holds_shared (lk_readers s t)) \<Longrightarrow>
    access_step s (s\<lparr>lk_writer := WLocked new old\<rparr>)"
| store_pointer: "lk_writer s = WLocked new old \<Longrightarrow>
    access_step s (s\<lparr>lk_data := Some new, lk_valid := True, lk_writer := WStored old\<rparr>)"
| unlock_unique: "lk_writer s = WStored old \<Longrightarrow>
    access_step s (s\<lparr>lk_writer := WUnlocked old\<rparr>)"
| delete_old: "lk_writer s = WUnlocked old \<Longrightarrow>
    access_step s (s\<lparr>lk_heap := free_buffer old (lk_heap s), lk_writer := WIdle\<rparr>)"

abbreviation access_reach :: "lock_state \<Rightarrow> bool" where
  "access_reach \<equiv> reach lock_init access_step"

inductive_cases access_stepE: "access_step s s'"

section \<open>The invariant\<close>

text \<open>What the writer still owns besides the stored pointer.\<close>

fun in_flight :: "writer \<Rightarrow> nat option \<Rightarrow> bool \<times> nat set" where
  "in_flight WIdle p = (True, {})"
| "in_flight (WCopied new old) p = (old = p, {new})"
| "in_flight (WLocked new old) p = (old = p, {new})"
| "in_flight (WStored old) p = (p \<noteq> None, set_option old)"
| "in_flight (WUnlocked old) p = (p \<noteq> None, set_option old)"

fun reader_ok :: "nat option \<Rightarrow> reader \<Rightarrow> bool" where
  "reader_ok p RIdle = True"
| "reader_ok p RChecked = (p \<noteq> None)"
| "reader_ok p RLocked = (p \<noteq> None)"
| "reader_ok p (RHolds a) = (p = Some a)"

definition readers_inv :: "lock_state \<Rightarrow> bool" where
  "readers_inv s = (\<forall>t. reader_ok (lk_data s) (lk_readers s t))"

definition exclusion_inv :: "lock_state \<Rightarrow> bool" where
  "exclusion_inv s = (holds_unique (lk_writer s) \<longrightarrow> (\<forall>t. \<not> holds_shared (lk_readers s t)))"

definition buffers_inv :: "lock_state \<Rightarrow> bool" where
  "buffers_inv s =
     ((lk_valid s \<longrightarrow> lk_data s \<noteq> None) \<and>
      fst (in_flight (lk_writer s) (lk_data s)) \<and>
      set_option (lk_data s) \<inter> snd (in_flight (lk_writer s) (lk_data s)) = {} \<and>
      dom (lk_heap s) = set_option (lk_data s) \<union> snd (in_flight (lk_writer s) (lk_data s)) \<and>
      (\<forall>a \<in> dom (lk_heap s). a < lk_next s))"

definition lock_inv :: "lock_state \<Rightarrow> bool" where
  "lock_inv s = (readers_inv s \<and> exclusion_inv s \<and> buffers_inv s)"

lemmas lock_inv_defs = readers_inv_def exclusion_inv_def buffers_inv_def lock_inv_def

lemma lock_inv_init: "lock_inv lock_init"
  by (simp add: lock_inv_defs lock_init_def)

lemma readers_holds: "readers_inv s \<Longrightarrow> lk_readers s t = RHolds a \<Longrightarrow> lk_data s = Some a"
  unfolding readers_inv_def by (drule spec [where x = t]) simp

lemma not_holding: "\<not> holds_shared r \<longleftrightarrow> r = RIdle \<or> r = RChecked"
  by (cases r) simp_all

lemma readers_update:
  assumes "readers_inv s" "reader_ok (lk_data s) r"
  shows "readers_inv (s\<lparr>lk_readers := (lk_readers s)(t := r)\<rparr>)"
  using assms by (simp add: readers_inv_def)

lemma readers_frame:
  "readers_inv s \<Longrightarrow> lk_readers s' = lk_readers s \<Longrightarrow> lk_data s' = lk_data s \<Longrightarrow> readers_inv s'"
  by (simp add: readers_inv_def)

lemma readers_nonnull: "readers_inv s \<Longrightarrow> lk_readers s t \<noteq> RIdle \<Longrightarrow> lk_data s \<noteq> None"
  unfolding readers_inv_def by (drule spec [where x = t]) (cases "lk_readers s t", simp_all)

lemma readers_step:
  assumes "access_step s s'" "lock_inv s"
  shows "readers_inv s'"
proof -
  have R: "readers_inv s" and X: "exclusion_inv s" and B: "buffers_inv s" using assms(2) by (simp_all add: lock_inv_def)
  show ?thesis
    using assms(1)
  proof cases
    case (store_pointer new old)
    have "\<forall>t. lk_readers s t = RIdle \<or> lk_readers s t = RChecked"
      using X store_pointer(2) by (simp add: exclusion_inv_def not_holding)
    then have "reader_ok (Some new) (lk_readers s t)" for t by (metis option.distinct(1) reader_ok.simps(1,2))
    then show ?thesis by (simp add: store_pointer(1) readers_inv_def)
  next
    case (read_flag t)
    then show ?thesis using R B by (simp add: readers_update buffers_inv_def)
  next
    case (lock_shared t)
    then show ?thesis using R readers_nonnull [OF R, of t] by (simp add: readers_update)
  qed (use R in \<open>simp_all add: readers_update readers_frame [OF R]\<close>)
qed

lemma exclusion_update:
  "exclusion_inv s \<Longrightarrow> holds_shared r \<longrightarrow> \<not> holds_unique (lk_writer s) \<Longrightarrow>
    exclusion_inv (s\<lparr>lk_readers := (lk_readers s)(t := r)\<rparr>)"
  unfolding exclusion_inv_def by simp blast

lemma exclusion_step:
  assumes "access_step s s'" "exclusion_inv s"
  shows "exclusion_inv s'"
  using assms(1)
proof cases
  case (copy_pointer t a)
  then have "\<not> holds_unique (lk_writer s)" using assms(2) unfolding exclusion_inv_def by (metis holds_shared.simps(1))
  then show ?thesis using copy_pointer assms(2) by (simp add: exclusion_update)
qed (use assms(2) in \<open>simp_all add: exclusion_update\<close>, simp_all add: exclusion_inv_def)

lemma buffers_step:
  assumes "access_step s s'" "buffers_inv s"
  shows "buffers_inv s'"
  using assms(1)
proof cases
  case (copy_vector d)
  then show ?thesis using assms(2) by (auto simp: buffers_inv_def)
next
  case (delete_old old)
  then show ?thesis using assms(2) by (cases old) (auto simp: buffers_inv_def free_buffer_def)
next
  case (store_pointer new old)
  then show ?thesis using assms(2) by (auto simp: buffers_inv_def)
qed (use assms(2) in \<open>simp_all add: buffers_inv_def\<close>)

lemma lock_inv_step: "lock_inv s \<Longrightarrow> access_step s s' \<Longrightarrow> lock_inv s'"
  using readers_step exclusion_step buffers_step by (simp add: lock_inv_def)

interpretation locks: invariant_system lock_init access_step lock_inv
  by unfold_locales (auto intro: lock_inv_init lock_inv_step)

lemmas access_reach_inv = locks.reach_inv

section \<open>Properties\<close>

text \<open>C5: no interleaving of any number of inference threads with the command thread
  lets a reader use a freed feature vector: the buffer a reader holds is the
  current one, is allocated, and keeps its bytes as long as the lock is held.
\<close>
theorem reader_buffer_alive:
  assumes "access_reach s" "lk_readers s t = RHolds a"
  shows "lk_data s = Some a \<and> lk_heap s a \<noteq> None \<and>
    (\<forall>s'. access_step s s' \<longrightarrow> lk_readers s' t = RHolds a \<longrightarrow> lk_heap s' a = lk_heap s a)"
proof -
  have inv: "lock_inv s" by (rule access_reach_inv) (rule assms(1))
  then have data: "lk_data s = Some a" using assms(2) by (simp add: lock_inv_def readers_holds)
  moreover have heap: "lk_heap s a \<noteq> None" using inv data by (auto simp: lock_inv_defs)
  moreover have "lk_heap s' a = lk_heap s a" if "access_step s s'" for s'
    using that
  proof cases
    case (copy_vector d)
    then show ?thesis using inv heap by (auto simp: lock_inv_def buffers_inv_def)
  next
    case (delete_old old)
    then show ?thesis using inv data by (cases old) (auto simp: lock_inv_def buffers_inv_def free_buffer_def)
  qed simp_all
  ultimately show ?thesis by blast
qed

text \<open>a load frees the replaced buffer exactly once and leaks nothing: when the
  writer is idle the only allocated buffer is the one in use, and the buffer it is
  about to delete is allocated and is not the one in use.
\<close>
theorem writer_frees_once:
  assumes "access_reach s"
  shows "(lk_writer s = WIdle \<longrightarrow> dom (lk_heap s) = set_option (lk_data s)) \<and>
    (\<forall>a. lk_writer s = WUnlocked (Some a) \<longrightarrow> lk_heap s a \<noteq> None \<and> lk_data s \<noteq> Some a)"
  using access_reach_inv [OF assms] by (auto simp: lock_inv_def buffers_inv_def)

text \<open>
  Runs: the command thread loads a first vector; then either thread 0 locks it and
  copies the pointer while the next load waits, or the next load replaces it.
\<close>

definition first_loaded :: lock_state where
  "first_loaded = \<lparr>lk_heap = [0 \<mapsto> ''v1''], lk_next = 1, lk_data = Some 0, lk_valid = True,
     lk_readers = (\<lambda>t. RIdle), lk_writer = WIdle\<rparr>"

definition reader_holds :: lock_state where
  "reader_holds = \<lparr>lk_heap = [0 \<mapsto> ''v1'', 1 \<mapsto> ''v2''], lk_next = 2, lk_data = Some 0, lk_valid = True,
     lk_readers = (\<lambda>t. RIdle)(0 := RHolds 0), lk_writer = WCopied 1 (Some 0)\<rparr>"

definition replaced :: lock_state where
  "replaced = \<lparr>lk_heap = [0 \<mapsto> ''v1'', 1 \<mapsto> ''v2''], lk_next = 2, lk_data = Some 1, lk_valid = True,
     lk_readers = (\<lambda>t. RIdle), lk_writer = WUnlocked (Some 0)\<rparr>"

lemma first_loaded_reach: "access_reach first_loaded"
proof -
  define s1 where "s1 = lock_init\<lparr>lk_heap := [0 \<mapsto> ''v1''], lk_next := 1, lk_writer := WCopied 0 None\<rparr>"
  define s2 where "s2 = s1\<lparr>lk_writer := WLocked 0 None\<rparr>"
  define s3 where "s3 = s2\<lparr>lk_data := Some 0, lk_valid := True, lk_writer := WStored None\<rparr>"
  define s4 where "s4 = s3\<lparr>lk_writer := WUnlocked None\<rparr>"
  note defs = s1_def s2_def s3_def s4_def lock_init_def
  have "access_step lock_init s1" using copy_vector [of lock_init "''v1''"] by (simp add: defs)
  moreover have "access_step s1 s2" using lock_unique [of s1 0 None] by (simp add: defs)
  moreover have "access_step s2 s3" using store_pointer [of s2 0 None] by (simp add: defs)
  moreover have "access_step s3 s4" using unlock_unique [of s3 None] by (simp add: defs)
  moreover have "access_step s4 first_loaded"
    using delete_old [of s4 None] by (simp add: defs free_buffer_def first_loaded_def)
  ultimately show ?thesis by (meson reach_start reach_step)
qed

lemma reader_holds_reach: "access_reach reader_holds"
proof -
  define s1 where "s1 = first_loaded\<lparr>lk_readers := (\<lambda>t. RIdle)(0 := RChecked)\<rparr>"
  define s2 where "s2 = first_loaded\<lparr>lk_readers := (\<lambda>t. RIdle)(0 := RLocked)\<rparr>"
  define s3 where "s3 = first_loaded\<lparr>lk_readers := (\<lambda>t. RIdle)(0 := RHolds 0)\<rparr>"
  note defs = s1_def s2_def s3_def first_loaded_def
  have "access_step first_loaded s1" using read_flag [of first_loaded 0] by (simp add: defs)
  moreover have "access_step s1 s2" using lock_shared [of s1 0] by (simp add: defs)
  moreover have "access_step s2 s3" using copy_pointer [of s2 0 0] by (simp add: defs)
  moreover have "access_step s3 reader_holds"
    using copy_vector [of s3 "''v2''"] by (simp add: defs reader_holds_def numeral_2_eq_2)
  ultimately show ?thesis using first_loaded_reach by (meson reach_step)
qed

lemma replaced_reach: "access_reach replaced"
proof -
  define s1 where "s1 = first_loaded\<lparr>lk_heap := [0 \<mapsto> ''v1'', 1 \<mapsto> ''v2''], lk_next := 2, lk_writer := WCopied 1 (Some 0)\<rparr>"
  define s2 where "s2 = s1\<lparr>lk_writer := WLocked 1 (Some 0)\<rparr>"
  define s3 where "s3 = s2\<lparr>lk_data := Some 1, lk_writer := WStored (Some 0)\<rparr>"
  note defs = s1_def s2_def s3_def first_loaded_def
  have "access_step first_loaded s1" using copy_vector [of first_loaded "''v2''"] by (simp add: defs numeral_2_eq_2)
  moreover have "access_step s1 s2" using lock_unique [of s1 1 "Some 0"] by (simp add: defs)
  moreover have "access_step s2 s3" using store_pointer [of s2 1 "Some 0"] by (simp add: defs)
  moreover have "access_step s3 replaced" using unlock_unique [of s3 "Some 0"] by (simp add: defs replaced_def)
  ultimately show ?thesis using first_loaded_reach by (meson reach_step)
qed

lemma reader_buffer_alive_witness: "lk_data reader_holds = Some 0 \<and> lk_heap reader_holds 0 \<noteq> None"
  using reader_buffer_alive [OF reader_holds_reach, of 0 0] by (simp add: reader_holds_def)

lemma writer_frees_once_witness: "lk_heap replaced 0 \<noteq> None \<and> lk_data replaced \<noteq> Some 0"
  using writer_frees_once [OF replaced_reach] by (simp add: replaced_def)

end
