(* ===== verification/Onnx_Structs.thy ===== *)
theory Onnx_Structs
  imports User_Events Server_Api
begin

text \<open>
  \<open>nimblenet/Executors/onnx\<close>, the data: the description of a model that comes with
  its plan (\<open>ONNXExecutorStructs\<close>), the requests of the client (\<open>ExecutorStructs.h\<close>),
  tensors and results.

  The ONNX Runtime is a parameter, the record \<open>onnx_env\<close>: its type codes, whether a
  session can be made of a plan, whether a tensor can be made over a buffer, and what
  a run writes into the output buffers (\<open>None\<close>: it throws); \<open>oe_show\<close> is \<open>to_string\<close>
  of an element of a buffer.  A tensor borrows its
  buffer; \<open>buffer\<close> says whose memory that is, \<open>Released\<close> when it was freed.
\<close>

section \<open>The description of a model\<close>

record tensor_info =
  tn_name :: string
  tn_dataType :: int
  tn_featureName :: string
  tn_isFeature :: bool
  tn_shape :: "int list"
  tn_size :: int
  tn_preprocessorJson :: json
  tn_toPreprocess :: bool

record preprocessor_input_info =
  pn_name :: string
  pn_inputNames :: "string list"

record onnx_model_info =
  om_valid :: bool
  om_inputs :: "tensor_info list"
  om_outputs :: "tensor_info list"
  om_preprocessorInputs :: "preprocessor_input_info list"

definition no_model_info :: onnx_model_info where
  "no_model_info = \<lparr>om_valid = False, om_inputs = [], om_outputs = [], om_preprocessorInputs = []\<rparr>"

text \<open>\<open>size *= val\<close>: the product is an \<open>int64_t\<close>, the assignment keeps its low 32 bits.\<close>

fun shape_size :: "int \<Rightarrow> int list \<Rightarrow> int outcome" where
  "shape_size acc [] = Inr acc"
| "shape_size acc (val # shape) =
     ubind (signed_result 64 (acc * val)) (\<lambda>p. shape_size (cast_signed 32 p) shape)"

definition tensor_from_json :: "json \<Rightarrow> tensor_info parsed" where
  "tensor_from_json j =
     pbind (field j ''name'' get_string) (\<lambda>name.
     pbind (field j ''dataType'' get_int) (\<lambda>dataType.
     pbind (optional_field j ''featureStore'' get_string []) (\<lambda>featureName.
     pbind (field j ''shape'' (get_vector get_int64)) (\<lambda>shape.
     pbind (lift_outcome (shape_size 1 shape)) (\<lambda>size.
       Inr \<lparr>tn_name = name, tn_dataType = dataType, tn_featureName = featureName,
            tn_isFeature = (jfind j ''featureStore'' \<noteq> None), tn_shape = shape, tn_size = size,
            tn_preprocessorJson = (case jfind j ''processor'' of None \<Rightarrow> JNull | Some p \<Rightarrow> p),
            tn_toPreprocess = (jfind j ''processor'' \<noteq> None)\<rparr>)))))"

definition preprocessor_input_from_json :: "json \<Rightarrow> preprocessor_input_info parsed" where
  "preprocessor_input_from_json j =
     pbind (field j ''name'' get_string) (\<lambda>name.
     pbind (field j ''inputNames'' (get_vector get_string)) (\<lambda>inputNames.
       Inr \<lparr>pn_name = name, pn_inputNames = inputNames\<rparr>))"

definition model_info_from_json :: "json \<Rightarrow> onnx_model_info parsed" where
  "model_info_from_json j =
     pbind (field j ''inputs'' (get_vector tensor_from_json)) (\<lambda>inputs.
     pbind (field j ''outputs'' (get_vector tensor_from_json)) (\<lambda>outputs.
     pbind (optional_field j ''inputsToProcessors'' (get_vector preprocessor_input_from_json) []) (\<lambda>pis.
       Inr \<lparr>om_valid = True, om_inputs = inputs, om_outputs = outputs, om_preprocessorInputs = pis\<rparr>)))"

section \<open>Requests\<close>

text \<open>
  \<open>UserInput\<close>: what \<open>data\<close> points to is either the elements of a tensor, \<open>Raw\<close>, or
  an array of \<open>SinglePreprocessorInput\<close>.
\<close>

datatype user_data = Raw string | Rows "single_input list"

record user_input =
  ui_data :: user_data
  ui_length :: int
  ui_name :: string
  ui_dataType :: int

type_synonym onnx_request = "user_input list"

definition PREPROCESSOR_INPUT_TYPE :: int where "PREPROCESSOR_INPUT_TYPE = 666"

text \<open>The first input of that name.\<close>

fun find_user_input :: "string \<Rightarrow> onnx_request \<Rightarrow> user_input option" where
  "find_user_input name [] = None"
| "find_user_input name (u # us) = (if ui_name u = name then Some u else find_user_input name us)"

section \<open>Tensors and results\<close>

datatype ('f, 'd) buffer =
    Released
  | Caller user_data
  | Feature_Bytes "string option"
  | Preprocessed "('f, 'd) any_input"

record ('f, 'd) tensor =
  tv_data :: "('f, 'd) buffer"
  tv_bytes :: int
  tv_shape :: "int list"
  tv_type :: int

record output_slot =
  op_name :: string
  op_type :: int
  op_shape :: "int list"
  op_length :: int
  op_bytes :: int

type_synonym inference_return = "(output_slot \<times> string) list"

record ('f, 'd, 'db, 's) onnx_env =
  oe_sql :: "'db sql"
  oe_float :: "('f, 'd) float_ops"
  oe_get_float :: "json \<Rightarrow> 'f parsed"
  oe_get_double :: "json \<Rightarrow> 'd parsed"
  oe_FLOAT :: int
  oe_INT32 :: int
  oe_INT64 :: int
  oe_DOUBLE :: int
  oe_session :: "string \<Rightarrow> 's option"
  oe_create :: "int \<Rightarrow> int list \<Rightarrow> int \<Rightarrow> bool"
  oe_show :: "int \<Rightarrow> ('f, 'd) buffer \<Rightarrow> int \<Rightarrow> string"
  oe_run :: "'s \<Rightarrow> (string \<times> ('f, 'd) tensor) list \<Rightarrow> output_slot list \<Rightarrow> string list option"

definition get_field_size_from_data_type :: "('f, 'd, 'db, 's) onnx_env \<Rightarrow> int \<Rightarrow> int" where
  "get_field_size_from_data_type E d =
     (if d = oe_FLOAT E \<or> d = oe_INT32 E then 4
      else if d = oe_DOUBLE E \<or> d = oe_INT64 E then 8 else 0)"

section \<open>Printing a tensor\<close>

text \<open>
  \<open>show i\<close> is \<open>to_string(data[i])\<close>; the last argument of \<open>dimension_string\<close> are the
  loop indices of one dimension.  \<open>i * totalSizeOfDepth\<close> is a product of two \<open>int\<close>s,
  the quotients by an \<open>int64_t\<close> are cut to \<open>int\<close> when they are passed on.
\<close>

fun recursive_string :: "(int \<Rightarrow> string outcome) \<Rightarrow> int list \<Rightarrow> int \<Rightarrow> int \<Rightarrow> string outcome" and
    dimension_string :: "(int \<Rightarrow> string outcome) \<Rightarrow> int list \<Rightarrow> int \<Rightarrow> int \<Rightarrow> int \<Rightarrow> int list \<Rightarrow> string outcome" where
  "recursive_string shw [] dataIndex depthSize = shw dataIndex"
| "recursive_string shw (n # shape) dataIndex depthSize =
     ubind (dimension_string shw shape n dataIndex depthSize [0 .. n - 1]) (\<lambda>s. Inr (''['' @ s @ '']''))"
| "dimension_string shw shape n dataIndex depthSize [] = Inr []"
| "dimension_string shw shape n dataIndex depthSize (i # is) =
     ubind (signed_result 32 (i * depthSize)) (\<lambda>offset.
     ubind (recursive_string shw shape (cast_signed 32 (dataIndex + offset sdiv n)) (cast_signed 32 (depthSize sdiv n))) (\<lambda>s.
     ubind (dimension_string shw shape n dataIndex depthSize is) (\<lambda>r.
       Inr (s @ (if i \<noteq> n - 1 then '','' else []) @ r))))"

end
