(* ===== verification/Onnx_Model.thy ===== *)
theory Onnx_Model
  imports Onnx_Structs Feature_Store
begin

text \<open>
  \<open>ONNXModel\<close> of \<open>nimblenet/Executors/onnx/src/ONNXExecutor.cpp\<close>: the construction of
  a model with its preprocessors and its dummy run, and an inference.

  Calls do not overlap here (\<open>_modelMutex\<close> and the locks of the feature stores are
  held by one caller).  A thrown \<open>Ort::Exception\<close> is \<open>Thrown\<close> where the source
  catches it and \<open>Uncaught\<close> where it does not.  An allocation of a negative size
  (a huge \<open>size_t\<close>) gives a null pointer, which the code then uses: \<open>Dangling\<close>.
\<close>

section \<open>State\<close>

record ('f, 'd, 's) onnx_model =
  md_id :: nat
  md_session :: 's
  md_info :: onnx_model_info
  md_modelId :: string
  md_version :: string
  md_inputTensors :: "('f, 'd) tensor option list"
  md_inputNamesToIdMap :: "(string, int) smap"

text \<open>
  \<open>ONNXPreProcessorInput\<close>: the pointer into \<open>_info.inputs\<close> is the identity of the
  model object and the index.
\<close>

record ('f, 'd) preprocessed_input =
  pr_modelInput :: "('f, 'd) any_input"
  pr_model :: nat
  pr_index :: int

record ('f, 'd, 'db) inference_state =
  in_tensors :: "('f, 'd) tensor option list"
  in_fill :: "('f, 'd) preprocessed_input list"
  in_events :: "('f, 'd, 'db) user_events"

definition any_length :: "('f, 'd) any_input \<Rightarrow> nat" where
  "any_length x = (case x of IFloat v \<Rightarrow> length v | IDouble v \<Rightarrow> length v | IInt32 v \<Rightarrow> length v | IInt64 v \<Rightarrow> length v)"

definition any_bytes :: "('f, 'd) any_input \<Rightarrow> nat" where
  "any_bytes x = (case x of IFloat v \<Rightarrow> 4 * length v | IDouble v \<Rightarrow> 8 * length v
     | IInt32 v \<Rightarrow> 4 * length v | IInt64 v \<Rightarrow> 8 * length v)"

section \<open>Tensors\<close>

datatype ('f, 'd) created = Null_Value | Thrown | Created "('f, 'd) tensor"

definition create_ort_tensor ::
  "('f, 'd, 'db, 's) onnx_env \<Rightarrow> tensor_info \<Rightarrow> ('f, 'd) buffer \<Rightarrow> ('f, 'd) created outcome" where
  "create_ort_tensor E t inputData =
     (let fieldSize = get_field_size_from_data_type E (tn_dataType t) in
      if fieldSize = 0 then Inr Null_Value
      else ubind (signed_result 32 (fieldSize * tn_size t)) (\<lambda>n.
        if oe_create E n (tn_shape t) (tn_dataType t)
        then Inr (Created \<lparr>tv_data = inputData, tv_bytes = n, tv_shape = tn_shape t, tv_type = tn_dataType t\<rparr>)
        else Inr Thrown))"

definition check_input :: "('f, 'd, 'db, 's) onnx_env \<Rightarrow> tensor_info \<Rightarrow> int \<Rightarrow> int \<Rightarrow> bool outcome" where
  "check_input E t dataType inputSizeBytes =
     (let fieldSize = get_field_size_from_data_type E dataType in
      if fieldSize = 0 then Inr False
      else ubind (signed_result 32 (tn_size t * fieldSize)) (\<lambda>expectedSizeBytes.
        if expectedSizeBytes \<noteq> inputSizeBytes then Inr False
        else if tn_dataType t \<noteq> dataType then Inr False
        else Inr True))"

definition place_tensor ::
  "('f, 'd, 'db, 's) onnx_env \<Rightarrow> tensor_info \<Rightarrow> ('f, 'd) buffer \<Rightarrow> int \<Rightarrow> ('f, 'd) tensor option list
    \<Rightarrow> (int option \<times> ('f, 'd) tensor option list) outcome" where
  "place_tensor E t inputData i ts =
     ubind (create_ort_tensor E t inputData) (\<lambda>c. case c of
       Null_Value \<Rightarrow> Inr (Some TERMINAL_ERROR, ts)
     | Thrown \<Rightarrow> Inl Uncaught
     | Created v \<Rightarrow> ubind (vec_set ts i (Some v)) (\<lambda>ts'. Inr (None, ts')))"

section \<open>Inputs of the client and of the feature stores\<close>

text \<open>The status is \<open>Some e\<close> when the inference returns the error \<open>e\<close>.\<close>

definition load_input ::
  "('f, 'd, 'db, 's) onnx_env \<Rightarrow> feature_map_t \<Rightarrow> onnx_request \<Rightarrow> int \<Rightarrow> tensor_info \<Rightarrow> ('f, 'd) tensor option list
    \<Rightarrow> (int option \<times> ('f, 'd) tensor option list) outcome" where
  "load_input E fm req i t ts =
     (if tn_toPreprocess t then Inr (None, ts)
      else if tn_isFeature t then
        (if get_read_lock fm (tn_featureName t)
         then ubind (manager_get_feature fm (tn_featureName t)) (\<lambda>f.
              ubind (check_input E t (ft_dataType f) (ft_byteLength f)) (\<lambda>ok.
                if ok then place_tensor E t (Feature_Bytes (ft_data f)) i ts
                else Inr (Some TERMINAL_ERROR, ts)))
         else Inr (Some RETRYABLE_ERROR, ts))
      else (case find_user_input (tn_name t) req of
          None \<Rightarrow> Inr (Some TERMINAL_ERROR, ts)
        | Some u \<Rightarrow>
            ubind (signed_result 32 (ui_length u * get_field_size_from_data_type E (ui_dataType u))) (\<lambda>n.
            ubind (check_input E t (ui_dataType u) n) (\<lambda>ok.
              if ok then place_tensor E t (Caller (ui_data u)) i ts
              else Inr (Some TERMINAL_ERROR, ts)))))"

fun load_inputs ::
  "('f, 'd, 'db, 's) onnx_env \<Rightarrow> feature_map_t \<Rightarrow> onnx_request \<Rightarrow> int \<Rightarrow> tensor_info list \<Rightarrow> ('f, 'd) tensor option list
    \<Rightarrow> (int option \<times> ('f, 'd) tensor option list) outcome" where
  "load_inputs E fm req i [] ts = Inr (None, ts)"
| "load_inputs E fm req i (t # tns) ts =
     ubind (load_input E fm req i t ts) (\<lambda>(status, ts').
       case status of None \<Rightarrow> load_inputs E fm req (i + 1) tns ts' | Some e \<Rightarrow> Inr (Some e, ts'))"

section \<open>Inputs of the preprocessors\<close>

text \<open>
  The two error messages about a wrong name have four conversions and three
  arguments: formatting them reads an argument that is not there (\<open>Indeterminate\<close>).
  \<open>clk k\<close> is the clock while the \<open>k\<close>-th input is computed.
\<close>

definition fill_input ::
  "('f, 'd, 'db, 's) onnx_env \<Rightarrow> (nat \<Rightarrow> nat \<Rightarrow> int \<Rightarrow> int) \<Rightarrow> ('f, 'd, 's) onnx_model \<Rightarrow> user_input \<Rightarrow> string
    \<Rightarrow> ('f, 'd, 'db) inference_state \<Rightarrow> (int option \<times> ('f, 'd, 'db) inference_state) outcome" where
  "fill_input E clk md u inputName st =
     (case smap_find (md_inputNamesToIdMap md) inputName of
        None \<Rightarrow> Inl Indeterminate
      | Some k \<Rightarrow>
          ubind (vec_get (om_inputs (md_info md)) k) (\<lambda>t.
            if \<not> tn_toPreprocess t then Inl Indeterminate
            else case ui_data u of
              Raw b \<Rightarrow> Inl Dangling
            | Rows rows \<Rightarrow>
                ubind (ue_get_model_input (oe_float E) (clk (length (in_fill st))) (in_events st)
                         (md_modelId md @ tn_name t) rows (ui_length u)) (\<lambda>(ue, r).
                  case r of
                    None \<Rightarrow> Inr (Some TERMINAL_ERROR, st\<lparr>in_events := ue\<rparr>)
                  | Some x \<Rightarrow>
                      let st1 = st\<lparr>in_events := ue, in_fill := in_fill st @
                                 [\<lparr>pr_modelInput = x, pr_model = md_id md, pr_index = k\<rparr>]\<rparr> in
                      ubind (signed_result 32 (cast_signed 32 (int (any_length x)) *
                               get_field_size_from_data_type E (tn_dataType t))) (\<lambda>n.
                      ubind (check_input E t (tn_dataType t) n) (\<lambda>ok.
                        if \<not> ok then Inr (Some TERMINAL_ERROR, st1)
                        else ubind (place_tensor E t (Preprocessed x) k (in_tensors st1)) (\<lambda>(e, ts).
                          Inr (e, st1\<lparr>in_tensors := ts\<rparr>)))))))"

fun fill_inputs ::
  "('f, 'd, 'db, 's) onnx_env \<Rightarrow> (nat \<Rightarrow> nat \<Rightarrow> int \<Rightarrow> int) \<Rightarrow> ('f, 'd, 's) onnx_model \<Rightarrow> user_input \<Rightarrow> string list
    \<Rightarrow> ('f, 'd, 'db) inference_state \<Rightarrow> (int option \<times> ('f, 'd, 'db) inference_state) outcome" where
  "fill_inputs E clk md u [] st = Inr (None, st)"
| "fill_inputs E clk md u (name # names) st =
     ubind (fill_input E clk md u name st) (\<lambda>(status, st').
       case status of None \<Rightarrow> fill_inputs E clk md u names st' | Some e \<Rightarrow> Inr (Some e, st'))"

fun run_preprocessors ::
  "('f, 'd, 'db, 's) onnx_env \<Rightarrow> (nat \<Rightarrow> nat \<Rightarrow> int \<Rightarrow> int) \<Rightarrow> ('f, 'd, 's) onnx_model \<Rightarrow> onnx_request
    \<Rightarrow> preprocessor_input_info list \<Rightarrow> ('f, 'd, 'db) inference_state
    \<Rightarrow> (int option \<times> ('f, 'd, 'db) inference_state) outcome" where
  "run_preprocessors E clk md req [] st = Inr (None, st)"
| "run_preprocessors E clk md req (p # ps) st =
     (case find_user_input (pn_name p) req of
        None \<Rightarrow> Inr (Some TERMINAL_ERROR, st)
      | Some u \<Rightarrow>
          if ui_dataType u \<noteq> PREPROCESSOR_INPUT_TYPE then Inr (Some TERMINAL_ERROR, st)
          else ubind (fill_inputs E clk md u (pn_inputNames p) st) (\<lambda>(status, st').
            case status of None \<Rightarrow> run_preprocessors E clk md req ps st' | Some e \<Rightarrow> Inr (Some e, st')))"

section \<open>Outputs\<close>

datatype alloc = Unsupported | Alloc_Thrown | Allocated "output_slot list"

fun allocate_output_memory :: "('f, 'd, 'db, 's) onnx_env \<Rightarrow> tensor_info list \<Rightarrow> alloc outcome" where
  "allocate_output_memory E [] = Inr (Allocated [])"
| "allocate_output_memory E (t # tns) =
     (let fieldSize = get_field_size_from_data_type E (tn_dataType t) in
      if fieldSize = 0 then Inr Unsupported
      else ubind (signed_result 32 (tn_size t * fieldSize)) (\<lambda>n.
        if n < 0 then Inl Dangling
        else if \<not> oe_create E n (tn_shape t) (tn_dataType t) then Inr Alloc_Thrown
        else ubind (allocate_output_memory E tns) (\<lambda>r. case r of
          Allocated slots \<Rightarrow> Inr (Allocated
            (\<lparr>op_name = tn_name t, op_type = tn_dataType t, op_shape = map (cast_signed 32) (tn_shape t),
              op_length = tn_size t, op_bytes = n\<rparr> # slots))
        | _ \<Rightarrow> Inr r)))"

section \<open>Reading tensors\<close>

definition buffer_bytes :: "('f, 'd) buffer \<Rightarrow> nat outcome" where
  "buffer_bytes b = (case b of
     Released \<Rightarrow> Inl Dangling
   | Caller (Raw s) \<Rightarrow> Inr (length s)
   | Caller (Rows rs) \<Rightarrow> Inl Dangling
   | Feature_Bytes None \<Rightarrow> Inl Dangling
   | Feature_Bytes (Some s) \<Rightarrow> Inr (length s)
   | Preprocessed x \<Rightarrow> Inr (any_bytes x))"

fun readable_tensors :: "('f, 'd) tensor option list \<Rightarrow> ('f, 'd) tensor list outcome" where
  "readable_tensors [] = Inr []"
| "readable_tensors (None # ts) = Inl Dangling"
| "readable_tensors (Some v # ts) =
     ubind (buffer_bytes (tv_data v)) (\<lambda>n.
       if int n < tv_bytes v then Inl (Out_Of_Bounds (tv_bytes v))
       else ubind (readable_tensors ts) (\<lambda>vs. Inr (v # vs)))"

text \<open>\<open>_session->Run\<close> reads every input tensor.\<close>

definition run_session ::
  "('f, 'd, 'db, 's) onnx_env \<Rightarrow> 's \<Rightarrow> tensor_info list \<Rightarrow> ('f, 'd) tensor option list \<Rightarrow> output_slot list
    \<Rightarrow> string list option outcome" where
  "run_session E s inputs ts slots =
     ubind (readable_tensors ts) (\<lambda>vs. Inr (oe_run E s (zip (map tn_name inputs) vs) slots))"

text \<open>The strings a debug configuration prints, one per input of a known type.\<close>

definition show_element :: "('f, 'd, 'db, 's) onnx_env \<Rightarrow> ('f, 'd) tensor \<Rightarrow> int \<Rightarrow> int \<Rightarrow> string outcome" where
  "show_element E v dataType i =
     ubind (buffer_bytes (tv_data v)) (\<lambda>n.
       if 0 \<le> i \<and> (i + 1) * get_field_size_from_data_type E dataType \<le> int n
       then Inr (oe_show E dataType (tv_data v) i) else Inl (Out_Of_Bounds i))"

fun debug_strings ::
  "('f, 'd, 'db, 's) onnx_env \<Rightarrow> tensor_info list \<Rightarrow> ('f, 'd) tensor option list \<Rightarrow> string list outcome" where
  "debug_strings E (t # tns) (v # ts) =
     (case v of
        None \<Rightarrow> Inl Dangling
      | Some v \<Rightarrow>
          ubind (if get_field_size_from_data_type E (tn_dataType t) = 0 then Inr []
                 else recursive_string (show_element E v (tn_dataType t)) (tv_shape v) 0 (tn_size t)) (\<lambda>s.
          ubind (debug_strings E tns ts) (\<lambda>r. Inr ((tn_name t @ ''='' @ s) # r))))"
| "debug_strings E tns ts = Inr []"

section \<open>An inference\<close>

record ('f, 'd, 'db, 's) inference_result =
  ir_status :: int
  ir_return :: "inference_return option"
  ir_fill :: "('f, 'd) preprocessed_input list"
  ir_model :: "('f, 'd, 's) onnx_model"
  ir_events :: "('f, 'd, 'db) user_events"

definition finish_inference ::
  "('f, 'd, 's) onnx_model \<Rightarrow> ('f, 'd, 'db) inference_state \<Rightarrow> int \<Rightarrow> inference_return option
    \<Rightarrow> ('f, 'd, 'db, 's) inference_result" where
  "finish_inference md st status ret =
     \<lparr>ir_status = status, ir_return = ret, ir_fill = in_fill st,
      ir_model = md\<lparr>md_inputTensors := in_tensors st\<rparr>, ir_events = in_events st\<rparr>"

definition prepare_inputs ::
  "('f, 'd, 'db, 's) onnx_env \<Rightarrow> (nat \<Rightarrow> nat \<Rightarrow> int \<Rightarrow> int) \<Rightarrow> feature_map_t \<Rightarrow> ('f, 'd, 's) onnx_model
    \<Rightarrow> onnx_request \<Rightarrow> ('f, 'd, 'db) user_events \<Rightarrow> (int option \<times> ('f, 'd, 'db) inference_state) outcome" where
  "prepare_inputs E clk fm md req ue =
     ubind (load_inputs E fm req 0 (om_inputs (md_info md)) (md_inputTensors md)) (\<lambda>(status, ts).
       let st = \<lparr>in_tensors = ts, in_fill = [], in_events = ue\<rparr> in
       case status of
         Some e \<Rightarrow> Inr (Some e, st)
       | None \<Rightarrow> run_preprocessors E clk md req (om_preprocessorInputs (md_info md)) st)"

definition run_inference ::
  "('f, 'd, 'db, 's) onnx_env \<Rightarrow> bool \<Rightarrow> ('f, 'd, 's) onnx_model \<Rightarrow> ('f, 'd, 'db) inference_state
    \<Rightarrow> (int \<times> inference_return option) outcome" where
  "run_inference E debug md st =
     (let info = md_info md in
      ubind (allocate_output_memory E (om_outputs info)) (\<lambda>a. case a of
        Unsupported \<Rightarrow> Inr (TERMINAL_ERROR, None)
      | Alloc_Thrown \<Rightarrow> Inl Uncaught
      | Allocated slots \<Rightarrow>
          ubind (if debug then debug_strings E (om_inputs info) (in_tensors st) else Inr []) (\<lambda>printed.
          ubind (run_session E (md_session md) (om_inputs info) (in_tensors st) slots) (\<lambda>r. case r of
            None \<Rightarrow> Inr (TERMINAL_ERROR, None)
          | Some data \<Rightarrow> Inr (SUCCESS, Some (zip slots data))))))"

definition model_get_inference ::
  "('f, 'd, 'db, 's) onnx_env \<Rightarrow> bool \<Rightarrow> (nat \<Rightarrow> nat \<Rightarrow> int \<Rightarrow> int) \<Rightarrow> feature_map_t \<Rightarrow> ('f, 'd, 's) onnx_model
    \<Rightarrow> onnx_request \<Rightarrow> ('f, 'd, 'db) user_events \<Rightarrow> ('f, 'd, 'db, 's) inference_result outcome" where
  "model_get_inference E debug clk fm md req ue =
     ubind (prepare_inputs E clk fm md req ue) (\<lambda>(status, st). case status of
       Some e \<Rightarrow> Inr (finish_inference md st e None)
     | None \<Rightarrow> ubind (run_inference E debug md st) (\<lambda>(e, ret). Inr (finish_inference md st e ret)))"

section \<open>Construction\<close>

text \<open>The dummy run: its result and its exceptions are dropped, then its buffers are freed.\<close>

fun dummy_tensors :: "('f, 'd, 'db, 's) onnx_env \<Rightarrow> tensor_info list \<Rightarrow> ('f, 'd) tensor option list option outcome" where
  "dummy_tensors E [] = Inr (Some [])"
| "dummy_tensors E (t # tns) =
     ubind (signed_result 32 (get_field_size_from_data_type E (tn_dataType t) * tn_size t)) (\<lambda>n.
       if n < 0 then Inl Dangling
       else ubind (create_ort_tensor E t Released) (\<lambda>c. case c of
         Created v \<Rightarrow> ubind (dummy_tensors E tns) (\<lambda>r. Inr (map_option (\<lambda>ts. Some v # ts) r))
       | _ \<Rightarrow> Inr None))"

definition run_dummy_inference ::
  "('f, 'd, 'db, 's) onnx_env \<Rightarrow> onnx_model_info \<Rightarrow> ('f, 'd) tensor option list option outcome" where
  "run_dummy_inference E info =
     ubind (dummy_tensors E (om_inputs info)) (\<lambda>r. case r of
       None \<Rightarrow> Inr None
     | Some ts \<Rightarrow> ubind (allocate_output_memory E (om_outputs info)) (\<lambda>a. case a of
         Allocated slots \<Rightarrow> Inr (Some ts)
       | _ \<Rightarrow> Inr None))"

definition int32_instance :: "(i32, 'f, 'd) instance_of" where
  "int32_instance = \<lparr>io_type = int_type, io_wrap = PInt32, io_get = (\<lambda>j. pbind (get_int j) (\<lambda>x. Inr (word_of_int x)))\<rparr>"

definition int64_instance :: "(i64, 'f, 'd) instance_of" where
  "int64_instance = \<lparr>io_type = int_type, io_wrap = PInt64, io_get = (\<lambda>j. pbind (get_int64 j) (\<lambda>x. Inr (word_of_int x)))\<rparr>"

type_synonym load_clock = "(nat \<Rightarrow> nat \<Rightarrow> nat \<Rightarrow> int) \<times> (nat \<Rightarrow> nat \<Rightarrow> int)"

definition create_for_type ::
  "('f, 'd, 'db, 's) onnx_env \<Rightarrow> load_clock \<Rightarrow> ('f, 'd, 'db) user_events \<Rightarrow> string \<Rightarrow> int \<Rightarrow> json
    \<Rightarrow> (bool \<times> ('f, 'd, 'db) user_events) outcome" where
  "create_for_type E c ue ident dataType j =
     (let F = oe_float E; sq = oe_sql E in
      if dataType = oe_FLOAT E then
        ue_create_preprocessor sq F \<lparr>io_type = fo_float F, io_wrap = PFloat, io_get = oe_get_float E\<rparr> (fst c) (snd c) ue ident j
      else if dataType = oe_INT64 E then ue_create_preprocessor sq F int64_instance (fst c) (snd c) ue ident j
      else if dataType = oe_INT32 E then ue_create_preprocessor sq F int32_instance (fst c) (snd c) ue ident j
      else if dataType = oe_DOUBLE E then
        ue_create_preprocessor sq F \<lparr>io_type = fo_double F, io_wrap = PDouble, io_get = oe_get_double E\<rparr> (fst c) (snd c) ue ident j
      else Inr (False, ue))"

text \<open>\<open>False\<close>: the constructor throws.\<close>

fun create_preprocessors ::
  "('f, 'd, 'db, 's) onnx_env \<Rightarrow> (nat \<Rightarrow> load_clock) \<Rightarrow> string \<Rightarrow> nat \<Rightarrow> tensor_info list \<Rightarrow> ('f, 'd, 'db) user_events
    \<Rightarrow> (bool \<times> ('f, 'd, 'db) user_events) outcome" where
  "create_preprocessors E c modelId i [] ue = Inr (True, ue)"
| "create_preprocessors E c modelId i (t # tns) ue =
     (if \<not> tn_toPreprocess t then create_preprocessors E c modelId (Suc i) tns ue
      else ubind (create_for_type E (c i) ue (modelId @ tn_name t) (tn_dataType t) (tn_preprocessorJson t)) (\<lambda>(ok, ue').
        if ok then create_preprocessors E c modelId (Suc i) tns ue' else Inr (False, ue')))"

definition input_ids :: "tensor_info list \<Rightarrow> (string, int) smap" where
  "input_ids tns = smap_of (zip (map tn_name tns) (map int [0..<length tns]))"

definition new_onnx_model ::
  "('f, 'd, 'db, 's) onnx_env \<Rightarrow> (nat \<Rightarrow> load_clock) \<Rightarrow> nat \<Rightarrow> onnx_model_info \<Rightarrow> string \<Rightarrow> string \<Rightarrow> string
    \<Rightarrow> ('f, 'd, 'db) user_events \<Rightarrow> (('f, 'd, 's) onnx_model option \<times> ('f, 'd, 'db) user_events) outcome" where
  "new_onnx_model E c ident info plan version modelId ue =
     (case oe_session E plan of
        None \<Rightarrow> Inr (None, ue)
      | Some s \<Rightarrow>
          ubind (create_preprocessors E c modelId 0 (om_inputs info) ue) (\<lambda>(ok, ue').
            if \<not> ok then Inr (None, ue')
            else ubind (run_dummy_inference E info) (\<lambda>r. case r of
              None \<Rightarrow> Inr (None, ue')
            | Some ts \<Rightarrow> Inr (Some \<lparr>md_id = ident, md_session = s, md_info = info, md_modelId = modelId,
                md_version = version, md_inputTensors = ts, md_inputNamesToIdMap = input_ids (om_inputs info)\<rparr>, ue'))))"

end
