(* ===== verification/Resource_Structs.thy ===== *)
theory Resource_Structs
  imports Feature_Store
begin

text \<open>
  \<open>nimblenet/ResourceManager\<close>, \<open>ResourceManagerStructs\<close>: what is kept of plans and
  features in the files of the device, as \<open>json\<close>.
\<close>

record model_data =
  ml_valid :: bool
  ml_version :: string
  ml_model :: string

record plan_data =
  pl_valid :: bool
  pl_version :: string
  pl_plan :: string
  pl_extraFields :: string
  pl_planLength :: int

definition no_model_data :: model_data where
  "no_model_data = \<lparr>ml_valid = False, ml_version = [], ml_model = []\<rparr>"

definition no_plan_data :: plan_data where
  "no_plan_data = \<lparr>pl_valid = False, pl_version = [], pl_plan = [], pl_extraFields = [], pl_planLength = 0\<rparr>"

section \<open>Encoders and decoders\<close>

definition model_data_to_json :: "model_data \<Rightarrow> json" where
  "model_data_to_json m = jobject [(''version'', JString (ml_version m)), (''model'', JString (ml_model m))]"

definition model_data_from_json :: "json \<Rightarrow> model_data parsed" where
  "model_data_from_json j =
     pbind (field j ''model'' get_string) (\<lambda>model.
     pbind (field j ''version'' get_string) (\<lambda>version.
       Inr (no_model_data\<lparr>ml_model := model, ml_version := version\<rparr>)))"

definition plan_data_to_json :: "plan_data \<Rightarrow> json" where
  "plan_data_to_json p = jobject [(''version'', JString (pl_version p)), (''extras'', JString (pl_extraFields p)),
     (''planLength'', JInt (pl_planLength p))]"

definition plan_data_from_json :: "json \<Rightarrow> plan_data parsed" where
  "plan_data_from_json j =
     pbind (field j ''version'' get_string) (\<lambda>version.
     pbind (field j ''extras'' get_string) (\<lambda>extras.
     pbind (field j ''planLength'' get_int) (\<lambda>planLength.
       Inr (no_plan_data\<lparr>pl_version := version, pl_extraFields := extras, pl_planLength := planLength\<rparr>))))"

definition feature_data_to_json :: "feature_data \<Rightarrow> json" where
  "feature_data_to_json d = jobject [(''version'', JString (fd_version d)), (''dataType'', JInt (fd_dataType d)),
     (''featureLength'', JInt (fd_featureLength d)), (''expiry'', JInt (fd_expiry d))]"

definition feature_data_from_json :: "json \<Rightarrow> feature_data parsed" where
  "feature_data_from_json j =
     pbind (field j ''version'' get_string) (\<lambda>version.
     pbind (field j ''dataType'' get_int) (\<lambda>dataType.
     pbind (field j ''featureLength'' get_int) (\<lambda>featureLength.
     pbind (field j ''expiry'' get_uint64) (\<lambda>expiry.
       Inr (no_feature_data\<lparr>fd_version := version, fd_dataType := dataType,
         fd_featureLength := featureLength, fd_expiry := expiry, fd_valid := True\<rparr>)))))"

section \<open>They are codecs\<close>

text \<open>A value that fits the C++ fields is read back as it was written, less the bytes that go to a file of their own.\<close>

definition plan_data_fits :: "plan_data \<Rightarrow> bool" where
  "plan_data_fits p = (- (2 ^ 31) \<le> pl_planLength p \<and> pl_planLength p < 2 ^ 31)"

definition feature_data_fits :: "feature_data \<Rightarrow> bool" where
  "feature_data_fits d = (- (2 ^ 31) \<le> fd_dataType d \<and> fd_dataType d < 2 ^ 31 \<and> 0 \<le> fd_featureLength d \<and>
     fd_featureLength d < 2 ^ 31 \<and> 0 \<le> fd_expiry d \<and> fd_expiry d < 2 ^ 64)"

definition plan_view :: "plan_data \<Rightarrow> plan_data" where
  "plan_view p = p\<lparr>pl_valid := False, pl_plan := []\<rparr>"

definition feature_view :: "feature_data \<Rightarrow> feature_data" where
  "feature_view d = d\<lparr>fd_valid := True, fd_feature := None\<rparr>"

interpretation model_codec: json_codec model_data_to_json model_data_from_json "\<lambda>m. m\<lparr>ml_valid := False\<rparr>" "\<lambda>m. True"
  by unfold_locales
    (simp add: model_data_to_json_def model_data_from_json_def no_model_data_def field_def jat_jobject get_string_def)

interpretation plan_codec: json_codec plan_data_to_json plan_data_from_json plan_view plan_data_fits
  by unfold_locales
    (simp add: plan_data_to_json_def plan_data_from_json_def no_plan_data_def plan_view_def plan_data_fits_def
      field_def jat_jobject get_string_def get_int_def cast_signed_32)

interpretation feature_codec: json_codec feature_data_to_json feature_data_from_json feature_view feature_data_fits
  by unfold_locales
    (simp add: feature_data_to_json_def feature_data_from_json_def no_feature_data_def feature_view_def
      feature_data_fits_def field_def jat_jobject get_string_def get_int_def get_uint64_def cast_signed_32)

end
