(* ===== verification/Onnx_Executor.thy ===== *)
theory Onnx_Executor
  imports Onnx_Model Resource_Structs
begin

text \<open>
  \<open>ONNXExecutor\<close> and \<open>InferenceInputsDatabase\<close> of \<open>nimblenet/Executors/onnx\<close>: the
  loaded models by name, the retries left for each, and the ring buffer with the
  preprocessed inputs of the last inferences.

  A model object has an identity; it is destroyed when another one takes its place
  in \<open>modelMap\<close>, and the pointers into its description dangle from then on.
\<close>

section \<open>The inputs of the last inferences\<close>

record ('f, 'd) inference_db =
  id_inputs :: "('f, 'd) preprocessed_input list list"
  id_inferIds :: "string list"
  id_overWriteInferenceIndex :: int
  id_maxInferencesSaved :: int

text \<open>\<open>std::vector(n)\<close> of a negative \<open>n\<close> throws.\<close>

definition new_inference_db :: "int \<Rightarrow> ('f, 'd) inference_db outcome" where
  "new_inference_db maxInferencesSaved =
     (if maxInferencesSaved < 0 then Inl Uncaught
      else Inr \<lparr>id_inputs = replicate (nat maxInferencesSaved) [], id_inferIds = replicate (nat maxInferencesSaved) [],
                id_overWriteInferenceIndex = 0, id_maxInferencesSaved = maxInferencesSaved\<rparr>)"

definition add_input_for_inferId ::
  "string \<Rightarrow> ('f, 'd) preprocessed_input list \<Rightarrow> ('f, 'd) inference_db \<Rightarrow> ('f, 'd) inference_db outcome" where
  "add_input_for_inferId inferId preprocessorInputs db =
     (if id_maxInferencesSaved db = 0 then Inr db
      else let k = id_overWriteInferenceIndex db in
           ubind (vec_set (id_inputs db) k preprocessorInputs) (\<lambda>inputs.
           ubind (vec_set (id_inferIds db) k inferId) (\<lambda>ids.
             Inr (db\<lparr>id_inputs := inputs, id_inferIds := ids,
                     id_overWriteInferenceIndex := (k + 1) mod id_maxInferencesSaved db\<rparr>))))"

record ('f, 'd) saved_input =
  sv_name :: string
  sv_type :: int
  sv_shape :: "int list"
  sv_length :: int
  sv_data :: "('f, 'd) any_input"
  sv_bytes :: int

text \<open>\<open>infos\<close> finds the description of a model object that is still alive.\<close>

fun populate_preprocessors_input_in_return_object ::
  "('f, 'd, 'db, 's) onnx_env \<Rightarrow> (nat \<Rightarrow> onnx_model_info option) \<Rightarrow> ('f, 'd) preprocessed_input list
    \<Rightarrow> ('f, 'd) saved_input list option outcome" where
  "populate_preprocessors_input_in_return_object E infos [] = Inr (Some [])"
| "populate_preprocessors_input_in_return_object E infos (p # ps) =
     (case infos (pr_model p) of
        None \<Rightarrow> Inl Dangling
      | Some info \<Rightarrow>
          ubind (vec_get (om_inputs info) (pr_index p)) (\<lambda>t.
            let fieldSize = get_field_size_from_data_type E (tn_dataType t) in
            if fieldSize = 0 then Inr None
            else ubind (signed_result 32 (tn_size t * fieldSize)) (\<lambda>n.
              if n < 0 then Inl Dangling
              else if int (any_bytes (pr_modelInput p)) < n then Inl (Out_Of_Bounds n)
              else ubind (populate_preprocessors_input_in_return_object E infos ps) (\<lambda>r.
                Inr (map_option (\<lambda>os. \<lparr>sv_name = tn_name t, sv_type = tn_dataType t,
                  sv_shape = map (cast_signed 32) (tn_shape t), sv_length = tn_size t,
                  sv_data = pr_modelInput p, sv_bytes = n\<rparr> # os) r)))))"

fun find_inferId :: "string list \<Rightarrow> string \<Rightarrow> int \<Rightarrow> int option" where
  "find_inferId [] inferId i = None"
| "find_inferId (x # xs) inferId i = (if x = inferId then Some i else find_inferId xs inferId (i + 1))"

definition db_get_inputs_for_inferId ::
  "('f, 'd, 'db, 's) onnx_env \<Rightarrow> (nat \<Rightarrow> onnx_model_info option) \<Rightarrow> string \<Rightarrow> ('f, 'd) inference_db
    \<Rightarrow> ('f, 'd) saved_input list option outcome" where
  "db_get_inputs_for_inferId E infos inferId db =
     (case find_inferId (id_inferIds db) inferId 0 of
        None \<Rightarrow> Inr None
      | Some i \<Rightarrow> ubind (vec_get (id_inputs db) i) (populate_preprocessors_input_in_return_object E infos))"

section \<open>The executor\<close>

record ('f, 'd, 's) executor =
  ex_modelMap :: "(string, ('f, 'd, 's) onnx_model) smap"
  ex_loadModelRetries :: "(string, int) smap"
  ex_isModelUpdated :: "(string, bool) smap"
  ex_inferenceDataBase :: "('f, 'd) inference_db"
  ex_created :: nat

definition new_executor :: "config \<Rightarrow> ('f, 'd, 's) executor outcome" where
  "new_executor c =
     ubind (new_inference_db (cf_maxInputsToSave c)) (\<lambda>db.
       Inr \<lparr>ex_modelMap = [],
            ex_loadModelRetries = fold (\<lambda>m. smap_put m DEFAULT_LOAD_MODEL_RETRIES) (cf_modelIds c) [],
            ex_isModelUpdated = fold (\<lambda>m. smap_put m False) (cf_modelIds c) [],
            ex_inferenceDataBase = db, ex_created = 0\<rparr>)"

definition check_plan_loaded :: "('f, 'd, 's) executor \<Rightarrow> string \<Rightarrow> bool" where
  "check_plan_loaded ex modelId = smap_has (ex_modelMap ex) modelId"

definition get_plan_version :: "('f, 'd, 's) executor \<Rightarrow> string \<Rightarrow> string" where
  "get_plan_version ex modelId =
     (case smap_find (ex_modelMap ex) modelId of Some md \<Rightarrow> md_version md | None \<Rightarrow> [])"

definition reset_model_retries :: "string \<Rightarrow> ('f, 'd, 's) executor \<Rightarrow> ('f, 'd, 's) executor" where
  "reset_model_retries modelId ex =
     (if smap_has (ex_loadModelRetries ex) modelId
      then ex\<lparr>ex_loadModelRetries := smap_put modelId DEFAULT_LOAD_MODEL_RETRIES (ex_loadModelRetries ex)\<rparr> else ex)"

definition update_model_retries :: "string \<Rightarrow> ('f, 'd, 's) executor \<Rightarrow> ('f, 'd, 's) executor" where
  "update_model_retries modelId ex =
     (case smap_find (ex_loadModelRetries ex) modelId of
        Some n \<Rightarrow> ex\<lparr>ex_loadModelRetries := smap_put modelId (n - 1) (ex_loadModelRetries ex)\<rparr>
      | None \<Rightarrow> ex)"

text \<open>\<open>_isModelUpdated[modelId]\<close> of a loaded model that is not configured makes an entry.\<close>

definition can_model_retry :: "string \<Rightarrow> ('f, 'd, 's) executor \<Rightarrow> bool \<times> ('f, 'd, 's) executor" where
  "can_model_retry modelId ex =
     (let ex1 = (if check_plan_loaded ex modelId
                 then ex\<lparr>ex_isModelUpdated := smap_ensure False modelId (ex_isModelUpdated ex)\<rparr> else ex) in
      if check_plan_loaded ex modelId \<and> smap_at False (ex_isModelUpdated ex1) modelId then (False, ex1)
      else (case smap_find (ex_loadModelRetries ex1) modelId of Some n \<Rightarrow> 0 < n | None \<Rightarrow> False, ex1))"

definition plan_updated :: "string \<Rightarrow> bool \<Rightarrow> ('f, 'd, 's) executor \<Rightarrow> ('f, 'd, 's) executor" where
  "plan_updated modelId isUpdated ex =
     (if smap_has (ex_isModelUpdated ex) modelId
      then ex\<lparr>ex_isModelUpdated := smap_put modelId isUpdated (ex_isModelUpdated ex)\<rparr> else ex)"

text \<open>
  \<open>catch (...)\<close> makes every exception of the constructor the result \<open>false\<close>.  The one
  exception that stays an error of the model is \<open>stoll\<close> in the row callback: it has
  to cross the C frames of SQLite to get there.
\<close>

definition executor_load_plan ::
  "('f, 'd, 'db, 's) onnx_env \<Rightarrow> (nat \<Rightarrow> load_clock) \<Rightarrow> string \<Rightarrow> plan_data \<Rightarrow> ('f, 'd, 's) executor
    \<Rightarrow> ('f, 'd, 'db) user_events \<Rightarrow> (bool \<times> ('f, 'd, 's) executor \<times> ('f, 'd, 'db) user_events) outcome" where
  "executor_load_plan E c modelId planData ex ue =
     ubind (parser_get (sq_parse (oe_sql E)) no_model_info model_info_from_json (pl_extraFields planData)) (\<lambda>info.
       if \<not> om_valid info then Inr (False, ex, ue)
       else ubind (new_onnx_model E c (ex_created ex) info (pl_plan planData) (pl_version planData) modelId ue) (\<lambda>(r, ue').
         let ex1 = ex\<lparr>ex_created := Suc (ex_created ex)\<rparr> in
         case r of
           None \<Rightarrow> Inr (False, ex1, ue')
         | Some md \<Rightarrow> Inr (True, ex1\<lparr>ex_modelMap := smap_put modelId md (ex_modelMap ex1)\<rparr>, ue')))"

definition live_infos :: "('f, 'd, 's) executor \<Rightarrow> nat \<Rightarrow> onnx_model_info option" where
  "live_infos ex k = map_option md_info (find (\<lambda>md. md_id md = k) (map snd (ex_modelMap ex)))"

definition get_inputs_for_inferId ::
  "('f, 'd, 'db, 's) onnx_env \<Rightarrow> string \<Rightarrow> ('f, 'd, 's) executor \<Rightarrow> ('f, 'd) saved_input list option outcome" where
  "get_inputs_for_inferId E inferId ex =
     db_get_inputs_for_inferId E (live_infos ex) inferId (ex_inferenceDataBase ex)"

record ('f, 'd, 'db, 's) executor_result =
  er_status :: int
  er_return :: "inference_return option"
  er_executor :: "('f, 'd, 's) executor"
  er_events :: "('f, 'd, 'db) user_events"

definition executor_get_inference ::
  "('f, 'd, 'db, 's) onnx_env \<Rightarrow> bool \<Rightarrow> (nat \<Rightarrow> nat \<Rightarrow> int \<Rightarrow> int) \<Rightarrow> feature_map_t \<Rightarrow> string \<Rightarrow> string \<Rightarrow> onnx_request
    \<Rightarrow> ('f, 'd, 's) executor \<Rightarrow> ('f, 'd, 'db) user_events \<Rightarrow> ('f, 'd, 'db, 's) executor_result outcome" where
  "executor_get_inference E debug clk fm inferId modelId req ex ue =
     (case smap_find (ex_modelMap ex) modelId of
        None \<Rightarrow> Inr \<lparr>er_status = TERMINAL_ERROR, er_return = None, er_executor = ex, er_events = ue\<rparr>
      | Some md \<Rightarrow>
          ubind (model_get_inference E debug clk fm md req ue) (\<lambda>r.
          ubind (add_input_for_inferId inferId (ir_fill r) (ex_inferenceDataBase ex)) (\<lambda>db.
            Inr \<lparr>er_status = ir_status r, er_return = ir_return r,
                 er_executor = ex\<lparr>ex_modelMap := smap_put modelId (ir_model r) (ex_modelMap ex), ex_inferenceDataBase := db\<rparr>,
                 er_events = ir_events r\<rparr>)))"

text \<open>\<open>ModelStatus\<close>: ready, and the version.\<close>

definition get_model_status :: "('f, 'd, 's) executor \<Rightarrow> string \<Rightarrow> (bool \<times> string) option" where
  "get_model_status ex modelId =
     (case smap_find (ex_modelMap ex) modelId of Some md \<Rightarrow> Some (True, md_version md) | None \<Rightarrow> None)"

end
