(* ===== verification/Onnx_Contract.thy ===== *)
theory Onnx_Contract
  imports Onnx_Executor
begin

text \<open>
  What a model and its executor promise: the size of a tensor, the printed form of a
  tensor, where the tensors of a run come from, and the statuses of an inference.
\<close>

section \<open>The size of a tensor\<close>

lemma cast_signed_cong: "x mod 2 ^ w = y mod 2 ^ w \<Longrightarrow> cast_signed w x = cast_signed w y"
  by (simp add: cast_signed_def)

lemma cast_signed_mod: "cast_signed w x mod 2 ^ w = x mod 2 ^ w"
  by (simp add: cast_signed_def Let_def mod_diff_left_eq)

lemma cast_signed_mult: "cast_signed w (cast_signed w x * y) = cast_signed w (x * y)"
  by (rule cast_signed_cong) (metis cast_signed_mod mod_mult_left_eq)

lemma shape_size_cast:
  "shape_size acc shape = Inr k \<Longrightarrow> cast_signed 32 acc = acc \<Longrightarrow> k = cast_signed 32 (acc * prod_list shape)"
proof (induction shape arbitrary: acc)
  case (Cons n shape)
  have "cast_signed 32 (cast_signed 32 (acc * n)) = cast_signed 32 (acc * n)"
    using cast_signed_mult [of 32 "acc * n" 1] by simp
  with Cons have "k = cast_signed 32 (cast_signed 32 (acc * n) * prod_list shape)"
    by (auto simp: ubind_Inr_iff signed_result_Inr)
  then show ?case by (simp add: cast_signed_mult mult.assoc)
qed simp

text \<open>the size of a described tensor is the product of its dimensions cut to a 32-bit
  integer; so it is the number of elements when that number is below 2 ^ 31, and
  silently something else when it is not.
\<close>
theorem tensor_size_product:
  assumes "tensor_from_json j = Inr t"
  shows "tn_size t = cast_signed 32 (prod_list (tn_shape t)) \<and>
    (- (2 ^ 31) \<le> prod_list (tn_shape t) \<longrightarrow> prod_list (tn_shape t) < 2 ^ 31 \<longrightarrow> tn_size t = prod_list (tn_shape t))"
proof -
  have "cast_signed 32 1 = 1" by (simp add: cast_signed_def)
  then have "tn_size t = cast_signed 32 (prod_list (tn_shape t))"
    using assms by (auto simp: tensor_from_json_def pbind_Inr_iff lift_outcome_Inr_iff dest!: shape_size_cast)
  then show ?thesis using cast_signed_32 [of "prod_list (tn_shape t)"] by auto
qed

lemma tensor_size_product_witness:
  "\<exists>t. tensor_from_json (jobject [(''name'', JString ''x''), (''dataType'', JInt 1),
      (''shape'', JArray [JInt 65536, JInt 65536])]) = Inr t \<and> tn_size t = 0"
proof -
  let ?j = "jobject [(''name'', JString ''x''), (''dataType'', JInt 1), (''shape'', JArray [JInt 65536, JInt 65536])]"
  have "map_sum id tn_shape (tensor_from_json ?j) = Inr [65536, 65536]" by code_simp
  then obtain t where t: "tensor_from_json ?j = Inr t" "tn_shape t = [65536, 65536]"
    by (cases "tensor_from_json ?j") auto
  with tensor_size_product [OF t(1)] show ?thesis by (simp add: cast_signed_def)
qed

section \<open>The printed form of a tensor\<close>

text \<open>The reference: row-major elements, each dimension in brackets.\<close>

fun comma_join :: "string list \<Rightarrow> string" where
  "comma_join [] = []"
| "comma_join [s] = s"
| "comma_join (s # t # ss) = s @ '','' @ comma_join (t # ss)"

fun nested_string :: "(nat \<Rightarrow> string) \<Rightarrow> nat list \<Rightarrow> nat \<Rightarrow> string" where
  "nested_string f [] k = f k"
| "nested_string f (n # ns) k = ''['' @ comma_join (map (\<lambda>i. nested_string f ns (k + i * prod_list ns)) [0..<n]) @ '']''"

lemma sdiv_nat: "int a sdiv int b = int (a div b)"
  by (simp add: signed_divide_int_def sgn_if zdiv_int [symmetric])

lemma cast_signed_nat: "n < 2 ^ 31 \<Longrightarrow> cast_signed 32 (int n) = int n"
  by (rule cast_signed_32) (simp_all add: order.trans [of _ "0 :: int"])

definition small_shape :: "nat list \<Rightarrow> bool" where
  "small_shape ns = (list_all (\<lambda>n. 0 < n) ns \<and> (\<forall>n \<in> set ns. n * prod_list ns < 2 ^ 31))"

lemma small_shape_Cons: "small_shape (n # ns) \<Longrightarrow> small_shape ns"
proof -
  assume small: "small_shape (n # ns)"
  have "m * prod_list ns < 2 ^ 31" if "m \<in> set ns" for m
  proof -
    have "m * prod_list ns \<le> m * prod_list (n # ns)" using small by (simp add: small_shape_def)
    also have "\<dots> < 2 ^ 31" using small that by (simp add: small_shape_def)
    finally show ?thesis .
  qed
  with small show ?thesis by (simp add: small_shape_def)
qed

lemma dimension_string_rows:
  assumes "0 < n" "n * (n * p) < 2 ^ 31" "k + n * p < 2 ^ 31" "m \<le> n"
    and "\<And>i. i < n \<Longrightarrow> recursive_string shw shape (int (k + i * p)) (int p) = Inr (g i)"
  shows "dimension_string shw shape (int n) (int k) (int (n * p)) [int m .. int n - 1] =
    Inr (comma_join (map g [m..<n]))"
  unfolding upto_nat using assms(4)
proof (induction m rule: inc_induct)
  case (step m)
  have m: "m < n" using step.hyps by simp
  have "m * (n * p) \<le> n * (n * p)" using m by simp
  then have "int m * int (n * p) < 2 ^ 31" using assms(2) by (metis of_nat_less_iff of_nat_mult of_nat_numeral of_nat_power order_le_less_trans)
  then have offset: "signed_result 32 (int m * int (n * p)) = Inr (int (m * (n * p)))"
    by (simp add: signed_result_def order.trans [of _ "0 :: int"])
  have split: "m * (n * p) = n * (m * p)" by simp
  have quot: "int (m * (n * p)) sdiv int n = int (m * p)" "int (n * p) sdiv int n = int p"
    unfolding sdiv_nat split using assms(1) by simp_all
  have "m * p \<le> n * p" using m by (intro mult_le_mono1) simp
  with assms(3) have "k + m * p < 2 ^ 31" by linarith
  from cast_signed_nat [OF this] have idx: "cast_signed 32 (int k + int (m * p)) = int (k + m * p)" by simp
  have psize: "cast_signed 32 (int p) = int p" using assms(1,3) by (intro cast_signed_nat) (simp add: order_le_less_trans [of p "n * p"])
  have last: "(int m \<noteq> int n - 1) = (m \<noteq> n - 1)" using m by auto
  have head: "dimension_string shw shape (int n) (int k) (int (n * p)) (int m # is) =
      ubind (dimension_string shw shape (int n) (int k) (int (n * p)) is)
        (\<lambda>r. Inr (g m @ (if m \<noteq> n - 1 then '','' else []) @ r))" for "is"
    unfolding dimension_string.simps offset ubind_simps quot idx psize assms(5) [OF m] last by simp
  have tail: "Suc m \<noteq> n \<Longrightarrow> [Suc m..<n] = Suc m # [Suc (Suc m)..<n]" using m by (simp add: upt_conv_Cons)
  have list: "[m..<n] = m # [Suc m..<n]" using m by (simp add: upt_conv_Cons)
  show ?case
  proof (cases "Suc m = n")
    case True
    then show ?thesis unfolding list list.map head by (simp flip: True)
  next
    case False
    then show ?thesis using step.IH tail m unfolding list list.map head by simp
  qed
qed simp

text \<open>the debug output of a tensor is its elements in row-major order in nested
  brackets, and no read leaves the tensor, when the shape is small enough.
\<close>
theorem recursive_string_nested:
  assumes "small_shape ns" "k + prod_list ns < 2 ^ 31"
    and "\<And>i. k \<le> i \<Longrightarrow> i < k + prod_list ns \<Longrightarrow> shw (int i) = Inr (f i)"
  shows "recursive_string shw (map int ns) (int k) (int (prod_list ns)) = Inr (nested_string f ns k)"
  using assms
proof (induction ns arbitrary: k)
  case (Cons n ns)
  let ?p = "prod_list ns"
  have pos: "0 < n" and n: "n * (n * ?p) < 2 ^ 31" using Cons.prems(1) by (simp_all add: small_shape_def)
  have rows: "recursive_string shw (map int ns) (int (k + i * ?p)) (int ?p) = Inr (nested_string f ns (k + i * ?p))"
    if "i < n" for i
  proof (rule Cons.IH [OF small_shape_Cons [OF Cons.prems(1)]])
    have "Suc i * ?p \<le> n * ?p" using that by (intro mult_le_mono1) simp
    then have le: "k + i * ?p + ?p \<le> k + n * ?p" by simp
    then show "k + i * ?p + ?p < 2 ^ 31" using Cons.prems(2) by simp
    show "shw (int j) = Inr (f j)" if "k + i * ?p \<le> j" "j < k + i * ?p + ?p" for j
      using that le by (intro Cons.prems(3)) simp_all
  qed
  have "dimension_string shw (map int ns) (int n) (int k) (int (n * ?p)) [int 0 .. int n - 1] =
      Inr (comma_join (map (\<lambda>i. nested_string f ns (k + i * ?p)) [0..<n]))"
    using Cons.prems(2) by (intro dimension_string_rows pos n rows) simp_all
  then show ?case by simp
qed simp

lemma recursive_string_nested_witness:
  "recursive_string (\<lambda>i. Inr (int_str i)) [2, 3] 0 6 = Inr ''[[0,1,2],[3,4,5]]''"
proof -
  have small: "small_shape [2, 3]" by (simp add: small_shape_def)
  have bound: "0 + prod_list [2, 3 :: nat] < 2 ^ 31" by simp
  have "nested_string (\<lambda>i. int_str (int i)) [2, 3] 0 = ''[[0,1,2],[3,4,5]]''" by code_simp
  with recursive_string_nested [OF small bound, of "\<lambda>i. Inr (int_str i)" "\<lambda>i. int_str (int i)"]
  show ?thesis by simp
qed

lemma dimension_string_overflow:
  assumes "\<And>i. \<not> isl (shw i)" "list_all (\<lambda>i. 0 \<le> i) is" "\<exists>i \<in> set is. 2 ^ 31 \<le> i * d" "0 \<le> d"
  shows "dimension_string shw [] n k d is = Inl Arith_Overflow"
  using assms(2,3)
proof (induction "is")
  case (Cons i "is")
  show ?case
  proof (cases "2 ^ 31 \<le> i * d")
    case True
    then show ?thesis by (simp add: signed_result_def)
  next
    case False
    have "0 \<le> i * d" using Cons.prems assms(4) by simp
    then have "signed_result 32 (i * d) = Inr (i * d)" using False by (simp add: signed_result_def)
    moreover obtain s where "shw (cast_signed 32 (k + i * d sdiv n)) = Inr s"
      using assms(1) by (metis isl_def sum.exhaust)
    ultimately show ?thesis using Cons False by simp
  qed
qed simp

text \<open>in a debug configuration the printing of a vector of 46342 or more elements
  overflows an \<open>int\<close> in the index computation, though every index of the vector fits.
\<close>
theorem vector_print_overflows:
  assumes "46342 \<le> n" "n < 2 ^ 31" "\<And>i. \<not> isl (shw i)"
  shows "recursive_string shw [n] 0 n = Inl Arith_Overflow"
proof -
  have "(46341 :: int) * 46342 \<le> (n - 1) * n" using assms(1) by (intro mult_mono) simp_all
  then have "\<exists>i \<in> set [0..n - 1]. 2 ^ 31 \<le> i * n" using assms(1) by (intro bexI [of _ "n - 1"]) simp_all
  then have "dimension_string shw [] n 0 n [0 .. n - 1] = Inl Arith_Overflow"
    using assms(1) by (intro dimension_string_overflow assms(3)) (simp_all add: list_all_iff)
  then show ?thesis by simp
qed

lemma vector_print_overflows_witness: "recursive_string (\<lambda>i. Inr []) [50000] 0 50000 = Inl Arith_Overflow"
  by (rule vector_print_overflows) simp_all

end
