(* ===== verification/Onnx_Inference.thy ===== *)
theory Onnx_Inference
  imports Onnx_Contract User_Events_Contract
begin

text \<open>
  Where the tensors of a run come from.  When \<open>get_inference\<close> reaches the session,
  every input tensor of a described model is the client's buffer of that name, the
  loaded feature vector, or the output of the preprocessor, each of the declared type
  and size; a preprocessed input that no entry of \<open>inputsToProcessors\<close> names keeps
  the freed buffer of the dummy run.
\<close>

section \<open>Sources\<close>

definition source_ok :: "('f, 'd, 'db, 's) onnx_env \<Rightarrow> feature_map_t \<Rightarrow> onnx_request \<Rightarrow> tensor_info \<Rightarrow> ('f, 'd) tensor \<Rightarrow> bool" where
  "source_ok E fm req t v =
     (get_field_size_from_data_type E (tn_dataType t) \<noteq> 0 \<and> tv_type v = tn_dataType t \<and> tv_shape v = tn_shape t \<and>
      tv_bytes v = tn_size t * get_field_size_from_data_type E (tn_dataType t) \<and>
      (if tn_isFeature t
       then \<exists>f. get_read_lock fm (tn_featureName t) \<and> manager_get_feature fm (tn_featureName t) = Inr f \<and>
              tv_data v = Feature_Bytes (ft_data f) \<and> ft_byteLength f = tv_bytes v \<and> ft_dataType f = tn_dataType t
       else \<exists>u. find_user_input (tn_name t) req = Some u \<and> tv_data v = Caller (ui_data u) \<and>
              ui_length u = tn_size t \<and> ui_dataType u = tn_dataType t))"

definition filled_ok :: "('f, 'd, 'db, 's) onnx_env \<Rightarrow> ('f, 'd, 's) onnx_model \<Rightarrow> ('f, 'd) preprocessed_input list
    \<Rightarrow> nat \<Rightarrow> ('f, 'd) tensor \<Rightarrow> bool" where
  "filled_ok E md fill k v =
     (let t = om_inputs (md_info md) ! k in
      \<exists>p \<in> set fill. pr_model p = md_id md \<and> pr_index p = int k \<and> tv_data v = Preprocessed (pr_modelInput p) \<and>
        cast_signed 32 (int (any_length (pr_modelInput p))) = tn_size t \<and>
        tv_bytes v = tn_size t * get_field_size_from_data_type E (tn_dataType t))"

lemma field_size_cases: "get_field_size_from_data_type E d \<in> {0, 4, 8}"
  by (simp add: get_field_size_from_data_type_def)

lemma check_input_true:
  "check_input E t d n = Inr True \<longleftrightarrow>
    get_field_size_from_data_type E d \<noteq> 0 \<and> tn_dataType t = d \<and> n = tn_size t * get_field_size_from_data_type E d \<and>
    - (2 ^ 31) \<le> n \<and> n < 2 ^ 31"
  by (auto simp: check_input_def ubind_Inr_iff signed_result_Inr Let_def)

lemma place_tensor_result:
  "place_tensor E t b i ts = Inr (None, ts') \<longleftrightarrow>
    (\<exists>v. 0 \<le> i \<and> i < int (length ts) \<and> ts' = ts[nat i := Some v] \<and> get_field_size_from_data_type E (tn_dataType t) \<noteq> 0 \<and>
      v = \<lparr>tv_data = b, tv_bytes = get_field_size_from_data_type E (tn_dataType t) * tn_size t,
           tv_shape = tn_shape t, tv_type = tn_dataType t\<rparr> \<and>
      - (2 ^ 31) \<le> tv_bytes v \<and> tv_bytes v < 2 ^ 31 \<and> oe_create E (tv_bytes v) (tn_shape t) (tn_dataType t))"
  by (auto simp: place_tensor_def create_ort_tensor_def ubind_Inr_iff signed_result_Inr Let_def vec_set_def
      split: created.splits if_splits)

lemma load_input_result:
  assumes "load_input E fm req i t ts = Inr (None, ts')"
  shows "if tn_toPreprocess t then ts' = ts
    else \<exists>v. 0 \<le> i \<and> i < int (length ts) \<and> ts' = ts[nat i := Some v] \<and> source_ok E fm req t v"
proof (cases "tn_toPreprocess t")
  case False
  show ?thesis
  proof (cases "tn_isFeature t")
    case True
    with False assms obtain f where f: "get_read_lock fm (tn_featureName t)" "manager_get_feature fm (tn_featureName t) = Inr f"
      "check_input E t (ft_dataType f) (ft_byteLength f) = Inr True"
      "place_tensor E t (Feature_Bytes (ft_data f)) i ts = Inr (None, ts')"
      by (auto simp: load_input_def ubind_Inr_iff split: if_splits)
    then show ?thesis using False True
      by (auto simp: check_input_true place_tensor_result source_ok_def mult.commute)
  next
    case no_feature: False
    with False assms obtain u where u: "find_user_input (tn_name t) req = Some u"
      "check_input E t (ui_dataType u) (ui_length u * get_field_size_from_data_type E (ui_dataType u)) = Inr True"
      "place_tensor E t (Caller (ui_data u)) i ts = Inr (None, ts')"
      by (auto simp: load_input_def ubind_Inr_iff signed_result_Inr split: option.splits if_splits)
    then have "ui_length u = tn_size t" by (auto simp: check_input_true)
    with u False no_feature show ?thesis
      by (auto simp: check_input_true place_tensor_result source_ok_def mult.commute)
  qed
qed (use assms in \<open>simp add: load_input_def\<close>)

lemma load_inputs_result:
  "load_inputs E fm req (int i) tns ts = Inr (None, ts') \<Longrightarrow> length ts = i + length tns \<Longrightarrow>
    length ts' = length ts \<and> (\<forall>j < i. ts' ! j = ts ! j) \<and>
    (\<forall>j < length tns. if tn_toPreprocess (tns ! j) then ts' ! (i + j) = ts ! (i + j)
       else \<exists>v. ts' ! (i + j) = Some v \<and> source_ok E fm req (tns ! j) v)"
proof (induction tns arbitrary: i ts)
  case (Cons t tns)
  from Cons.prems(1) obtain ts1 where one: "load_input E fm req (int i) t ts = Inr (None, ts1)"
    and rest: "load_inputs E fm req (int (Suc i)) tns ts1 = Inr (None, ts')"
    by (auto simp: ubind_Inr_iff add.commute split: option.splits)
  from load_input_result [OF one] have len: "length ts1 = length ts"
    and before: "\<forall>j. j \<noteq> i \<longrightarrow> ts1 ! j = ts ! j"
    and at: "if tn_toPreprocess t then ts1 ! i = ts ! i else \<exists>v. ts1 ! i = Some v \<and> source_ok E fm req t v"
    by (auto split: if_splits)
  have "length ts1 = Suc i + length tns" using len Cons.prems(2) by simp
  note all = Cons.IH [OF rest this]
  note IH = conjunct1 [OF all] conjunct1 [OF conjunct2 [OF all]] conjunct2 [OF conjunct2 [OF all]]
  have "if tn_toPreprocess ((t # tns) ! j) then ts' ! (i + j) = ts ! (i + j)
       else \<exists>v. ts' ! (i + j) = Some v \<and> source_ok E fm req ((t # tns) ! j) v" if "j < length (t # tns)" for j
  proof (cases j)
    case 0
    then show ?thesis using at IH(2) by simp
  next
    case (Suc k)
    then show ?thesis using spec [OF IH(3), of k] that before by (simp split: if_splits)
  qed
  then show ?case using IH(1,2) before len by simp
qed simp

section \<open>The preprocessors\<close>

text \<open>What a call of a preprocessor may change; \<open>from_preprocessor\<close> is stable under it.\<close>

definition from_preprocessor ::
  "('f, 'd, 'db, 's) onnx_env \<Rightarrow> ('f, 'd, 's) onnx_model \<Rightarrow> ('f, 'd, 'db) inference_state \<Rightarrow> nat \<Rightarrow> bool" where
  "from_preprocessor E md st k = (\<exists>v. in_tensors st ! k = Some v \<and> filled_ok E md (in_fill st) k v)"

definition advances ::
  "('f, 'd, 'db, 's) onnx_env \<Rightarrow> ('f, 'd, 's) onnx_model \<Rightarrow> ('f, 'd, 'db) inference_state \<Rightarrow> ('f, 'd, 'db) inference_state \<Rightarrow> bool" where
  "advances E md st st' =
     (length (in_tensors st') = length (in_tensors st) \<and> set (in_fill st) \<subseteq> set (in_fill st') \<and>
      (\<forall>k. in_tensors st' ! k = in_tensors st ! k \<or>
         k < length (om_inputs (md_info md)) \<and> tn_toPreprocess (om_inputs (md_info md) ! k) \<and> from_preprocessor E md st' k))"

lemma advances_refl: "advances E md st st"
  by (simp add: advances_def)

lemma filled_ok_mono: "filled_ok E md fill k v \<Longrightarrow> set fill \<subseteq> set fill' \<Longrightarrow> filled_ok E md fill' k v"
  by (auto simp: filled_ok_def Let_def)

lemma from_preprocessor_stays:
  "from_preprocessor E md st k \<Longrightarrow> advances E md st st' \<Longrightarrow> from_preprocessor E md st' k"
  unfolding advances_def by (metis filled_ok_mono from_preprocessor_def)

lemma advances_trans: "advances E md st st' \<Longrightarrow> advances E md st' st'' \<Longrightarrow> advances E md st st''"
  using from_preprocessor_stays [of E md st' _ st''] unfolding advances_def by (metis subset_trans)

lemma fill_input_advances:
  assumes "fill_input E clk md u name st = Inr (None, st')"
  shows "advances E md st st' \<and> (\<forall>k. smap_find (md_inputNamesToIdMap md) name = Some (int k) \<longrightarrow> from_preprocessor E md st' k)"
proof -
  let ?tns = "om_inputs (md_info md)"
  from assms obtain k t rows ue x ts v where
    k: "smap_find (md_inputNamesToIdMap md) name = Some k" "0 \<le> k" "k < int (length ?tns)" "t = ?tns ! nat k"
    and t: "tn_toPreprocess t"
    and st': "st' = st\<lparr>in_events := ue, in_fill := in_fill st @
       [\<lparr>pr_modelInput = x, pr_model = md_id md, pr_index = k\<rparr>], in_tensors := ts\<rparr>"
    and ck: "check_input E t (tn_dataType t) (cast_signed 32 (int (any_length x)) *
       get_field_size_from_data_type E (tn_dataType t)) = Inr True"
    and pl: "place_tensor E t (Preprocessed x) k (in_tensors st) = Inr (None, ts)"
    by (auto simp: fill_input_def ubind_Inr_iff vec_get_Inr_iff signed_result_Inr Let_def
        split: option.splits if_splits user_data.splits)
  from pl obtain v where v: "k < int (length (in_tensors st))" "ts = (in_tensors st)[nat k := Some v]"
    "tv_data v = Preprocessed x" "tv_bytes v = get_field_size_from_data_type E (tn_dataType t) * tn_size t"
    by (auto simp: place_tensor_result)
  have "cast_signed 32 (int (any_length x)) = tn_size t" using ck by (auto simp: check_input_true)
  then have ok: "from_preprocessor E md st' (nat k)"
    using k v by (simp add: from_preprocessor_def filled_ok_def st' Let_def mult.commute)
  have "in_tensors st' ! j = in_tensors st ! j \<or> j < length ?tns \<and> tn_toPreprocess (?tns ! j) \<and> from_preprocessor E md st' j"
    for j
  proof (cases "j = nat k")
    case True
    then show ?thesis using ok k(2-4) t by (simp add: nat_less_iff)
  qed (simp add: st' v(2))
  with ok k show ?thesis by (auto simp: advances_def st' v(2))
qed

lemma fill_inputs_advances:
  "fill_inputs E clk md u names st = Inr (None, st') \<Longrightarrow>
    advances E md st st' \<and>
    (\<forall>name \<in> set names. \<forall>k. smap_find (md_inputNamesToIdMap md) name = Some (int k) \<longrightarrow> from_preprocessor E md st' k)"
proof (induction names arbitrary: st)
  case (Cons name names)
  then obtain st1 where one: "fill_input E clk md u name st = Inr (None, st1)"
    and rest: "fill_inputs E clk md u names st1 = Inr (None, st')"
    by (auto simp: ubind_Inr_iff split: option.splits)
  from fill_input_advances [OF one] Cons.IH [OF rest] show ?case
    by (auto intro: advances_trans from_preprocessor_stays)
qed (simp add: advances_refl)

lemma run_preprocessors_advances:
  "run_preprocessors E clk md req ps st = Inr (None, st') \<Longrightarrow>
    advances E md st st' \<and>
    (\<forall>p \<in> set ps. \<forall>name \<in> set (pn_inputNames p). \<forall>k.
       smap_find (md_inputNamesToIdMap md) name = Some (int k) \<longrightarrow> from_preprocessor E md st' k)"
proof (induction ps arbitrary: st)
  case (Cons p ps)
  then obtain u st1 where one: "fill_inputs E clk md u (pn_inputNames p) st = Inr (None, st1)"
    and rest: "run_preprocessors E clk md req ps st1 = Inr (None, st')"
    by (auto simp: ubind_Inr_iff split: option.splits if_splits)
  from fill_inputs_advances [OF one] Cons.IH [OF rest] show ?case
    by (auto intro: advances_trans from_preprocessor_stays)
qed (simp add: advances_refl)

text \<open>An input a preprocessor must fill is covered when \<open>inputsToProcessors\<close> names it.\<close>

definition covered :: "('f, 'd, 's) onnx_model \<Rightarrow> nat \<Rightarrow> bool" where
  "covered md k = (\<exists>p \<in> set (om_preprocessorInputs (md_info md)). \<exists>name \<in> set (pn_inputNames p).
     smap_find (md_inputNamesToIdMap md) name = Some (int k))"

lemma prepare_inputs_cases:
  assumes "prepare_inputs E clk fm md req ue = Inr (None, st)"
  obtains ts where "load_inputs E fm req 0 (om_inputs (md_info md)) (md_inputTensors md) = Inr (None, ts)"
    "run_preprocessors E clk md req (om_preprocessorInputs (md_info md)) \<lparr>in_tensors = ts, in_fill = [], in_events = ue\<rparr> = Inr (None, st)"
  using assms by (auto simp: prepare_inputs_def ubind_Inr_iff Let_def split: option.splits)

lemma prepared_tensor:
  assumes "prepare_inputs E clk fm md req ue = Inr (None, st)"
    and "length (md_inputTensors md) = length (om_inputs (md_info md))" "k < length (om_inputs (md_info md))"
    and "tn_toPreprocess (om_inputs (md_info md) ! k) \<longrightarrow> covered md k"
  shows "\<exists>v. in_tensors st ! k = Some v \<and>
    (if tn_toPreprocess (om_inputs (md_info md) ! k) then filled_ok E md (in_fill st) k v
     else source_ok E fm req (om_inputs (md_info md) ! k) v)"
proof -
  let ?tns = "om_inputs (md_info md)"
  from assms(1) obtain ts where
    load: "load_inputs E fm req (int 0) ?tns (md_inputTensors md) = Inr (None, ts)"
    and fill: "run_preprocessors E clk md req (om_preprocessorInputs (md_info md))
      \<lparr>in_tensors = ts, in_fill = [], in_events = ue\<rparr> = Inr (None, st)" by (auto elim: prepare_inputs_cases)
  note filled = run_preprocessors_advances [OF fill]
  show ?thesis
  proof (cases "tn_toPreprocess (?tns ! k)")
    case True
    then have "from_preprocessor E md st k" using assms(4) filled unfolding covered_def by blast
    with True show ?thesis by (simp add: from_preprocessor_def)
  next
    case False
    have len: "length (md_inputTensors md) = 0 + length ?tns" using assms(2) by simp
    note all = conjunct2 [OF conjunct2 [OF load_inputs_result [OF load len]]]
    from spec [OF all, of k] False assms(3) obtain v where "ts ! k = Some v" "source_ok E fm req (?tns ! k) v"
      by auto
    moreover have "in_tensors st ! k = ts ! k" using filled False by (auto simp: advances_def)
    ultimately show ?thesis using False by simp
  qed
qed

text \<open>when an inference reaches the session, every input tensor has the declared type,
  shape and size, and its buffer is the right one: the first buffer of that name in the
  request, the current vector of the feature, or, for a covered preprocessed input, the
  vector its preprocessor just computed.
\<close>
theorem inference_inputs_fresh:
  assumes "prepare_inputs E clk fm md req ue = Inr (None, st)"
    and "length (md_inputTensors md) = length (om_inputs (md_info md))" "k < length (om_inputs (md_info md))"
    and "tn_toPreprocess (om_inputs (md_info md) ! k) \<longrightarrow> covered md k"
  shows "\<exists>v. in_tensors st ! k = Some v \<and>
    (if tn_toPreprocess (om_inputs (md_info md) ! k) then filled_ok E md (in_fill st) k v
     else source_ok E fm req (om_inputs (md_info md) ! k) v)"
  using assms by (rule prepared_tensor)

section \<open>Statuses\<close>

lemma place_tensor_status: "place_tensor E t b i ts = Inr (Some e, ts') \<Longrightarrow> e = TERMINAL_ERROR"
proof -
  assume run: "place_tensor E t b i ts = Inr (Some e, ts')"
  then obtain c where "create_ort_tensor E t b = Inr c" by (auto simp: place_tensor_def ubind_Inr_iff)
  with run show ?thesis by (cases c) (auto simp: place_tensor_def ubind_Inr_iff)
qed

lemma run_inference_status:
  assumes "run_inference E debug md st = Inr (e, ret)"
  shows "e = SUCCESS \<and> ret \<noteq> None \<or> e = TERMINAL_ERROR \<and> ret = None"
proof -
  from assms obtain a where a: "allocate_output_memory E (om_outputs (md_info md)) = Inr a"
    by (auto simp: run_inference_def ubind_Inr_iff Let_def)
  show ?thesis
  proof (cases a)
    case (Allocated slots)
    with assms a obtain r where r: "run_session E (md_session md) (om_inputs (md_info md)) (in_tensors st) slots = Inr r"
      by (auto simp: run_inference_def ubind_Inr_iff Let_def)
    with assms a Allocated show ?thesis by (cases r) (auto simp: run_inference_def ubind_Inr_iff Let_def)
  qed (use assms a in \<open>auto simp: run_inference_def ubind_Inr_iff Let_def\<close>)
qed

lemma load_inputs_status:
  "load_inputs E fm req i tns ts = Inr (Some e, ts') \<Longrightarrow> e = TERMINAL_ERROR \<or>
    (e = RETRYABLE_ERROR \<and> (\<exists>t \<in> set tns. tn_isFeature t \<and> \<not> tn_toPreprocess t \<and> \<not> get_read_lock fm (tn_featureName t)))"
proof (induction tns arbitrary: i ts)
  case (Cons t tns)
  then show ?case
    by (auto simp: ubind_Inr_iff load_input_def split: if_splits option.splits dest: place_tensor_status)
qed simp

lemma fill_inputs_status: "fill_inputs E clk md u names st = Inr (Some e, st') \<Longrightarrow> e = TERMINAL_ERROR"
proof (induction names arbitrary: st)
  case (Cons name names)
  then show ?case
    by (auto simp: ubind_Inr_iff fill_input_def Let_def
        split: if_splits option.splits user_data.splits dest: place_tensor_status)
qed simp

lemma run_preprocessors_status: "run_preprocessors E clk md req ps st = Inr (Some e, st') \<Longrightarrow> e = TERMINAL_ERROR"
  by (induction ps arbitrary: st)
    (auto simp: ubind_Inr_iff split: if_splits option.splits dest: fill_inputs_status)

lemma inference_codes:
  assumes "model_get_inference E debug clk fm md req ue = Inr r"
  shows "(ir_status r = SUCCESS \<longleftrightarrow> ir_return r \<noteq> None) \<and> ir_status r \<in> {SUCCESS, TERMINAL_ERROR, RETRYABLE_ERROR} \<and>
    (ir_status r = RETRYABLE_ERROR \<longrightarrow> (\<exists>t \<in> set (om_inputs (md_info md)).
       tn_isFeature t \<and> \<not> tn_toPreprocess t \<and> \<not> get_read_lock fm (tn_featureName t)))"
proof -
  have codes: "SUCCESS \<noteq> TERMINAL_ERROR" "SUCCESS \<noteq> RETRYABLE_ERROR" "TERMINAL_ERROR \<noteq> RETRYABLE_ERROR"
    by (simp_all add: SUCCESS_def TERMINAL_ERROR_def RETRYABLE_ERROR_def)
  from assms obtain status st where prep: "prepare_inputs E clk fm md req ue = Inr (status, st)"
    and rest: "(case status of Some e \<Rightarrow> Inr (finish_inference md st e None)
     | None \<Rightarrow> ubind (run_inference E debug md st) (\<lambda>(e, ret). Inr (finish_inference md st e ret))) = Inr r"
    by (auto simp: model_get_inference_def ubind_Inr_iff)
  show ?thesis
  proof (cases status)
    case (Some e)
    with prep have "e = TERMINAL_ERROR \<or> (e = RETRYABLE_ERROR \<and> (\<exists>t \<in> set (om_inputs (md_info md)).
       tn_isFeature t \<and> \<not> tn_toPreprocess t \<and> \<not> get_read_lock fm (tn_featureName t)))"
      by (auto simp: prepare_inputs_def ubind_Inr_iff Let_def split: option.splits
          dest: load_inputs_status run_preprocessors_status)
    with rest Some codes show ?thesis by (auto simp: finish_inference_def)
  next
    case None
    with rest codes show ?thesis by (auto simp: ubind_Inr_iff finish_inference_def dest!: run_inference_status)
  qed
qed


section \<open>Reading the tensors\<close>

lemma readable_all:
  "\<forall>k < length ts. \<exists>v n. ts ! k = Some v \<and> buffer_bytes (tv_data v) = Inr n \<and> tv_bytes v \<le> int n \<Longrightarrow>
    \<exists>vs. readable_tensors ts = Inr vs \<and> map Some vs = ts"
proof (induction ts)
  case (Cons t ts)
  from spec [OF Cons.prems, of 0] obtain v n where v: "t = Some v" "buffer_bytes (tv_data v) = Inr n" "tv_bytes v \<le> int n"
    by auto
  have "\<forall>k < length ts. \<exists>v n. ts ! k = Some v \<and> buffer_bytes (tv_data v) = Inr n \<and> tv_bytes v \<le> int n"
    using Cons.prems by auto
  from Cons.IH [OF this] v show ?case by auto
qed simp

lemma readable_released: "Some v \<in> set ts \<Longrightarrow> tv_data v = Released \<Longrightarrow> \<exists>f. readable_tensors ts = Inl f"
proof (induction ts rule: readable_tensors.induct)
  case (3 w ts)
  show ?case
  proof (cases "buffer_bytes (tv_data w)")
    case (Inr n)
    then show ?thesis using 3 by (auto simp: buffer_bytes_def)
  qed simp
qed simp_all

text \<open>What the client promises: the buffer of an input has the elements its length announces.\<close>

definition request_ok :: "('f, 'd, 'db, 's) onnx_env \<Rightarrow> onnx_request \<Rightarrow> bool" where
  "request_ok E req = (\<forall>u \<in> set req. get_field_size_from_data_type E (ui_dataType u) \<noteq> 0 \<longrightarrow>
     (\<exists>b. ui_data u = Raw b \<and> int (length b) = ui_length u * get_field_size_from_data_type E (ui_dataType u)))"

text \<open>The preprocessors of the model deliver elements of the type the description gives.\<close>

definition fill_typed :: "('f, 'd, 'db, 's) onnx_env \<Rightarrow> ('f, 'd, 's) onnx_model \<Rightarrow> ('f, 'd) preprocessed_input list \<Rightarrow> bool" where
  "fill_typed E md fill = (\<forall>p \<in> set fill. int (any_bytes (pr_modelInput p)) =
     cast_signed 32 (int (any_length (pr_modelInput p))) *
       get_field_size_from_data_type E (tn_dataType (om_inputs (md_info md) ! nat (pr_index p))))"

lemma find_user_input_in: "find_user_input name req = Some u \<Longrightarrow> u \<in> set req"
  by (induction req) (auto split: if_splits)

lemma source_readable:
  assumes "source_ok E fm req t v" "manager_ok fm" "request_ok E req"
  shows "\<exists>n. buffer_bytes (tv_data v) = Inr n \<and> tv_bytes v \<le> int n"
proof (cases "tn_isFeature t")
  case True
  with assms(1) obtain f where f: "get_read_lock fm (tn_featureName t)" "manager_get_feature fm (tn_featureName t) = Inr f"
    "tv_data v = Feature_Bytes (ft_data f)" "ft_byteLength f = tv_bytes v" by (auto simp: source_ok_def)
  then obtain b where "ft_data f = Some b" "ft_byteLength f = int (length b)"
    using locked_complete [OF assms(2) f(1)] by auto
  with f show ?thesis by (simp add: buffer_bytes_def)
next
  case False
  with assms(1) obtain u where u: "find_user_input (tn_name t) req = Some u" "tv_data v = Caller (ui_data u)"
    "ui_length u = tn_size t" "ui_dataType u = tn_dataType t" by (auto simp: source_ok_def)
  with assms(1,3) find_user_input_in [OF u(1)] obtain b where "ui_data u = Raw b" "int (length b) = tv_bytes v"
    by (auto simp: request_ok_def source_ok_def)
  with u(2) show ?thesis by (simp add: buffer_bytes_def)
qed

lemma filled_readable:
  assumes "filled_ok E md fill k v" "fill_typed E md fill"
  shows "\<exists>n. buffer_bytes (tv_data v) = Inr n \<and> tv_bytes v \<le> int n"
proof -
  from assms(1) obtain p where p: "p \<in> set fill" "pr_index p = int k" "tv_data v = Preprocessed (pr_modelInput p)"
    "cast_signed 32 (int (any_length (pr_modelInput p))) = tn_size (om_inputs (md_info md) ! k)"
    "tv_bytes v = tn_size (om_inputs (md_info md) ! k) *
       get_field_size_from_data_type E (tn_dataType (om_inputs (md_info md) ! k))"
    by (auto simp: filled_ok_def Let_def)
  with assms(2) have "int (any_bytes (pr_modelInput p)) = tv_bytes v" by (auto simp: fill_typed_def)
  with p(3) show ?thesis by (simp add: buffer_bytes_def)
qed

text \<open>The tensors keep their number, whatever the status.\<close>

lemma place_tensor_length: "place_tensor E t b i ts = Inr (e, ts') \<Longrightarrow> length ts' = length ts"
proof -
  assume run: "place_tensor E t b i ts = Inr (e, ts')"
  then obtain c where "create_ort_tensor E t b = Inr c" by (auto simp: place_tensor_def ubind_Inr_iff)
  with run show ?thesis by (cases c) (auto simp: place_tensor_def ubind_Inr_iff vec_set_def split: if_splits)
qed

lemma load_inputs_length: "load_inputs E fm req i tns ts = Inr (e, ts') \<Longrightarrow> length ts' = length ts"
proof (induction tns arbitrary: i ts)
  case (Cons t tns)
  then obtain e1 ts1 where one: "load_input E fm req i t ts = Inr (e1, ts1)" by (auto simp: ubind_Inr_iff)
  then have "length ts1 = length ts"
    by (auto simp: ubind_Inr_iff load_input_def split: if_splits option.splits dest!: place_tensor_length)
  with Cons one show ?case by (cases e1) auto
qed simp

lemma fill_inputs_length: "fill_inputs E clk md u names st = Inr (e, st') \<Longrightarrow> length (in_tensors st') = length (in_tensors st)"
proof (induction names arbitrary: st)
  case (Cons name names)
  then obtain e1 st1 where one: "fill_input E clk md u name st = Inr (e1, st1)" by (auto simp: ubind_Inr_iff)
  then have "length (in_tensors st1) = length (in_tensors st)"
    by (auto simp: ubind_Inr_iff fill_input_def Let_def
        split: if_splits option.splits user_data.splits dest!: place_tensor_length)
  with Cons one show ?case by (cases e1) auto
qed simp

lemma run_preprocessors_length:
  "run_preprocessors E clk md req ps st = Inr (e, st') \<Longrightarrow> length (in_tensors st') = length (in_tensors st)"
proof (induction ps arbitrary: st)
  case (Cons p ps)
  show ?case
  proof (cases "find_user_input (pn_name p) req")
    case (Some u)
    show ?thesis
    proof (cases "ui_dataType u = PREPROCESSOR_INPUT_TYPE")
      case True
      with Cons.prems Some obtain e1 st1 where "fill_inputs E clk md u (pn_inputNames p) st = Inr (e1, st1)"
        by (auto simp: ubind_Inr_iff)
      with Cons True Some fill_inputs_length [OF this] show ?thesis by (cases e1) auto
    qed (use Cons.prems Some in simp)
  qed (use Cons.prems in simp)
qed simp

lemma prepare_length:
  "prepare_inputs E clk fm md req ue = Inr (e, st) \<Longrightarrow> length (in_tensors st) = length (md_inputTensors md)"
proof -
  assume run: "prepare_inputs E clk fm md req ue = Inr (e, st)"
  then obtain e1 ts where one: "load_inputs E fm req 0 (om_inputs (md_info md)) (md_inputTensors md) = Inr (e1, ts)"
    by (auto simp: prepare_inputs_def ubind_Inr_iff)
  show ?thesis
    using run one load_inputs_length [OF one]
    by (cases e1) (auto simp: prepare_inputs_def dest!: run_preprocessors_length)
qed


section \<open>A new model\<close>

lemma dummy_released:
  "dummy_tensors E tns = Inr (Some ts) \<Longrightarrow>
    length ts = length tns \<and> (\<forall>w \<in> set ts. \<exists>v. w = Some v \<and> tv_data v = Released)"
proof (induction tns arbitrary: ts)
  case (Cons t tns)
  then obtain c where c: "create_ort_tensor E t Released = Inr c"
    by (auto simp: ubind_Inr_iff split: if_splits)
  show ?case
  proof (cases c)
    case (Created v)
    then have "tv_data v = Released"
      using c by (auto simp: create_ort_tensor_def ubind_Inr_iff Let_def split: if_splits)
    then show ?thesis using Cons c Created by (auto simp: ubind_Inr_iff split: if_splits)
  qed (use Cons.prems c in \<open>auto simp: ubind_Inr_iff split: if_splits\<close>)
qed simp

lemma run_dummy_result:
  assumes "run_dummy_inference E info = Inr (Some ts)"
  shows "dummy_tensors E (om_inputs info) = Inr (Some ts) \<and>
    (\<exists>slots. allocate_output_memory E (om_outputs info) = Inr (Allocated slots))"
proof -
  from assms obtain r where r: "dummy_tensors E (om_inputs info) = Inr r"
    by (auto simp: run_dummy_inference_def ubind_Inr_iff)
  show ?thesis
  proof (cases r)
    case (Some ts')
    with assms r obtain a where "allocate_output_memory E (om_outputs info) = Inr a"
      by (auto simp: run_dummy_inference_def ubind_Inr_iff)
    then show ?thesis using assms r Some by (cases a) (auto simp: run_dummy_inference_def)
  qed (use assms r in \<open>simp add: run_dummy_inference_def\<close>)
qed

lemma new_model_result:
  assumes "new_onnx_model E c ident info plan version modelId ue = Inr (Some md, ue')"
  shows "md_id md = ident \<and> md_info md = info \<and> md_modelId md = modelId \<and> md_version md = version \<and>
    md_inputNamesToIdMap md = input_ids (om_inputs info) \<and> oe_session E plan = Some (md_session md) \<and>
    run_dummy_inference E info = Inr (Some (md_inputTensors md)) \<and>
    create_preprocessors E c modelId 0 (om_inputs info) ue = Inr (True, ue')"
proof -
  from assms obtain s where s: "oe_session E plan = Some s"
    by (auto simp: new_onnx_model_def split: option.splits)
  with assms have pre: "create_preprocessors E c modelId 0 (om_inputs info) ue = Inr (True, ue')"
    by (auto simp: new_onnx_model_def ubind_Inr_iff split: if_splits option.splits)
  with assms s obtain r where r: "run_dummy_inference E info = Inr r"
    by (auto simp: new_onnx_model_def ubind_Inr_iff)
  show ?thesis using assms s pre r by (cases r) (auto simp: new_onnx_model_def)
qed

lemma new_model_tensors:
  assumes "new_onnx_model E c ident info plan version modelId ue = Inr (Some md, ue')"
  shows "length (md_inputTensors md) = length (om_inputs (md_info md)) \<and>
    (\<forall>k < length (om_inputs (md_info md)). \<exists>v. md_inputTensors md ! k = Some v \<and> tv_data v = Released)"
proof -
  have "dummy_tensors E (om_inputs (md_info md)) = Inr (Some (md_inputTensors md))"
    using new_model_result [OF assms] run_dummy_result by metis
  from dummy_released [OF this] show ?thesis by (metis nth_mem)
qed

lemma fill_input_other:
  assumes "fill_input E clk md u name st = Inr (None, st')" "smap_find (md_inputNamesToIdMap md) name \<noteq> Some (int k)"
  shows "in_tensors st' ! k = in_tensors st ! k"
  using assms by (auto simp: fill_input_def ubind_Inr_iff vec_get_Inr_iff place_tensor_result Let_def
      split: option.splits if_splits user_data.splits)

lemma fill_inputs_other:
  "fill_inputs E clk md u names st = Inr (None, st') \<Longrightarrow>
    \<forall>name \<in> set names. smap_find (md_inputNamesToIdMap md) name \<noteq> Some (int k) \<Longrightarrow>
    in_tensors st' ! k = in_tensors st ! k"
proof (induction names arbitrary: st)
  case (Cons name names)
  then obtain st1 where one: "fill_input E clk md u name st = Inr (None, st1)"
    and rest: "fill_inputs E clk md u names st1 = Inr (None, st')"
    by (auto simp: ubind_Inr_iff split: option.splits)
  from fill_input_other [OF one] Cons.IH [OF rest] Cons.prems(2) show ?case by simp
qed simp

lemma uncovered_kept:
  "run_preprocessors E clk md req ps st = Inr (None, st') \<Longrightarrow>
    \<forall>p \<in> set ps. \<forall>name \<in> set (pn_inputNames p). smap_find (md_inputNamesToIdMap md) name \<noteq> Some (int k) \<Longrightarrow>
    in_tensors st' ! k = in_tensors st ! k"
proof (induction ps arbitrary: st)
  case (Cons p ps)
  then obtain u st1 where one: "fill_inputs E clk md u (pn_inputNames p) st = Inr (None, st1)"
    and rest: "run_preprocessors E clk md req ps st1 = Inr (None, st')"
    by (auto simp: ubind_Inr_iff split: option.splits if_splits)
  from fill_inputs_other [OF one] Cons.IH [OF rest] Cons.prems(2) show ?case by simp
qed simp


section \<open>An example model\<close>

text \<open>One client input \<open>x\<close> and one preprocessed input \<open>p\<close>, over the example table; any runtime can be plugged in.\<close>

definition demo_env :: "(32 word, 64 word, nat, nat) onnx_env" where
  "demo_env = \<lparr>oe_sql = demo_sql True, oe_float = demo_ops, oe_get_float = io_get demo_instance,
     oe_get_double = (\<lambda>j. Inl Type_Error), oe_FLOAT = 1, oe_INT32 = 6, oe_INT64 = 7, oe_DOUBLE = 11,
     oe_session = (\<lambda>plan. if plan = ''plan'' then Some 0 else None), oe_create = (\<lambda>n shape d. True),
     oe_show = (\<lambda>d b i. []), oe_run = (\<lambda>s ins slots. Some (map (\<lambda>slot. replicate (nat (op_bytes slot)) (CHR ''0'')) slots))\<rparr>"

definition demo_tensor :: "string \<Rightarrow> int \<Rightarrow> tensor_info" where
  "demo_tensor name n = \<lparr>tn_name = name, tn_dataType = 1, tn_featureName = [], tn_isFeature = False,
     tn_shape = [n], tn_size = n, tn_preprocessorJson = JNull, tn_toPreprocess = False\<rparr>"

definition demo_processed :: tensor_info where
  "demo_processed = (demo_tensor ''p'' 1)\<lparr>tn_dataType := 6, tn_preprocessorJson := demo_description, tn_toPreprocess := True\<rparr>"

definition demo_info :: "bool \<Rightarrow> onnx_model_info" where
  "demo_info named = \<lparr>om_valid = True, om_inputs = [demo_tensor ''x'' 2, demo_processed], om_outputs = [demo_tensor ''y'' 1],
     om_preprocessorInputs = (if named then [\<lparr>pn_name = ''rows'', pn_inputNames = [''p'']\<rparr>] else [])\<rparr>"

definition demo_loading :: "nat \<Rightarrow> load_clock" where
  "demo_loading i = ((\<lambda>a b c. 6), (\<lambda>a b. 6))"

definition demo_load :: "bool \<Rightarrow> ((32 word, 64 word, nat) onnx_model option \<times> (32 word, 64 word, nat) user_events) outcome" where
  "demo_load named = new_onnx_model demo_env demo_loading 0 (demo_info named) ''plan'' ''1'' ''m'' demo_fresh"

definition demo_model :: "bool \<Rightarrow> (32 word, 64 word, nat) onnx_model" where
  "demo_model named = (case demo_load named of Inr (Some md, ue) \<Rightarrow> md
     | _ \<Rightarrow> \<lparr>md_id = 0, md_session = 0, md_info = demo_info named, md_modelId = [], md_version = [], md_inputTensors = [],
             md_inputNamesToIdMap = []\<rparr>)"

definition demo_events :: "bool \<Rightarrow> (32 word, 64 word, nat) user_events" where
  "demo_events named = (case demo_load named of Inr (m, ue) \<Rightarrow> ue | Inl f \<Rightarrow> demo_fresh)"

definition demo_onnx_request :: onnx_request where
  "demo_onnx_request = [\<lparr>ui_data = Raw ''00001111'', ui_length = 2, ui_name = ''x'', ui_dataType = 1\<rparr>,
     \<lparr>ui_data = Rows [\<lparr>si_keys = [''user''], si_values = [''a''], si_keysLength = 1\<rparr>], ui_length = 1,
      ui_name = ''rows'', ui_dataType = PREPROCESSOR_INPUT_TYPE\<rparr>]"

definition demo_prepared :: "bool \<Rightarrow> (int option \<times> (32 word, 64 word, nat) inference_state) outcome" where
  "demo_prepared named = prepare_inputs demo_env (\<lambda>k j. id) [] (demo_model named) demo_onnx_request (demo_events named)"

definition demo_state :: "bool \<Rightarrow> (32 word, 64 word, nat) inference_state" where
  "demo_state named = (case demo_prepared named of Inr (e, st) \<Rightarrow> st
     | Inl f \<Rightarrow> \<lparr>in_tensors = [], in_fill = [], in_events = demo_fresh\<rparr>)"

lemma demo_load_result: "demo_load named = Inr (Some (demo_model named), demo_events named)"
proof -
  have "case demo_load b of Inr (Some md, ue) \<Rightarrow> True | _ \<Rightarrow> False" for b
    by (cases b) (simp_all only:, code_simp+)
  from this [of named] show ?thesis
    by (auto simp: demo_model_def demo_events_def split: sum.splits option.splits prod.splits)
qed

lemma demo_prepared_result: "demo_prepared named = Inr (None, demo_state named)"
proof -
  have "case demo_prepared b of Inr (None, st) \<Rightarrow> True | _ \<Rightarrow> False" for b
    by (cases b) (simp_all only:, code_simp+)
  from this [of named] show ?thesis
    by (auto simp: demo_state_def split: sum.splits option.splits prod.splits)
qed

lemmas demo_prepare = demo_prepared_result [unfolded demo_prepared_def]

lemma demo_model_facts:
  "md_info (demo_model True) = demo_info True" "md_info (demo_model False) = demo_info False"
  "length (md_inputTensors (demo_model True)) = length (om_inputs (demo_info True))"
  "smap_find (md_inputNamesToIdMap (demo_model True)) ''p'' = Some (int 1)"
proof -
  have "(md_info (demo_model True), md_info (demo_model False), length (md_inputTensors (demo_model True)),
      smap_find (md_inputNamesToIdMap (demo_model True)) ''p'') =
    (demo_info True, demo_info False, length (om_inputs (demo_info True)), Some (int 1))"
    by code_simp
  then show "md_info (demo_model True) = demo_info True" "md_info (demo_model False) = demo_info False"
    "length (md_inputTensors (demo_model True)) = length (om_inputs (demo_info True))"
    "smap_find (md_inputNamesToIdMap (demo_model True)) ''p'' = Some (int 1)"
    by simp_all
qed

lemma demo_covered: "covered (demo_model True) 1"
  unfolding covered_def demo_model_facts(1) using demo_model_facts(4) by (simp add: demo_info_def)

lemma demo_tensors:
  "\<forall>k < length (om_inputs (demo_info True)). tn_toPreprocess (om_inputs (demo_info True) ! k) \<longrightarrow> k = 1"
  by (auto simp: demo_info_def demo_tensor_def less_Suc_eq)

lemma inference_inputs_fresh_witness:
  "\<exists>v. in_tensors (demo_state True) ! 0 = Some v \<and> source_ok demo_env [] demo_onnx_request (demo_tensor ''x'' 2) v"
proof -
  have "0 < length (om_inputs (md_info (demo_model True)))" "\<not> tn_toPreprocess (om_inputs (md_info (demo_model True)) ! 0)"
    by (simp_all add: demo_model_facts demo_info_def demo_tensor_def)
  then show ?thesis
    using inference_inputs_fresh [OF demo_prepare [of True], of 0] demo_model_facts
    by (simp add: demo_info_def)
qed




end
