(* ===== verification/Onnx_Executor_Contract.thy ===== *)
theory Onnx_Executor_Contract
  imports Onnx_Executor Onnx_Inference
begin

text \<open>
  The contract of \<open>ONNXExecutor\<close>: the ring buffer is a queue of the last inferences,
  the invariant of the loaded models, and what becomes of the saved inputs of a model
  that is replaced.
\<close>

section \<open>The interface of a bounded log\<close>

text \<open>A store that keeps the last entries: the client of it only sees \<open>entries\<close>.\<close>

locale bounded_log =
  fixes record_entry :: "'e \<Rightarrow> 'd \<Rightarrow> 'd outcome"
    and entries :: "'d \<Rightarrow> 'e list"
    and ok :: "'d \<Rightarrow> bool"
  assumes records: "ok d \<Longrightarrow> \<exists>d'. record_entry e d = Inr d' \<and> ok d' \<and> entries d' = tl (entries d) @ [e]"
    and capacity: "ok d \<Longrightarrow> entries d \<noteq> []"
begin

lemma last_entries:
  assumes "ok d"
  shows "\<exists>d'. ufold record_entry es d = Inr d' \<and> ok d' \<and> entries d' = drop (length es) (entries d @ es)"
  using assms
proof (induction es arbitrary: d)
  case (Cons e es)
  from records [OF Cons.prems, of e] obtain d1 where
    d1: "record_entry e d = Inr d1" "ok d1" "entries d1 = tl (entries d) @ [e]" by blast
  from Cons.IH [OF d1(2)] obtain d' where
    d': "ufold record_entry es d1 = Inr d'" "ok d'" "entries d' = drop (length es) (entries d1 @ es)" by blast
  have "entries d1 @ es = tl (entries d @ e # es)" using d1(3) capacity [OF Cons.prems] by simp
  then have "entries d' = drop (length (e # es)) (entries d @ e # es)" by (simp only: d'(3) drop_Suc length_Cons)
  with d1(1) d'(1,2) show ?case by simp
qed simp

end

section \<open>The ring buffer is one\<close>

definition db_slots :: "('f, 'd) inference_db \<Rightarrow> (string \<times> ('f, 'd) preprocessed_input list) list" where
  "db_slots db = zip (id_inferIds db) (id_inputs db)"

text \<open>Oldest entry first.\<close>

definition db_entries :: "('f, 'd) inference_db \<Rightarrow> (string \<times> ('f, 'd) preprocessed_input list) list" where
  "db_entries db = (let k = nat (id_overWriteInferenceIndex db) in drop k (db_slots db) @ take k (db_slots db))"

definition db_ok :: "('f, 'd) inference_db \<Rightarrow> bool" where
  "db_ok db = (0 < id_maxInferencesSaved db \<and> length (id_inputs db) = nat (id_maxInferencesSaved db) \<and>
     length (id_inferIds db) = nat (id_maxInferencesSaved db) \<and> 0 \<le> id_overWriteInferenceIndex db \<and>
     id_overWriteInferenceIndex db < id_maxInferencesSaved db)"

definition db_record :: "string \<times> ('f, 'd) preprocessed_input list \<Rightarrow> ('f, 'd) inference_db \<Rightarrow> ('f, 'd) inference_db outcome" where
  "db_record e db = add_input_for_inferId (fst e) (snd e) db"

lemma rotate_update:
  assumes "k < length xs"
  shows "drop (Suc k mod length xs) (xs[k := x]) @ take (Suc k mod length xs) (xs[k := x]) = tl (drop k xs @ take k xs) @ [x]"
proof (cases "Suc k = length xs")
  case True
  then have "xs = take k xs @ [xs ! k]" by (metis lessI take_Suc_conv_app_nth take_all order_refl)
  then have "drop k xs = [xs ! k]" "xs[k := x] = take k xs @ [x]"
    using True assms by (simp_all add: Cons_nth_drop_Suc [symmetric] upd_conv_take_nth_drop)
  then show ?thesis using True by simp
next
  case False
  then have "Suc k mod length xs = Suc k" using assms by simp
  moreover have "tl (drop k xs) = drop (Suc k) xs" "drop k xs \<noteq> []" using assms by (simp_all add: drop_Suc tl_drop)
  ultimately show ?thesis using assms by (simp add: take_Suc_conv_app_nth)
qed

lemma db_records:
  assumes "db_ok db"
  shows "\<exists>db'. db_record e db = Inr db' \<and> db_ok db' \<and> db_entries db' = tl (db_entries db) @ [e]"
proof -
  let ?k = "nat (id_overWriteInferenceIndex db)" and ?n = "nat (id_maxInferencesSaved db)"
  let ?db = "db\<lparr>id_inputs := (id_inputs db)[?k := snd e], id_inferIds := (id_inferIds db)[?k := fst e],
    id_overWriteInferenceIndex := (id_overWriteInferenceIndex db + 1) mod id_maxInferencesSaved db\<rparr>"
  have k: "?k < ?n" "length (db_slots db) = ?n" using assms by (auto simp: db_ok_def db_slots_def)
  have run: "db_record e db = Inr ?db" using assms by (simp add: db_record_def add_input_for_inferId_def db_ok_def Let_def)
  have ok: "db_ok ?db" using assms by (simp add: db_ok_def)
  have "id_overWriteInferenceIndex db + 1 = int (Suc ?k)" "id_maxInferencesSaved db = int ?n" using assms by (simp_all add: db_ok_def)
  then have next_index: "nat ((id_overWriteInferenceIndex db + 1) mod id_maxInferencesSaved db) = Suc ?k mod ?n"
    by (metis nat_int zmod_int)
  have slots: "db_slots ?db = (db_slots db)[?k := e]" by (simp add: db_slots_def update_zip)
  have "db_entries ?db = drop (Suc ?k mod ?n) ((db_slots db)[?k := e]) @ take (Suc ?k mod ?n) ((db_slots db)[?k := e])"
    unfolding db_entries_def Let_def slots using next_index by simp
  also have "\<dots> = tl (db_entries db) @ [e]"
    unfolding db_entries_def Let_def k(2) [symmetric] by (rule rotate_update) (simp only: k)
  finally have "db_entries ?db = tl (db_entries db) @ [e]" .
  with run ok show ?thesis by blast
qed

interpretation inference_log: bounded_log db_record db_entries db_ok
proof unfold_locales
  show "db_entries d \<noteq> []" if "db_ok d" for d :: "('f, 'd) inference_db"
    using that by (auto simp: db_ok_def db_entries_def db_slots_def Let_def)
qed (rule db_records)

lemma new_db_entries:
  assumes "new_inference_db n = Inr db" "0 < n"
  shows "db_ok db \<and> db_entries db = replicate (nat n) ([], [])"
  using assms by (auto simp: new_inference_db_def db_ok_def db_entries_def db_slots_def zip_replicate split: if_splits)

lemma find_inferId_nth:
  "find_inferId xs x i = Some j \<Longrightarrow> i \<le> j \<and> j < i + int (length xs) \<and> xs ! nat (j - i) = x"
proof (induction xs arbitrary: i)
  case (Cons y ys)
  show ?case
  proof (cases "y = x")
    case False
    with Cons.prems Cons.IH [of "i + 1"] have "i + 1 \<le> j" "j < i + 1 + int (length ys)" "ys ! nat (j - (i + 1)) = x" by simp_all
    moreover from this have "nat (j - i) = Suc (nat (j - (i + 1)))" by simp
    ultimately show ?thesis by simp
  qed (use Cons.prems in auto)
qed simp

lemma find_inferId_None: "find_inferId xs x i = None \<longleftrightarrow> x \<notin> set xs"
  by (induction xs arbitrary: i) auto

lemma db_lookup:
  assumes "db_ok db"
  shows "(inferId \<notin> fst ` set (db_entries db) \<longrightarrow> db_get_inputs_for_inferId E infos inferId db = Inr None) \<and>
    (\<forall>inputs. (inferId, inputs) \<in> set (db_entries db) \<longrightarrow> (\<forall>x. (inferId, x) \<in> set (db_entries db) \<longrightarrow> x = inputs) \<longrightarrow>
      db_get_inputs_for_inferId E infos inferId db = populate_preprocessors_input_in_return_object E infos inputs)"
proof -
  have len: "length (id_inputs db) = length (id_inferIds db)" using assms by (simp add: db_ok_def)
  have set: "set (db_entries db) = set (db_slots db)"
    unfolding db_entries_def Let_def by (metis append_take_drop_id set_append sup_commute)
  have fst: "fst ` set (db_entries db) = set (id_inferIds db)"
    unfolding set db_slots_def using len by (metis map_fst_zip set_map)
  have "db_get_inputs_for_inferId E infos inferId db = populate_preprocessors_input_in_return_object E infos inputs"
    if "(inferId, inputs) \<in> set (db_entries db)" "\<forall>x. (inferId, x) \<in> set (db_entries db) \<longrightarrow> x = inputs" for inputs
  proof -
    have "inferId \<in> set (id_inferIds db)" using that(1) fst by force
    then obtain j where j: "find_inferId (id_inferIds db) inferId 0 = Some j"
      using find_inferId_None [of "id_inferIds db" inferId 0] by blast
    from find_inferId_nth [OF j] have nth: "0 \<le> j" "j < int (length (id_inferIds db))" "id_inferIds db ! nat j = inferId" by simp_all
    then have "(inferId, id_inputs db ! nat j) \<in> set (db_slots db)"
      using len unfolding db_slots_def in_set_zip by (intro exI [of _ "nat j"]) auto
    then have "id_inputs db ! nat j = inputs" using that(2) set by blast
    then show ?thesis using j nth len by (simp add: db_get_inputs_for_inferId_def)
  qed
  moreover have "db_get_inputs_for_inferId E infos inferId db = Inr None" if "inferId \<notin> fst ` set (db_entries db)"
    using that unfolding fst by (simp add: db_get_inputs_for_inferId_def find_inferId_None [THEN iffD2])
  ultimately show ?thesis by blast
qed

text \<open>C12: the ring buffer of \<open>n\<close> slots is a queue of the last \<open>n\<close> inferences: after any
  sequence of inferences a lookup finds exactly the inputs recorded by one of the last
  \<open>n\<close>, provided these have different, non-empty identifiers.
\<close>
theorem last_inferences_found:
  assumes "new_inference_db n = Inr db0" "0 < n" "ufold db_record hs db0 = Inr db"
    and "recent = drop (length hs - nat n) hs" "distinct (map fst recent)" "inferId \<noteq> []"
  shows "db_get_inputs_for_inferId E infos inferId db =
    (case map_of recent inferId of None \<Rightarrow> Inr None
     | Some inputs \<Rightarrow> populate_preprocessors_input_in_return_object E infos inputs)"
proof -
  note new = new_db_entries [OF assms(1,2)]
  from inference_log.last_entries [of db0 hs] new assms(3) have ok: "db_ok db"
    and entries: "db_entries db = drop (length hs) (replicate (nat n) ([], []) @ hs)" by auto
  have "db_entries db = replicate (nat n - length hs) ([], []) @ recent"
    by (cases "length hs \<le> nat n") (simp_all add: entries assms(4))
  then have mem: "(inferId, x) \<in> set (db_entries db) \<longleftrightarrow> (inferId, x) \<in> set recent" for x
    using assms(6) by auto
  show ?thesis
  proof (cases "map_of recent inferId")
    case None
    then have "inferId \<notin> fst ` set recent" by (simp add: map_of_eq_None_iff)
    then have "\<forall>x. (inferId, x) \<notin> set recent" by force
    then have "\<forall>x. (inferId, x) \<notin> set (db_entries db)" by (simp add: mem)
    then have "inferId \<notin> fst ` set (db_entries db)" by force
    from mp [OF conjunct1 [OF db_lookup [OF ok]] this] show ?thesis by (simp add: None)
  next
    case (Some inputs)
    then have "(inferId, inputs) \<in> set (db_entries db)" using mem by (simp add: map_of_SomeD)
    moreover have "\<forall>x. (inferId, x) \<in> set (db_entries db) \<longrightarrow> x = inputs"
      unfolding mem using Some map_of_is_SomeI [OF assms(5)] by fastforce
    ultimately have "db_get_inputs_for_inferId E infos inferId db = populate_preprocessors_input_in_return_object E infos inputs"
      using conjunct2 [OF db_lookup [OF ok]] by blast
    then show ?thesis by (simp add: Some)
  qed
qed

lemma last_inferences_found_witness:
  "\<exists>db. new_inference_db 2 = Inr db \<and> (\<exists>db'. ufold db_record [(''a'', []), (''b'', []), (''c'', [])] db = Inr db' \<and>
    db_get_inputs_for_inferId demo_env (\<lambda>k. None) ''a'' db' = Inr None)"
proof -
  obtain db where db: "new_inference_db 2 = Inr (db :: (32 word, 64 word) inference_db)" by (simp add: new_inference_db_def)
  from inference_log.last_entries [of db "[(''a'', []), (''b'', []), (''c'', [])]"] new_db_entries [OF db]
  obtain db' where db': "ufold db_record [(''a'', []), (''b'', []), (''c'', [])] db = Inr db'" by auto
  from last_inferences_found [OF db _ db' refl, of "''a''" demo_env "\<lambda>k. None"] have
    "db_get_inputs_for_inferId demo_env (\<lambda>k. None) ''a'' db' = Inr None" by simp
  with db db' show ?thesis by blast
qed

section \<open>The loaded models\<close>

definition model_ok :: "('f, 'd, 's) onnx_model \<Rightarrow> bool" where
  "model_ok md = (length (md_inputTensors md) = length (om_inputs (md_info md)) \<and>
     md_inputNamesToIdMap md = input_ids (om_inputs (md_info md)))"

text \<open>Model objects are told apart by their identity, and the next identity is fresh.\<close>

definition executor_inv :: "('f, 'd, 's) executor \<Rightarrow> bool" where
  "executor_inv ex =
     (smap_ok (ex_modelMap ex) \<and>
      (\<forall>m md. smap_find (ex_modelMap ex) m = Some md \<longrightarrow> md_id md < ex_created ex \<and> model_ok md) \<and>
      (\<forall>m m' md md'. smap_find (ex_modelMap ex) m = Some md \<longrightarrow> smap_find (ex_modelMap ex) m' = Some md' \<longrightarrow>
         md_id md = md_id md' \<longrightarrow> m = m'))"

lemma executor_inv_new: "new_executor c = Inr ex \<Longrightarrow> executor_inv ex"
  by (auto simp: new_executor_def ubind_Inr_iff executor_inv_def)

lemma executor_inv_model:
  "executor_inv ex \<Longrightarrow> smap_find (ex_modelMap ex) m = Some md \<Longrightarrow> md_id md < ex_created ex \<and> model_ok md"
  unfolding executor_inv_def by blast

lemma executor_inv_unique:
  "executor_inv ex \<Longrightarrow> smap_find (ex_modelMap ex) m = Some md \<Longrightarrow> smap_find (ex_modelMap ex) m' = Some md' \<Longrightarrow>
    md_id md = md_id md' \<Longrightarrow> m = m'"
  unfolding executor_inv_def by blast

lemma executor_inv_put:
  assumes "executor_inv ex" "model_ok md" "md_id md < n" "ex_created ex \<le> n"
    and "\<And>m' md'. smap_find (ex_modelMap ex) m' = Some md' \<Longrightarrow> md_id md' = md_id md \<Longrightarrow> m' = m"
  shows "executor_inv (ex\<lparr>ex_created := n, ex_modelMap := smap_put m md (ex_modelMap ex)\<rparr>)"
proof -
  let ?ex = "ex\<lparr>ex_created := n, ex_modelMap := smap_put m md (ex_modelMap ex)\<rparr>"
  have bound: "md_id md2 < n \<and> model_ok md2" if "smap_find (ex_modelMap ?ex) m2 = Some md2" for m2 md2
    using that assms(2,3,4) executor_inv_model [OF assms(1), of m2 md2] by (auto split: if_splits)
  have unique: "m2 = m3" if "smap_find (ex_modelMap ?ex) m2 = Some md2" "smap_find (ex_modelMap ?ex) m3 = Some md3"
      "md_id md2 = md_id md3" for m2 m3 md2 md3
    using that assms(5) [of m2 md2] assms(5) [of m3 md3] executor_inv_unique [OF assms(1), of m2 md2 m3 md3]
    by (auto split: if_splits)
  have "smap_ok (ex_modelMap ?ex)" using assms(1) by (simp add: executor_inv_def)
  moreover have "ex_created ?ex = n" by simp
  ultimately show ?thesis unfolding executor_inv_def using bound unique by metis
qed

lemma executor_inv_frame:
  "executor_inv ex \<Longrightarrow> ex_modelMap ex' = ex_modelMap ex \<Longrightarrow> ex_created ex \<le> ex_created ex' \<Longrightarrow> executor_inv ex'"
  unfolding executor_inv_def by (auto dest: order.strict_trans2)

lemma load_plan_cases:
  assumes "executor_load_plan E c modelId planData ex ue = Inr (ok, ex', ue')"
  obtains (refused) "\<not> ok" "ex' = ex"
  | (failed) "\<not> ok" "ex' = ex\<lparr>ex_created := Suc (ex_created ex)\<rparr>"
  | (loaded) info md where "ok" "new_onnx_model E c (ex_created ex) info (pl_plan planData) (pl_version planData) modelId ue = Inr (Some md, ue')"
      "ex' = ex\<lparr>ex_created := Suc (ex_created ex), ex_modelMap := smap_put modelId md (ex_modelMap ex)\<rparr>"
proof -
  from assms obtain info where info: "parser_get (sq_parse (oe_sql E)) no_model_info model_info_from_json (pl_extraFields planData) = Inr info"
    by (auto simp: executor_load_plan_def ubind_Inr_iff)
  show thesis
  proof (cases "om_valid info")
    case True
    with assms info obtain r ue1 where r: "new_onnx_model E c (ex_created ex) info (pl_plan planData) (pl_version planData) modelId ue = Inr (r, ue1)"
      by (auto simp: executor_load_plan_def ubind_Inr_iff)
    show thesis
    proof (cases r)
      case None
      with assms info True r show thesis by (intro failed) (auto simp: executor_load_plan_def)
    next
      case (Some md)
      with assms info True r show thesis by (intro loaded [of info md]) (auto simp: executor_load_plan_def)
    qed
  qed (use assms info in \<open>auto simp: executor_load_plan_def intro: refused\<close>)
qed

lemma executor_inv_load:
  assumes "executor_inv ex" "executor_load_plan E c modelId planData ex ue = Inr (ok, ex', ue')"
  shows "executor_inv ex'"
  using assms(2)
proof (cases rule: load_plan_cases)
  case (loaded info md)
  have "model_ok md" "md_id md = ex_created ex"
    using new_model_result [OF loaded(2)] new_model_tensors [OF loaded(2)] by (simp_all add: model_ok_def)
  moreover from this have "md_id md' \<noteq> md_id md" if "smap_find (ex_modelMap ex) m' = Some md'" for m' md'
    using executor_inv_model [OF assms(1) that] by simp
  ultimately show ?thesis unfolding loaded(3) by (intro executor_inv_put assms(1)) auto
qed (use assms(1) in \<open>auto intro: executor_inv_frame\<close>)

lemma inference_keeps_model:
  assumes "model_get_inference E debug clk fm md req ue = Inr r" "model_ok md"
  shows "md_id (ir_model r) = md_id md \<and> md_info (ir_model r) = md_info md \<and> md_version (ir_model r) = md_version md \<and>
    model_ok (ir_model r)"
proof -
  from assms(1) obtain status st where prep: "prepare_inputs E clk fm md req ue = Inr (status, st)"
    by (auto simp: model_get_inference_def ubind_Inr_iff)
  have model: "ir_model r = md\<lparr>md_inputTensors := in_tensors st\<rparr>"
    using assms(1) prep by (cases status) (auto simp: model_get_inference_def ubind_Inr_iff finish_inference_def)
  have "length (in_tensors st) = length (om_inputs (md_info md))"
    using prep assms(2) by (simp add: model_ok_def prepare_length)
  then show ?thesis using assms(2) by (simp add: model model_ok_def)
qed

lemma executor_inference_cases:
  assumes "executor_get_inference E debug clk fm inferId modelId req ex ue = Inr r"
  obtains (unknown) "smap_find (ex_modelMap ex) modelId = None" "er_executor r = ex" "er_status r = TERMINAL_ERROR"
  | (served) md mr db where "smap_find (ex_modelMap ex) modelId = Some md"
      "model_get_inference E debug clk fm md req ue = Inr mr"
      "add_input_for_inferId inferId (ir_fill mr) (ex_inferenceDataBase ex) = Inr db"
      "er_executor r = ex\<lparr>ex_modelMap := smap_put modelId (ir_model mr) (ex_modelMap ex), ex_inferenceDataBase := db\<rparr>"
      "er_status r = ir_status mr" "er_return r = ir_return mr"
  using assms by (auto simp: executor_get_inference_def ubind_Inr_iff split: option.splits)

lemma executor_inv_inference:
  assumes "executor_inv ex" "executor_get_inference E debug clk fm inferId modelId req ex ue = Inr r"
  shows "executor_inv (er_executor r)"
  using assms(2)
proof (cases rule: executor_inference_cases)
  case (served md mr db)
  note md = executor_inv_model [OF assms(1) served(1)]
  note kept = inference_keeps_model [OF served(2) conjunct2 [OF md]]
  let ?ex = "ex\<lparr>ex_created := ex_created ex, ex_modelMap := smap_put modelId (ir_model mr) (ex_modelMap ex)\<rparr>"
  have "executor_inv ?ex"
    using md kept executor_inv_unique [OF assms(1) _ served(1)] by (intro executor_inv_put assms(1)) auto
  then show ?thesis by (rule executor_inv_frame) (simp_all add: served(4))
qed (use assms(1) in simp)

text \<open>The calls of the executor, in any order.\<close>

inductive executor_reach :: "('f, 'd, 'db, 's) onnx_env \<Rightarrow> config \<Rightarrow> ('f, 'd, 's) executor \<Rightarrow> bool" for E cfg where
  create: "new_executor cfg = Inr ex \<Longrightarrow> executor_reach E cfg ex"
| load: "executor_reach E cfg ex \<Longrightarrow> executor_load_plan E c modelId planData ex ue = Inr (ok, ex', ue') \<Longrightarrow>
    executor_reach E cfg ex'"
| infer: "executor_reach E cfg ex \<Longrightarrow> executor_get_inference E debug clk fm inferId modelId req ex ue = Inr r \<Longrightarrow>
    executor_reach E cfg (er_executor r)"
| reset: "executor_reach E cfg ex \<Longrightarrow> executor_reach E cfg (reset_model_retries modelId ex)"
| spend: "executor_reach E cfg ex \<Longrightarrow> executor_reach E cfg (update_model_retries modelId ex)"
| ask: "executor_reach E cfg ex \<Longrightarrow> executor_reach E cfg (snd (can_model_retry modelId ex))"
| updated: "executor_reach E cfg ex \<Longrightarrow> executor_reach E cfg (plan_updated modelId b ex)"

text \<open>whatever sequence of loads, inferences and retries, every loaded model has one
  tensor per input of its description and names its inputs by their last index, and
  no two names share a model object.
\<close>
theorem executor_invariant:
  assumes "executor_reach E cfg ex"
  shows "executor_inv ex"
  using assms
proof (induction rule: executor_reach.induct)
  case (reset ex modelId)
  then show ?case by (auto simp: reset_model_retries_def elim: executor_inv_frame)
next
  case (spend ex modelId)
  then show ?case by (auto simp: update_model_retries_def elim: executor_inv_frame split: option.splits)
next
  case (ask ex modelId)
  then show ?case by (auto simp: can_model_retry_def Let_def elim: executor_inv_frame)
next
  case (updated ex modelId b)
  then show ?case by (auto simp: plan_updated_def elim: executor_inv_frame)
qed (auto intro: executor_inv_new executor_inv_load executor_inv_inference)

section \<open>Saved inputs of a replaced model\<close>

lemma live_infos_None: "\<forall>m md. smap_find (ex_modelMap ex) m = Some md \<longrightarrow> md_id md \<noteq> k \<Longrightarrow> smap_ok (ex_modelMap ex) \<Longrightarrow> live_infos ex k = None"
proof -
  assume a: "\<forall>m md. smap_find (ex_modelMap ex) m = Some md \<longrightarrow> md_id md \<noteq> k" "smap_ok (ex_modelMap ex)"
  then have "\<forall>md \<in> set (map snd (ex_modelMap ex)). md_id md \<noteq> k" by (force simp: smap_find_in [symmetric])
  then show ?thesis by (simp add: live_infos_def find_None_iff)
qed

text \<open>C37: after a new plan of a model is loaded, asking for the inputs of an inference the
  old model served reads the description of the destroyed model object.
\<close>
theorem reload_invalidates_saved_inputs:
  assumes "executor_inv ex" "smap_find (ex_modelMap ex) modelId = Some md"
    and "executor_load_plan E c modelId planData ex ue = Inr (True, ex', ue')"
    and "find_inferId (id_inferIds (ex_inferenceDataBase ex)) inferId 0 = Some i"
    and "vec_get (id_inputs (ex_inferenceDataBase ex)) i = Inr (p # ps)" "pr_model p = md_id md"
  shows "get_inputs_for_inferId E inferId ex' = Inl Dangling"
  using assms(3)
proof (cases rule: load_plan_cases)
  case (loaded info new)
  have new: "md_id new = ex_created ex" using new_model_result [OF loaded(2)] by simp
  have old: "md_id md < ex_created ex" using executor_inv_model [OF assms(1,2)] by simp
  have "md_id md2 \<noteq> md_id md" if "smap_find (ex_modelMap ex') m2 = Some md2" for m2 md2
    using that new old executor_inv_unique [OF assms(1) _ assms(2), of m2 md2] by (auto simp: loaded(3) split: if_splits)
  moreover have "smap_ok (ex_modelMap ex')" using assms(1) by (simp add: executor_inv_def loaded(3))
  ultimately have "live_infos ex' (md_id md) = None" by (intro live_infos_None) auto
  then show ?thesis using assms(4-6) by (simp add: get_inputs_for_inferId_def db_get_inputs_for_inferId_def loaded(3))
qed simp_all

text \<open>an inference whose preprocessor delivers too few values is refused, but its
  inputs are saved all the same: asking for them afterwards copies the declared size
  from the shorter buffer.
\<close>
theorem short_input_saved_overread:
  assumes "fill_input E clk md u name st = Inr (Some e, st')" "in_fill st' = in_fill st @ [p]"
    and "infos (md_id md) = Some (md_info md)" "t = om_inputs (md_info md) ! nat (pr_index p)"
    and "get_field_size_from_data_type E (tn_dataType t) \<noteq> 0"
    and "0 \<le> tn_size t * get_field_size_from_data_type E (tn_dataType t)"
    and "tn_size t * get_field_size_from_data_type E (tn_dataType t) < 2 ^ 31"
    and "int (any_bytes (pr_modelInput p)) < tn_size t * get_field_size_from_data_type E (tn_dataType t)"
  shows "e = TERMINAL_ERROR \<and> populate_preprocessors_input_in_return_object E infos (p # ps) =
    Inl (Out_Of_Bounds (tn_size t * get_field_size_from_data_type E (tn_dataType t)))"
proof -
  from assms(1,2) have p: "pr_model p = md_id md" "0 \<le> pr_index p" "pr_index p < int (length (om_inputs (md_info md)))"
    by (auto simp: fill_input_def ubind_Inr_iff vec_get_Inr_iff Let_def
        split: option.splits if_splits user_data.splits)
  have "e = TERMINAL_ERROR" using fill_inputs_status [of E clk md u "[name]" st e st'] assms(1) by simp
  then show ?thesis using assms(3-8) p by (simp add: Let_def signed_result_def)
qed

section \<open>An example executor\<close>

definition demo_tensor_json :: "string \<Rightarrow> int \<Rightarrow> int \<Rightarrow> (string \<times> json) list \<Rightarrow> json" where
  "demo_tensor_json name d n rest =
     jobject ([(''name'', JString name), (''dataType'', JInt d), (''shape'', JArray [JInt n])] @ rest)"

definition demo_extras :: json where
  "demo_extras = jobject [(''inputs'', JArray [demo_tensor_json ''x'' 1 2 [], demo_tensor_json ''p'' 6 1 [(''processor'', demo_description)]]),
     (''outputs'', JArray [demo_tensor_json ''y'' 1 1 []]),
     (''inputsToProcessors'', JArray [jobject [(''name'', JString ''rows''), (''inputNames'', JArray [JString ''p''])]])]"

definition demo_onnx :: "(32 word, 64 word, nat, nat) onnx_env" where
  "demo_onnx = demo_env\<lparr>oe_sql := (demo_sql True)\<lparr>sq_parse := (\<lambda>s. if s = ''extras'' then Some demo_extras else None)\<rparr>\<rparr>"

definition demo_config_executor :: config where
  "demo_config_executor = new_config\<lparr>cf_modelIds := [''m''], cf_maxInputsToSave := 2\<rparr>"

definition demo_plan :: plan_data where
  "demo_plan = no_plan_data\<lparr>pl_version := ''1'', pl_plan := ''plan'', pl_extraFields := ''extras''\<rparr>"

definition demo_executor :: "(32 word, 64 word, nat) executor" where
  "demo_executor = (case new_executor demo_config_executor of Inr ex \<Rightarrow> ex | Inl f \<Rightarrow>
     \<lparr>ex_modelMap = [], ex_loadModelRetries = [], ex_isModelUpdated = [],
      ex_inferenceDataBase = \<lparr>id_inputs = [], id_inferIds = [], id_overWriteInferenceIndex = 0, id_maxInferencesSaved = 0\<rparr>, ex_created = 0\<rparr>)"

definition demo_plan_load where
  "demo_plan_load ex ue = executor_load_plan demo_onnx demo_loading ''m'' demo_plan ex (ue :: (32 word, 64 word, nat) user_events)"

definition demo_first :: "(32 word, 64 word, nat) executor \<times> (32 word, 64 word, nat) user_events" where
  "demo_first = (case demo_plan_load demo_executor demo_fresh of Inr (ok, r) \<Rightarrow> r | Inl f \<Rightarrow> (demo_executor, demo_fresh))"

definition demo_inference where
  "demo_inference = executor_get_inference demo_onnx False (\<lambda>k j. id) [] ''id'' ''m'' demo_onnx_request (fst demo_first) (snd demo_first)"

definition demo_served :: "(32 word, 64 word, nat) executor \<times> (32 word, 64 word, nat) user_events" where
  "demo_served = (case demo_inference of Inr r \<Rightarrow> (er_executor r, er_events r) | Inl f \<Rightarrow> demo_first)"

definition demo_second :: "(32 word, 64 word, nat) executor \<times> (32 word, 64 word, nat) user_events" where
  "demo_second = (case demo_plan_load (fst demo_served) (snd demo_served) of Inr (ok, r) \<Rightarrow> r | Inl f \<Rightarrow> demo_served)"

lemma demo_new_executor: "new_executor demo_config_executor = Inr demo_executor"
  by code_simp

lemma demo_first_load: "demo_plan_load demo_executor demo_fresh = Inr (True, fst demo_first, snd demo_first)"
proof -
  have "map_sum id fst (demo_plan_load demo_executor demo_fresh) = Inr True" by code_simp
  then show ?thesis unfolding demo_first_def by (cases "demo_plan_load demo_executor demo_fresh") auto
qed

lemma demo_infer: "\<exists>r. demo_inference = Inr r \<and> er_status r = SUCCESS \<and> demo_served = (er_executor r, er_events r)"
proof -
  have "map_sum id er_status demo_inference = Inr SUCCESS" by code_simp
  then obtain r where r: "demo_inference = Inr r" "er_status r = SUCCESS" unfolding map_sum_Inr by blast
  have "demo_served = (er_executor r, er_events r)" unfolding demo_served_def r(1) by simp
  with r show ?thesis by blast
qed

lemma demo_second_load: "demo_plan_load (fst demo_served) (snd demo_served) = Inr (True, fst demo_second, snd demo_second)"
proof -
  have "map_sum id fst (demo_plan_load (fst demo_served) (snd demo_served)) = Inr True" by code_simp
  then show ?thesis unfolding demo_second_def by (cases "demo_plan_load (fst demo_served) (snd demo_served)") auto
qed

lemma demo_served_reach: "executor_reach demo_onnx demo_config_executor (fst demo_served)"
proof -
  obtain r where r: "demo_inference = Inr r" "demo_served = (er_executor r, er_events r)" using demo_infer by blast
  have "executor_reach demo_onnx demo_config_executor (fst demo_first)"
    using executor_reach.load [OF executor_reach.create [OF demo_new_executor] demo_first_load [unfolded demo_plan_load_def]] .
  from executor_reach.infer [OF this r(1) [unfolded demo_inference_def]] show ?thesis by (simp add: r(2))
qed

lemma executor_invariant_witness: "executor_inv (fst demo_served)"
  by (rule executor_invariant [OF demo_served_reach])

lemma demo_served_inv: "executor_inv (fst demo_served)"
proof -
  obtain r where r: "demo_inference = Inr r" "demo_served = (er_executor r, er_events r)" using demo_infer by blast
  have "executor_inv (fst demo_first)"
    using executor_inv_load [OF executor_inv_new [OF demo_new_executor] demo_first_load [unfolded demo_plan_load_def]] .
  from executor_inv_inference [OF this r(1) [unfolded demo_inference_def]] show ?thesis by (simp add: r(2))
qed

lemma reload_invalidates_saved_inputs_witness:
  "get_inputs_for_inferId demo_onnx ''id'' (fst demo_second) = Inl Dangling"
proof -
  let ?db = "ex_inferenceDataBase (fst demo_served)"
  have model: "map_option md_id (smap_find (ex_modelMap (fst demo_served)) ''m'') = Some 0" by code_simp
  then obtain md where md: "smap_find (ex_modelMap (fst demo_served)) ''m'' = Some md" "md_id md = 0" by auto
  have i: "find_inferId (id_inferIds ?db) ''id'' 0 = Some 0" by code_simp
  have "map_sum id (map pr_model) (vec_get (id_inputs ?db) 0) = Inr [0]" by code_simp
  then obtain p where "vec_get (id_inputs ?db) 0 = Inr (p # [])" "pr_model p = md_id md"
    using md(2) by (cases "vec_get (id_inputs ?db) 0") auto
  then show ?thesis
    by (rule reload_invalidates_saved_inputs [OF demo_served_inv md(1) demo_second_load [unfolded demo_plan_load_def] i])
qed

definition demo_short :: "(32 word, 64 word, nat) onnx_model" where
  "demo_short = (demo_model True)\<lparr>md_info := (demo_info True)\<lparr>om_inputs :=
     [demo_tensor ''x'' 2, demo_processed\<lparr>tn_shape := [5], tn_size := 5\<rparr>]\<rparr>\<rparr>"

definition demo_before :: "(32 word, 64 word, nat) inference_state" where
  "demo_before = \<lparr>in_tensors = [None, None], in_fill = [], in_events = demo_events True\<rparr>"

definition demo_short_fill where
  "demo_short_fill = fill_input demo_env (\<lambda>k j. id) demo_short (demo_onnx_request ! 1) ''p'' demo_before"

lemma short_input_saved_overread_witness:
  "\<exists>st' p. demo_short_fill = Inr (Some TERMINAL_ERROR, st') \<and> in_fill st' = [p] \<and>
    populate_preprocessors_input_in_return_object demo_env (\<lambda>k. Some (md_info demo_short)) [p] = Inl (Out_Of_Bounds 20)"
proof -
  have "map_sum id (\<lambda>(e, st). (e, map (\<lambda>p. (pr_index p, any_bytes (pr_modelInput p))) (in_fill st))) demo_short_fill =
      Inr (Some TERMINAL_ERROR, [(1, 4)])" by code_simp
  then obtain st' p where st': "demo_short_fill = Inr (Some TERMINAL_ERROR, st')" "in_fill st' = [p]"
    "pr_index p = 1" "any_bytes (pr_modelInput p) = 4"
    unfolding map_sum_Inr by (auto simp: map_eq_Cons_conv)
  have t: "om_inputs (md_info demo_short) ! nat (pr_index p) = demo_processed\<lparr>tn_shape := [5], tn_size := 5\<rparr>"
    by (simp add: demo_short_def st'(3))
  have size: "tn_size (demo_processed\<lparr>tn_shape := [5], tn_size := 5\<rparr>) *
      get_field_size_from_data_type demo_env (tn_dataType (demo_processed\<lparr>tn_shape := [5], tn_size := 5\<rparr>)) = 20"
    "get_field_size_from_data_type demo_env (tn_dataType (demo_processed\<lparr>tn_shape := [5], tn_size := 5\<rparr>)) \<noteq> 0" by code_simp+
  from short_input_saved_overread [OF st'(1) [unfolded demo_short_fill_def], where p = p and infos = "\<lambda>k. Some (md_info demo_short)"
    and ps = "[]", OF _ refl t [symmetric]] st' size show ?thesis
    by (auto simp: demo_before_def)
qed

end
