(* ===== verification/Onnx_Memory.thy ===== *)
theory Onnx_Memory
  imports Onnx_Inference
begin

text \<open>
  Who owns the memory of an \<open>ONNXInferenceReturn\<close>: \<open>allocate_output_memory\<close>,
  \<open>populate_preprocessors_input_in_return_object\<close>, \<open>delete_input_memory\<close> and
  \<open>deallocate_output_memory\<close> of \<open>ONNXExecutor.cpp\<close> over an explicit \<open>malloc\<close> heap.  The
  contents of the blocks are the business of \<open>Onnx_Model\<close>; here only the blocks count.
  The names point into the model and are not owned.  \<open>malloc\<close> does not fail, and gives a
  block of its own for zero bytes too, as the C libraries of Linux and Android do.
\<close>

section \<open>The heap\<close>

record malloc_heap =
  mh_live :: "nat \<Rightarrow> bool"
  mh_next :: nat

definition malloc :: "malloc_heap \<Rightarrow> nat \<times> malloc_heap" where
  "malloc h = (mh_next h, h\<lparr>mh_live := (mh_live h)(mh_next h := True), mh_next := Suc (mh_next h)\<rparr>)"

text \<open>\<open>free\<close> of a null pointer does nothing, of a block that is not live it is undefined.\<close>

definition mfree :: "nat option \<Rightarrow> malloc_heap \<Rightarrow> malloc_heap outcome" where
  "mfree p h = (case p of
     None \<Rightarrow> Inr h
   | Some a \<Rightarrow> if mh_live h a then Inr (h\<lparr>mh_live := (mh_live h)(a := False)\<rparr>) else Inl Dangling)"

section \<open>The return object\<close>

text \<open>\<open>rm_slots\<close>: \<open>outputs[i]\<close> and \<open>outputShapes[i]\<close>.\<close>

record return_memory =
  rm_outputs :: nat
  rm_outputNames :: nat
  rm_outputTypes :: nat
  rm_outputShapes :: nat
  rm_outputLengths :: nat
  rm_outputShapeLengths :: nat
  rm_slots :: "(nat option \<times> nat option) list"

text \<open>The result: \<open>true\<close>, \<open>false\<close>, or an exception of \<open>CreateTensor\<close>.\<close>

datatype filled = Complete | Refused | Fill_Thrown

fun fill_slots ::
  "('f, 'd, 'db, 's) onnx_env \<Rightarrow> (int \<Rightarrow> tensor_info \<Rightarrow> bool) \<Rightarrow> tensor_info list \<Rightarrow> malloc_heap
    \<Rightarrow> (filled \<times> (nat option \<times> nat option) list \<times> malloc_heap) outcome" where
  "fill_slots E throws [] h = Inr (Complete, [], h)"
| "fill_slots E throws (t # tns) h =
     (let fieldSize = get_field_size_from_data_type E (tn_dataType t) in
      if fieldSize = 0 then Inr (Refused, replicate (Suc (length tns)) (None, None), h)
      else ubind (signed_result 32 (tn_size t * fieldSize)) (\<lambda>n.
        if n < 0 then Inl Dangling
        else case malloc h of (a, h1) \<Rightarrow>
          if throws n t then Inr (Fill_Thrown, (Some a, None) # replicate (length tns) (None, None), h1)
          else case malloc h1 of (b, h2) \<Rightarrow>
            ubind (fill_slots E throws tns h2) (\<lambda>(r, slots, h3). Inr (r, (Some a, Some b) # slots, h3))))"

definition new_return ::
  "('f, 'd, 'db, 's) onnx_env \<Rightarrow> (int \<Rightarrow> tensor_info \<Rightarrow> bool) \<Rightarrow> tensor_info list \<Rightarrow> malloc_heap
    \<Rightarrow> (filled \<times> return_memory \<times> malloc_heap) outcome" where
  "new_return E throws tns h0 =
     (case malloc h0 of (a1, h1) \<Rightarrow> case malloc h1 of (a2, h2) \<Rightarrow> case malloc h2 of (a3, h3) \<Rightarrow>
      case malloc h3 of (a4, h4) \<Rightarrow> case malloc h4 of (a5, h5) \<Rightarrow> case malloc h5 of (a6, h6) \<Rightarrow>
      ubind (fill_slots E throws tns h6) (\<lambda>(r, slots, h7).
        Inr (r, \<lparr>rm_outputs = a1, rm_outputNames = a2, rm_outputTypes = a3, rm_outputShapes = a4, rm_outputLengths = a5,
          rm_outputShapeLengths = a6, rm_slots = slots\<rparr>, h7)))"

definition allocate_return where
  "allocate_return E = new_return E (\<lambda>n t. \<not> oe_create E n (tn_shape t) (tn_dataType t))"

definition populate_return where
  "populate_return E = new_return E (\<lambda>n t. False)"

definition delete_input_memory :: "nat \<times> nat option list \<Rightarrow> malloc_heap \<Rightarrow> malloc_heap outcome" where
  "delete_input_memory = (\<lambda>(input, elems) h. ubind (ufold mfree elems h) (mfree (Some input)))"

definition deallocate_output_memory :: "return_memory \<Rightarrow> malloc_heap \<Rightarrow> malloc_heap outcome" where
  "deallocate_output_memory ret h =
     ubind (ufold (\<lambda>(out, shape) h. ubind (mfree out h) (mfree shape)) (rm_slots ret) h) (\<lambda>h.
       ufold (\<lambda>a. mfree (Some a)) [rm_outputs ret, rm_outputNames ret, rm_outputTypes ret, rm_outputShapes ret,
         rm_outputLengths ret, rm_outputShapeLengths ret] h)"

text \<open>
  The memory side of the end of \<open>get_inference\<close>; \<open>runs\<close>: \<open>Run\<close> does not throw.  The debug
  print in between does not use \<open>malloc\<close>.
\<close>

definition run_memory ::
  "('f, 'd, 'db, 's) onnx_env \<Rightarrow> bool \<Rightarrow> tensor_info list \<Rightarrow> malloc_heap \<Rightarrow> (int \<times> return_memory \<times> malloc_heap) outcome" where
  "run_memory E runs outs h =
     ubind (allocate_return E outs h) (\<lambda>(r, ret, h1). case r of
       Refused \<Rightarrow> Inr (TERMINAL_ERROR, ret, h1)
     | Fill_Thrown \<Rightarrow> Inl Uncaught
     | Complete \<Rightarrow> if runs then Inr (SUCCESS, ret, h1)
         else ubind (deallocate_output_memory ret h1) (\<lambda>h2. Inr (TERMINAL_ERROR, ret, h2)))"

text \<open>The memory side of \<open>run_dummy_inference\<close>; \<open>False\<close>: it throws.\<close>

fun dummy_inputs ::
  "('f, 'd, 'db, 's) onnx_env \<Rightarrow> tensor_info list \<Rightarrow> malloc_heap \<Rightarrow> (bool \<times> nat option list \<times> malloc_heap) outcome" where
  "dummy_inputs E [] h = Inr (True, [], h)"
| "dummy_inputs E (t # tns) h =
     ubind (signed_result 32 (get_field_size_from_data_type E (tn_dataType t) * tn_size t)) (\<lambda>n.
       if n < 0 then Inl Dangling
       else case malloc h of (a, h1) \<Rightarrow> ubind (create_ort_tensor E t Released) (\<lambda>c. case c of
         Created v \<Rightarrow> ubind (dummy_inputs E tns h1) (\<lambda>(ok, elems, h2). Inr (ok, Some a # elems, h2))
       | _ \<Rightarrow> Inr (False, [Some a], h1)))"

definition dummy_memory ::
  "('f, 'd, 'db, 's) onnx_env \<Rightarrow> onnx_model_info \<Rightarrow> malloc_heap \<Rightarrow> (bool \<times> malloc_heap) outcome" where
  "dummy_memory E info h =
     (case malloc h of (input, h0) \<Rightarrow> ubind (dummy_inputs E (om_inputs info) h0) (\<lambda>(ok, elems, h1).
        if \<not> ok then Inr (False, h1)
        else ubind (allocate_return E (om_outputs info) h1) (\<lambda>(r, ret, h2). case r of
          Complete \<Rightarrow> ubind (deallocate_output_memory ret h2) (\<lambda>h3.
            ubind (delete_input_memory (input, elems) h3) (\<lambda>h4. Inr (True, h4)))
        | _ \<Rightarrow> Inr (False, h2))))"

section \<open>Facts\<close>

definition heap_ok :: "malloc_heap \<Rightarrow> bool" where
  "heap_ok h = (\<forall>a. mh_live h a \<longrightarrow> a < mh_next h)"

text \<open>\<open>owns ps h h'\<close>: \<open>h'\<close> is \<open>h\<close> and the distinct fresh blocks of \<open>ps\<close>.\<close>

definition owns :: "nat option list \<Rightarrow> malloc_heap \<Rightarrow> malloc_heap \<Rightarrow> bool" where
  "owns ps h h' =
     (distinct (filter (\<lambda>p. p \<noteq> None) ps) \<and> mh_next h \<le> mh_next h' \<and>
      (\<forall>a. Some a \<in> set ps \<longrightarrow> mh_next h \<le> a \<and> a < mh_next h') \<and>
      (\<forall>a. mh_live h' a \<longleftrightarrow> mh_live h a \<or> Some a \<in> set ps))"

lemma owns_Nil [simp]: "owns [] h h"
  by (simp add: owns_def)

lemma owns_ok: "owns ps h h' \<Longrightarrow> heap_ok h \<Longrightarrow> heap_ok h'"
  unfolding owns_def heap_ok_def by (meson order.strict_trans2)

lemma owns_None [simp]: "owns (None # ps) h h' = owns ps h h'" "owns (replicate n None @ ps) h h' = owns ps h h'"
proof -
  show *: "owns (None # ps) h h' = owns ps h h'" for ps by (auto simp: owns_def)
  show "owns (replicate n None @ ps) h h' = owns ps h h'" by (induction n) (simp_all add: *)
qed

lemma owns_Some_None [simp]: "owns (Some a # None # ps) h h' = owns (Some a # ps) h h'"
  by (auto simp: owns_def)

lemma owns_malloc:
  assumes "malloc h = (a, h1)" "owns ps h1 h'"
  shows "owns (Some a # ps) h h'"
  using assms by (auto simp: owns_def malloc_def image_iff split: if_splits)

lemma free_owned:
  assumes "owns ps h h'" "heap_ok h"
  shows "\<exists>h2. ufold mfree ps h' = Inr h2 \<and> mh_live h2 = mh_live h \<and> mh_next h2 = mh_next h'"
  using assms(1)
proof (induction ps arbitrary: h')
  case Nil
  then show ?case by (auto simp: owns_def)
next
  case (Cons p ps)
  show ?case
  proof (cases p)
    case None
    with Cons show ?thesis by (simp add: mfree_def)
  next
    case (Some a)
    let ?h = "h'\<lparr>mh_live := (mh_live h')(a := False)\<rparr>"
    have "\<not> mh_live h a" using Cons.prems assms(2) Some by (force simp: owns_def heap_ok_def)
    then have "owns ps h ?h" using Cons.prems Some by (auto simp: owns_def)
    moreover have "mh_live h' a" using Cons.prems Some by (auto simp: owns_def)
    ultimately show ?thesis using Cons.IH [of ?h] Some by (simp add: mfree_def)
  qed
qed

definition slot_blocks :: "(nat option \<times> nat option) list \<Rightarrow> nat option list" where
  "slot_blocks slots = concat (map (\<lambda>(out, shape). [out, shape]) slots)"

lemma slot_blocks_simps [simp]:
  "slot_blocks [] = []" "slot_blocks ((out, shape) # slots) = out # shape # slot_blocks slots"
  "slot_blocks (replicate n (None, None)) = replicate (n + n) None"
  by (simp_all add: slot_blocks_def) (induction n; simp)

definition return_blocks :: "return_memory \<Rightarrow> nat option list" where
  "return_blocks ret = slot_blocks (rm_slots ret) @ map Some [rm_outputs ret, rm_outputNames ret, rm_outputTypes ret,
     rm_outputShapes ret, rm_outputLengths ret, rm_outputShapeLengths ret]"

lemma ufold_frees: "ufold (\<lambda>a. mfree (Some a)) as h = ufold mfree (map Some as) h"
proof (induction as arbitrary: h)
  case (Cons a as)
  then show ?case by (auto intro: ubind_cong)
qed simp

lemma ufold_slots: "ufold (\<lambda>(out, shape) h. ubind (mfree out h) (mfree shape)) slots h = ufold mfree (slot_blocks slots) h"
proof (induction slots arbitrary: h)
  case (Cons s slots)
  then show ?case by (cases s; cases "mfree (fst s) h") (auto intro: ubind_cong)
qed simp

lemma deallocate_blocks: "deallocate_output_memory ret h = ufold mfree (return_blocks ret) h"
  by (simp add: deallocate_output_memory_def return_blocks_def ufold_slots ufold_frees ufold_append del: ufold.simps list.map)

lemma owns_Nones: "owns (replicate n None) h h"
  by (induction n) simp_all

lemma fill_slots_owns: "fill_slots E throws tns h = Inr (r, slots, h') \<Longrightarrow> owns (slot_blocks slots) h h'"
proof (induction tns arbitrary: h slots h')
  case (Cons t tns)
  obtain a h1 b h2 where m: "malloc h = (a, h1)" "malloc h1 = (b, h2)" by fastforce
  let ?fieldSize = "get_field_size_from_data_type E (tn_dataType t)"
  show ?case
  proof (cases "?fieldSize = 0 \<or> throws (tn_size t * ?fieldSize) t")
    case True
    note none = owns_Nones [of "n + n" for n]
    show ?thesis using True Cons.prems m owns_malloc [OF m(1) none] none
      by (auto simp: Let_def ubind_Inr_iff signed_result_Inr split: if_splits)
  next
    case False
    then obtain slots' where "fill_slots E throws tns h2 = Inr (r, slots', h')" "slots = (Some a, Some b) # slots'"
      using Cons.prems m by (auto simp: Let_def ubind_Inr_iff signed_result_Inr split: if_splits)
    with Cons.IH owns_malloc [OF m(1) owns_malloc [OF m(2)]] show ?thesis by simp
  qed
qed simp


lemma owns_append_comm: "owns (ps @ qs) h h' = owns (qs @ ps) h h'"
  by (auto simp: owns_def)

lemma new_return_owns:
  assumes "new_return E throws tns h = Inr (r, ret, h')"
  shows "owns (return_blocks ret) h h'"
proof -
  obtain a1 h1 a2 h2 a3 h3 a4 h4 a5 h5 a6 h6 where m: "malloc h = (a1, h1)" "malloc h1 = (a2, h2)" "malloc h2 = (a3, h3)"
    "malloc h3 = (a4, h4)" "malloc h4 = (a5, h5)" "malloc h5 = (a6, h6)" by (meson surj_pair)
  obtain slots where slots: "fill_slots E throws tns h6 = Inr (r, slots, h')" and
    ret: "ret = \<lparr>rm_outputs = a1, rm_outputNames = a2, rm_outputTypes = a3, rm_outputShapes = a4, rm_outputLengths = a5,
      rm_outputShapeLengths = a6, rm_slots = slots\<rparr>"
    using assms m by (auto simp: new_return_def ubind_Inr_iff)
  note owns_malloc [OF m(1) owns_malloc [OF m(2) owns_malloc [OF m(3) owns_malloc [OF m(4) owns_malloc [OF m(5)
    owns_malloc [OF m(6) fill_slots_owns [OF slots]]]]]]]
  then show ?thesis
    using owns_append_comm [of "slot_blocks slots"] by (simp add: ret return_blocks_def)
qed

lemma free_again:
  assumes "\<forall>p\<in>set ps. \<forall>a. p = Some a \<longrightarrow> \<not> mh_live h a" "\<exists>a. Some a \<in> set ps"
  shows "ufold mfree ps h = Inl Dangling"
  using assms
proof (induction ps)
  case (Cons p ps)
  then show ?case by (cases p) (auto simp: mfree_def)
qed simp

lemma release_return:
  assumes own: "owns (return_blocks ret) h h1" and ok: "heap_ok h"
  shows "\<exists>h2. deallocate_output_memory ret h1 = Inr h2 \<and> mh_live h2 = mh_live h \<and> mh_next h2 = mh_next h1 \<and>
    deallocate_output_memory ret h2 = Inl Dangling"
proof -
  from free_owned [OF own ok] obtain h2 where
    h2: "ufold mfree (return_blocks ret) h1 = Inr h2" "mh_live h2 = mh_live h" "mh_next h2 = mh_next h1" by blast
  have "\<not> mh_live h2 a" if "Some a \<in> set (return_blocks ret)" for a
    using own ok that by (force simp: owns_def heap_ok_def h2(2))
  then have "ufold mfree (return_blocks ret) h2 = Inl Dangling"
    by (intro free_again) (auto simp: return_blocks_def)
  then show ?thesis using h2 by (simp add: deallocate_blocks)
qed


section \<open>The memory and the values\<close>

text \<open>\<open>fill_slots\<close> ends the way \<open>allocate_output_memory\<close> of \<open>Onnx_Model\<close> does.\<close>

definition alloc_filled :: "alloc \<Rightarrow> filled" where
  "alloc_filled a = (case a of Allocated slots \<Rightarrow> Complete | Unsupported \<Rightarrow> Refused | Alloc_Thrown \<Rightarrow> Fill_Thrown)"

lemma alloc_filled_simps [simp]:
  "alloc_filled (Allocated slots) = Complete" "alloc_filled Unsupported = Refused" "alloc_filled Alloc_Thrown = Fill_Thrown"
  by (simp_all add: alloc_filled_def)

lemma fill_slots_agrees:
  "allocate_output_memory E tns = Inr a \<Longrightarrow>
    \<exists>slots h'. fill_slots E (\<lambda>n t. \<not> oe_create E n (tn_shape t) (tn_dataType t)) tns h = Inr (alloc_filled a, slots, h')"
proof (induction tns arbitrary: a h)
  case (Cons t tns)
  obtain p h1 q h2 where m: "malloc h = (p, h1)" "malloc h1 = (q, h2)" by fastforce
  let ?fieldSize = "get_field_size_from_data_type E (tn_dataType t)"
  show ?case
  proof (cases "?fieldSize = 0 \<or> \<not> oe_create E (tn_size t * ?fieldSize) (tn_shape t) (tn_dataType t)")
    case True
    then show ?thesis using Cons.prems m by (auto simp: Let_def ubind_Inr_iff signed_result_Inr split: if_splits)
  next
    case False
    with Cons.prems obtain b where b: "allocate_output_memory E tns = Inr b" and
      "(case b of Allocated slots \<Rightarrow> Inr (Allocated (\<lparr>op_name = tn_name t, op_type = tn_dataType t,
          op_shape = map (cast_signed 32) (tn_shape t), op_length = tn_size t, op_bytes = tn_size t * ?fieldSize\<rparr> # slots))
        | _ \<Rightarrow> Inr b) = (Inr a :: alloc outcome)"
      by (auto simp: Let_def ubind_Inr_iff signed_result_Inr split: if_splits)
    then have a: "alloc_filled a = alloc_filled b" by (cases b) auto
    from Cons.IH [OF b, of h2] Cons.prems False m a show ?thesis
      by (auto simp: Let_def ubind_Inr_iff signed_result_Inr ubind_simps split: if_splits)
  qed
qed simp

lemma allocate_return_agrees:
  "allocate_output_memory E tns = Inr a \<Longrightarrow> \<exists>ret h'. allocate_return E tns h = Inr (alloc_filled a, ret, h')"
proof -
  assume a: "allocate_output_memory E tns = Inr a"
  obtain a1 h1 a2 h2 a3 h3 a4 h4 a5 h5 a6 h6 where m: "malloc h = (a1, h1)" "malloc h1 = (a2, h2)" "malloc h2 = (a3, h3)"
    "malloc h3 = (a4, h4)" "malloc h4 = (a5, h5)" "malloc h5 = (a6, h6)" by (meson surj_pair)
  with fill_slots_agrees [OF a, of h6] show ?thesis by (auto simp: allocate_return_def new_return_def)
qed

lemma dummy_inputs_agrees:
  "dummy_tensors E tns = Inr r \<Longrightarrow> \<exists>elems h'. dummy_inputs E tns h = Inr (r \<noteq> None, elems, h') \<and> owns elems h h'"
proof (induction tns arbitrary: r h)
  case (Cons t tns)
  obtain a h1 where m: "malloc h = (a, h1)" by fastforce
  from Cons.prems obtain c where n: "signed_result 32 (get_field_size_from_data_type E (tn_dataType t) * tn_size t) =
      Inr (get_field_size_from_data_type E (tn_dataType t) * tn_size t)" 
      "\<not> get_field_size_from_data_type E (tn_dataType t) * tn_size t < 0"
    and c: "create_ort_tensor E t Released = Inr c"
    by (auto simp: ubind_Inr_iff signed_result_Inr split: if_splits)
  show ?case
  proof (cases c)
    case (Created v)
    with Cons.prems n c obtain r' where "dummy_tensors E tns = Inr r'" "r = map_option (\<lambda>ts. Some v # ts) r'"
      by (auto simp: ubind_Inr_iff)
    with Cons.IH [of r' h1] owns_malloc [OF m] m n c Created show ?thesis by fastforce
  qed (use Cons.prems n c m owns_malloc [OF m owns_Nil] in auto)
qed simp


lemma free_inputs:
  assumes "owns (Some input # elems) h h1" "heap_ok h" "mh_live h2 = mh_live h1" "mh_next h1 \<le> mh_next h2"
  shows "\<exists>h3. delete_input_memory (input, elems) h2 = Inr h3 \<and> mh_live h3 = mh_live h"
proof -
  have "owns (elems @ [Some input]) h h2" using assms by (auto simp: owns_def)
  from free_owned [OF this assms(2)] show ?thesis
    by (auto simp: delete_input_memory_def ubind_Inr_iff cong: ubind_cong)
qed

text \<open>A dummy run gives back all its memory; one that throws gives back none.\<close>

theorem dummy_run_memory:
  assumes "heap_ok h" "run_dummy_inference E info = Inr r"
  shows "\<exists>h'. dummy_memory E info h = Inr (r \<noteq> None, h') \<and> (r \<noteq> None \<longrightarrow> mh_live h' = mh_live h) \<and>
    (r = None \<longrightarrow> (\<forall>a. mh_live h a \<longrightarrow> mh_live h' a) \<and> (\<exists>a. mh_live h' a \<and> \<not> mh_live h a))"
proof -
  obtain i h0 where m: "malloc h = (i, h0)" by fastforce
  from assms(2) obtain d where d: "dummy_tensors E (om_inputs info) = Inr d" by (auto simp: run_dummy_inference_def ubind_Inr_iff)
  from dummy_inputs_agrees [OF d] obtain elems h1 where h1: "dummy_inputs E (om_inputs info) h0 = Inr (d \<noteq> None, elems, h1)"
    "owns elems h0 h1" by blast
  note own = owns_malloc [OF m h1(2)]
  have i: "\<not> mh_live h i" using assms(1) m by (auto simp: heap_ok_def malloc_def)
  show ?thesis
  proof (cases d)
    case None
    then have "r = None" using assms(2) d by (simp add: run_dummy_inference_def)
    then show ?thesis using None m h1 own i by (auto simp: dummy_memory_def owns_def)
  next
    case (Some ts)
    with assms(2) d obtain a where a: "allocate_output_memory E (om_outputs info) = Inr a" and
      "(case a of Allocated slots \<Rightarrow> Inr (Some ts) | _ \<Rightarrow> Inr None) = (Inr r :: _ outcome)"
      by (auto simp: run_dummy_inference_def ubind_Inr_iff)
    then have r: "r \<noteq> None \<longleftrightarrow> alloc_filled a = Complete" by (cases a) auto
    from allocate_return_agrees [OF a] obtain ret h2 where h2: "allocate_return E (om_outputs info) h1 = Inr (alloc_filled a, ret, h2)"
      by blast
    then have own2: "owns (return_blocks ret) h1 h2" by (auto simp: allocate_return_def dest: new_return_owns)
    from release_return [OF own2 owns_ok [OF own assms(1)]] obtain h3 where
      h3: "deallocate_output_memory ret h2 = Inr h3" "mh_live h3 = mh_live h1" "mh_next h3 = mh_next h2" by blast
    moreover have "mh_next h1 \<le> mh_next h2" using own2 by (simp add: owns_def)
    ultimately obtain h4 where "delete_input_memory (i, elems) h3 = Inr h4" "mh_live h4 = mh_live h"
      using free_inputs [OF own assms(1)] by metis
    moreover have "\<forall>a. mh_live h a \<longrightarrow> mh_live h2 a" "mh_live h2 i" using own own2 by (auto simp: owns_def)
    ultimately show ?thesis using Some m h1 h2 h3 r i
      by (cases "alloc_filled a") (auto simp: dummy_memory_def)
  qed
qed

section \<open>Properties\<close>

text \<open>C39: when an inference ends after its outputs were allocated, the return object owns its
  memory, to be given back by exactly one \<open>deallocate_output_memory\<close>, if the status is
  \<open>SUCCESS\<close> or the type of an output is unknown; when \<open>Run\<close> throws it owns nothing
  any more, and giving it back is a double free.  The two errors have the same status.
\<close>
theorem inference_memory_owner:
  assumes "heap_ok h" "allocate_output_memory E outs = Inr a" "run_memory E runs outs h = Inr (status, ret, h')"
  shows "status = (if a \<noteq> Unsupported \<and> runs then SUCCESS else TERMINAL_ERROR) \<and>
    (if a = Unsupported \<or> runs
     then \<exists>h2. deallocate_output_memory ret h' = Inr h2 \<and> mh_live h2 = mh_live h \<and> deallocate_output_memory ret h2 = Inl Dangling
     else mh_live h' = mh_live h \<and> deallocate_output_memory ret h' = Inl Dangling)"
proof -
  from allocate_return_agrees [OF assms(2)] obtain ret1 h1 where h1: "allocate_return E outs h = Inr (alloc_filled a, ret1, h1)"
    by blast
  then have own: "owns (return_blocks ret1) h h1" by (auto simp: allocate_return_def dest: new_return_owns)
  from release_return [OF own assms(1)] obtain h2 where "deallocate_output_memory ret1 h1 = Inr h2"
    "mh_live h2 = mh_live h" "deallocate_output_memory ret1 h2 = Inl Dangling" by blast
  with assms(3) h1 show ?thesis by (cases a) (auto simp: run_memory_def split: if_splits)
qed

definition demo_heap :: malloc_heap where
  "demo_heap = \<lparr>mh_live = (\<lambda>a. a = 0), mh_next = 1\<rparr>"

definition demo_text_output :: tensor_info where
  "demo_text_output = (demo_tensor ''z'' 1)\<lparr>tn_dataType := 8\<rparr>"

lemma inference_memory_owner_witness:
  "heap_ok demo_heap \<and> (\<exists>ret h'. run_memory demo_env False [demo_tensor ''y'' 1] demo_heap = Inr (TERMINAL_ERROR, ret, h') \<and>
      deallocate_output_memory ret h' = Inl Dangling) \<and>
    (\<exists>ret h' h2. run_memory demo_env True [demo_tensor ''y'' 1, demo_text_output] demo_heap = Inr (TERMINAL_ERROR, ret, h') \<and>
      deallocate_output_memory ret h' = Inr h2)"
proof -
  have ok: "heap_ok demo_heap" by (simp add: heap_ok_def demo_heap_def)
  have a: "\<exists>x. allocate_output_memory demo_env [demo_tensor ''y'' 1] = Inr (Allocated x)"
    "allocate_output_memory demo_env [demo_tensor ''y'' 1, demo_text_output] = Inr Unsupported"
    by (simp_all add: demo_env_def demo_tensor_def demo_text_output_def get_field_size_from_data_type_def)
  have r: "\<exists>s ret h'. run_memory demo_env False [demo_tensor ''y'' 1] demo_heap = Inr (s, ret, h')"
    "\<exists>s ret h'. run_memory demo_env True [demo_tensor ''y'' 1, demo_text_output] demo_heap = Inr (s, ret, h')"
    by (simp_all add: run_memory_def allocate_return_def new_return_def malloc_def deallocate_output_memory_def mfree_def
      demo_heap_def demo_env_def demo_tensor_def demo_text_output_def get_field_size_from_data_type_def)
  from a r show ?thesis using inference_memory_owner [OF ok] by (fastforce simp: ok)
qed

end
