(* ===== verification/Resource_Manager.thy ===== *)
theory Resource_Manager
  imports Onnx_Executor
begin

text \<open>
  \<open>nimblenet/ResourceManager\<close>: plans and features come from the files of the device at
  start-up and from the server later.

  The record \<open>sdk\<close> holds the objects \<open>CommandCenter\<close> owns and the resource manager
  works on.  The metrics written on the way (\<open>log_metrics\<close>) are not part of it.
\<close>

record ('f, 'd, 'db, 's) sdk =
  sd_config :: config
  sd_server :: server_api
  sd_executor :: "('f, 'd, 's) executor"
  sd_features :: feature_map_t
  sd_events :: "('f, 'd, 'db) user_events"

definition PARTSIZE :: int where "PARTSIZE = 1000000"
definition INFERENCEMETADATAFILENAME :: string where "INFERENCEMETADATAFILENAME = ''inferencePlanData.txt''"
definition INFERENCEFILENAME :: string where "INFERENCEFILENAME = ''inferencePlan.txt''"
definition FEATURESTOREMETADATAFILENAME :: string where "FEATURESTOREMETADATAFILENAME = ''featureStore.txt''"
definition FEATURESTOREFILENAME :: string where "FEATURESTOREFILENAME = ''featureVector.txt''"

section \<open>Plans on the device\<close>

definition get_inference_plan_data_from_device :: "platform \<Rightarrow> device \<Rightarrow> string \<Rightarrow> plan_data outcome" where
  "get_inference_plan_data_from_device pf d modelId =
     (case get_file_from_device d (modelId @ INFERENCEMETADATAFILENAME) of
        None \<Rightarrow> Inr no_plan_data
      | Some text \<Rightarrow>
          ubind (parser_get (pf_parse pf) no_plan_data plan_data_from_json text) (\<lambda>p.
            case get_file_from_device d (modelId @ INFERENCEFILENAME) of
              None \<Rightarrow> Inr p
            | Some plan \<Rightarrow> Inr (p\<lparr>pl_plan := plan, pl_valid := (pl_planLength p = int (length plan))\<rparr>)))"

definition save_inference_plan_data_on_device :: "platform \<Rightarrow> device \<Rightarrow> string \<Rightarrow> plan_data \<Rightarrow> device" where
  "save_inference_plan_data_on_device pf d modelId p =
     saved pf (saved pf d (pf_dump pf (plan_data_to_json p)) (modelId @ INFERENCEMETADATAFILENAME))
       (pl_plan p) (modelId @ INFERENCEFILENAME)"

definition load_plan_from_device ::
  "platform \<Rightarrow> ('f, 'd, 'db, 's) onnx_env \<Rightarrow> (nat \<Rightarrow> load_clock) \<Rightarrow> string \<Rightarrow> ('f, 'd, 'db, 's) sdk
    \<Rightarrow> (bool \<times> ('f, 'd, 'db, 's) sdk) outcome" where
  "load_plan_from_device pf E c modelId s =
     ubind (get_inference_plan_data_from_device pf (sa_device (sd_server s)) modelId) (\<lambda>p.
       if \<not> pl_valid p then Inr (False, s)
       else ubind (executor_load_plan E c modelId p (sd_executor s) (sd_events s)) (\<lambda>(ok, ex, ue).
         Inr (ok, s\<lparr>sd_executor := ex, sd_events := ue\<rparr>)))"

section \<open>Plans from the server\<close>

text \<open>The parts in order; the status is the first one that is not \<open>SUCCESS\<close>.\<close>

fun download_parts ::
  "platform \<Rightarrow> (int \<Rightarrow> plan_request) \<Rightarrow> int list \<Rightarrow> string \<Rightarrow> server_api \<Rightarrow> (int \<times> string \<times> server_api) outcome" where
  "download_parts pf q [] plan s = Inr (SUCCESS, plan, s)"
| "download_parts pf q (part # parts) plan s =
     ubind (get_plan pf (q part) DEFAULT_AUTH_ERROR_RETRIES s) (\<lambda>(response, s1).
       if cr_statusCode response \<noteq> SUCCESS then Inr (cr_statusCode response, plan, s1)
       else ubind (body_string response) (\<lambda>body. download_parts pf q parts (plan @ body) s1))"

definition plan_request_of :: "config \<Rightarrow> string \<Rightarrow> string \<Rightarrow> int \<Rightarrow> plan_request" where
  "plan_request_of c modelId version part =
     \<lparr>pq_base = \<lparr>bq_deviceId = cf_deviceId c, bq_clientId = cf_clientId c\<rparr>, pq_partNum = part,
      pq_version = version, pq_modelId = modelId\<rparr>"

definition version_request_of :: "config \<Rightarrow> string \<Rightarrow> version_request" where
  "version_request_of c modelId =
     \<lparr>vq_base = \<lparr>bq_deviceId = cf_deviceId c, bq_clientId = cf_clientId c\<rparr>, vq_dataType = ''inference'', vq_modelId = modelId\<rparr>"

text \<open>\<open>plan.reserve\<close> of a negative size throws.\<close>

definition download_plan ::
  "platform \<Rightarrow> config \<Rightarrow> string \<Rightarrow> version_response \<Rightarrow> server_api \<Rightarrow> (int \<times> string \<times> server_api) outcome" where
  "download_plan pf c modelId v s =
     ubind (signed_result 32 (PARTSIZE * vr_fileParts v)) (\<lambda>n.
       if n < 0 then Inl Uncaught
       else download_parts pf (plan_request_of c modelId (vr_version v)) [1 .. vr_fileParts v] [] s)"

definition update_executor ::
  "(('f, 'd, 's) executor \<Rightarrow> ('f, 'd, 's) executor) \<Rightarrow> ('f, 'd, 'db, 's) sdk \<Rightarrow> ('f, 'd, 'db, 's) sdk" where
  "update_executor f s = s\<lparr>sd_executor := f (sd_executor s)\<rparr>"

definition downloaded_plan :: "version_response \<Rightarrow> string \<Rightarrow> plan_data" where
  "downloaded_plan v plan = no_plan_data\<lparr>pl_version := vr_version v, pl_extraFields := vr_extras v,
     pl_planLength := cast_signed 32 (int (length plan)), pl_plan := plan\<rparr>"

definition install_plan ::
  "platform \<Rightarrow> ('f, 'd, 'db, 's) onnx_env \<Rightarrow> (nat \<Rightarrow> load_clock) \<Rightarrow> string \<Rightarrow> plan_data \<Rightarrow> ('f, 'd, 'db, 's) sdk
    \<Rightarrow> (int \<times> ('f, 'd, 'db, 's) sdk) outcome" where
  "install_plan pf E c modelId p s =
     (let s1 = s\<lparr>sd_server := (sd_server s)\<lparr>sa_device :=
                  save_inference_plan_data_on_device pf (sa_device (sd_server s)) modelId p\<rparr>\<rparr> in
      ubind (executor_load_plan E c modelId p (sd_executor s1) (sd_events s1)) (\<lambda>(ok, ex, ue).
        let s2 = s1\<lparr>sd_executor := ex, sd_events := ue\<rparr> in
        if ok then Inr (SUCCESS, update_executor (plan_updated modelId True) s2)
        else Inr (EXECUTOR_LOAD_MODEL_ERR, update_executor (plan_updated modelId False) s2)))"

definition load_plan ::
  "platform \<Rightarrow> ('f, 'd, 'db, 's) onnx_env \<Rightarrow> (nat \<Rightarrow> load_clock) \<Rightarrow> string \<Rightarrow> ('f, 'd, 'db, 's) sdk
    \<Rightarrow> (int \<times> ('f, 'd, 'db, 's) sdk) outcome" where
  "load_plan pf E c modelId s =
     ubind (version_check pf (version_request_of (sd_config s) modelId) DEFAULT_AUTH_ERROR_RETRIES (sd_server s)) (\<lambda>(v, sv).
       let s1 = s\<lparr>sd_server := sv\<rparr> in
       if br_status (vr_base v) \<noteq> SUCCESS then Inr (br_status (vr_base v), s1)
       else if get_plan_version (sd_executor s1) modelId = vr_version v
       then Inr (SUCCESS, update_executor (plan_updated modelId True) s1)
       else ubind (download_plan pf (sd_config s) modelId v sv) (\<lambda>(status, plan, sv').
         let s2 = s1\<lparr>sd_server := sv'\<rparr> in
         if status \<noteq> SUCCESS then Inr (status, update_executor (plan_updated modelId False) s2)
         else install_plan pf E c modelId (downloaded_plan v plan) s2))"

definition update_plan_if_required ::
  "platform \<Rightarrow> ('f, 'd, 'db, 's) onnx_env \<Rightarrow> (nat \<Rightarrow> load_clock) \<Rightarrow> string \<Rightarrow> ('f, 'd, 'db, 's) sdk
    \<Rightarrow> ('f, 'd, 'db, 's) sdk outcome" where
  "update_plan_if_required pf E c modelId s =
     (let (retriesLeft, ex) = can_model_retry modelId (sd_executor s);
          s1 = s\<lparr>sd_executor := ex\<rparr> in
      if \<not> retriesLeft then Inr s1
      else ubind (load_plan pf E c modelId s1) (\<lambda>(ret, s2).
        Inr (update_executor (update_model_retries modelId) s2)))"

section \<open>Features\<close>

definition get_feature_data_from_device :: "platform \<Rightarrow> int \<Rightarrow> device \<Rightarrow> string \<Rightarrow> feature_data outcome" where
  "get_feature_data_from_device pf now d featureName =
     (case get_file_from_device d (featureName @ FEATURESTOREMETADATAFILENAME) of
        None \<Rightarrow> Inr no_feature_data
      | Some text \<Rightarrow>
          ubind (parser_get (pf_parse pf) no_feature_data feature_data_from_json text) (\<lambda>fd.
            if \<not> fd_valid fd then Inr no_feature_data
            else if fd_expiry fd < now then Inr no_feature_data
            else case get_file_from_device d (featureName @ FEATURESTOREFILENAME) of
              None \<Rightarrow> Inr no_feature_data
            | Some bytes \<Rightarrow> Inr (fd\<lparr>fd_feature := Some bytes, fd_featureLength := cast_signed 32 (int (length bytes))\<rparr>)))"

definition save_feature_data_on_device :: "platform \<Rightarrow> device \<Rightarrow> string \<Rightarrow> feature_data \<Rightarrow> device outcome" where
  "save_feature_data_on_device pf d featureName fd =
     ubind (copy_buffer (fd_feature fd) (fd_featureLength fd)) (\<lambda>bytes.
       Inr (saved pf (saved pf d bytes (featureName @ FEATURESTOREFILENAME))
              (pf_dump pf (feature_data_to_json fd)) (featureName @ FEATURESTOREMETADATAFILENAME)))"

definition load_feature_from_device ::
  "platform \<Rightarrow> int \<Rightarrow> string \<Rightarrow> ('f, 'd, 'db, 's) sdk \<Rightarrow> (bool \<times> ('f, 'd, 'db, 's) sdk) outcome" where
  "load_feature_from_device pf now featureName s =
     ubind (get_feature_data_from_device pf now (sa_device (sd_server s)) featureName) (\<lambda>fd.
       if \<not> fd_valid fd then Inr (False, s)
       else ubind (manager_load_feature_store (sd_features s) featureName fd) (\<lambda>(ok, fm).
         Inr (ok, s\<lparr>sd_features := fm\<rparr>)))"

definition downloaded_feature :: "feature_version_response \<Rightarrow> c_response \<Rightarrow> feature_data" where
  "downloaded_feature v r =
     \<lparr>fd_valid = True, fd_feature = cr_body r, fd_featureLength = cr_bodyLength r, fd_version = fr_version v,
      fd_dataType = fr_dataType v, fd_expiry = fr_expiry v\<rparr>"

text \<open>The store after a new version was announced; \<open>False\<close> when the update stops early.\<close>

definition replace_feature ::
  "platform \<Rightarrow> string \<Rightarrow> feature_version_response \<Rightarrow> ('f, 'd, 'db, 's) sdk \<Rightarrow> (bool \<times> ('f, 'd, 'db, 's) sdk) outcome" where
  "replace_feature pf featureName v s =
     ubind (get_feature pf featureName (fr_version v) DEFAULT_AUTH_ERROR_RETRIES (sd_server s)) (\<lambda>(r, sv).
       let s1 = s\<lparr>sd_server := sv\<rparr>; fd = downloaded_feature v r in
       if cr_statusCode r \<noteq> SUCCESS then Inr (False, s1)
       else ubind (manager_load_feature_store (sd_features s1) featureName fd) (\<lambda>(ok, fm).
         let s2 = s1\<lparr>sd_features := fm\<rparr> in
         if \<not> ok then Inr (False, s2)
         else ubind (save_feature_data_on_device pf (sa_device (sd_server s2)) featureName fd) (\<lambda>d.
           Inr (True, s2\<lparr>sd_server := (sd_server s2)\<lparr>sa_device := d\<rparr>\<rparr>))))"

definition update_feature_if_required ::
  "platform \<Rightarrow> int \<Rightarrow> string \<Rightarrow> ('f, 'd, 'db, 's) sdk \<Rightarrow> ('f, 'd, 'db, 's) sdk outcome" where
  "update_feature_if_required pf now featureName s =
     (if \<not> manager_should_download now (sd_features s) featureName then Inr s
      else ubind (get_feature_version pf featureName DEFAULT_AUTH_ERROR_RETRIES (sd_server s)) (\<lambda>(v, sv).
        let s1 = s\<lparr>sd_server := sv\<rparr> in
        if br_status (fr_base v) \<noteq> SUCCESS then Inr s1
        else ubind (manager_get_version (sd_features s1) featureName) (\<lambda>previous.
             ubind (if previous \<noteq> fr_version v then replace_feature pf featureName v s1 else Inr (True, s1)) (\<lambda>(ok, s2).
               if ok then Inr (s2\<lparr>sd_features := manager_set_upto_date (sd_features s2) featureName\<rparr>) else Inr s2))))"

end
