(* ===== verification/Resource_Demo.thy ===== *)
theory Resource_Demo
  imports Resource_Manager Onnx_Executor_Contract Server_Api_Contract
begin

text \<open>
  The examples of the resource manager: a text syntax for the records it keeps in
  files, a server that hands out a plan in two parts or a feature, and the SDK with
  one model and one feature configured.
\<close>

section \<open>A text syntax\<close>

text \<open>A string is written with its length in unary in front, an integer as sign and unary digits.\<close>

definition unary :: "nat \<Rightarrow> string" where
  "unary n = replicate n (CHR ''1'') @ [CHR ''0'']"

definition ones :: "string \<Rightarrow> nat" where
  "ones t = length (takeWhile (\<lambda>c. c = CHR ''1'') t)"

definition enc_str :: "string \<Rightarrow> string" where
  "enc_str s = unary (length s) @ s"

definition dec_str :: "string \<Rightarrow> string \<times> string" where
  "dec_str t = (let r = drop (Suc (ones t)) t in (take (ones t) r, drop (ones t) r))"

definition enc_int :: "int \<Rightarrow> string" where
  "enc_int i = (if i < 0 then CHR ''-'' else CHR ''+'') # unary (nat \<bar>i\<bar>)"

definition dec_int :: "string \<Rightarrow> int \<times> string" where
  "dec_int t = (let n = ones (tl t) in
     (if hd t = CHR ''-'' then - int n else int n, drop (Suc (Suc n)) t))"

lemma ones_unary [simp]: "ones (unary n @ t) = n"
proof -
  have "takeWhile (\<lambda>c. c = CHR ''1'') (replicate n (CHR ''1'') @ CHR ''0'' # t) = replicate n (CHR ''1'')"
    by (induction n) simp_all
  then show ?thesis by (simp add: ones_def unary_def)
qed

lemma length_unary [simp]: "length (unary n) = Suc n"
  by (simp add: unary_def)

lemma dec_enc_str [simp]: "dec_str (enc_str s @ t) = (s, t)"
  by (simp add: dec_str_def enc_str_def)

lemma dec_enc_int [simp]: "dec_int (enc_int i @ t) = (i, t)"
  by (simp add: dec_int_def enc_int_def Let_def)

definition json_str :: "json \<Rightarrow> string \<Rightarrow> string" where
  "json_str j k = (case jfind j k of Some (JString s) \<Rightarrow> s | _ \<Rightarrow> [])"

definition json_int :: "json \<Rightarrow> string \<Rightarrow> int" where
  "json_int j k = (case jfind j k of Some (JInt i) \<Rightarrow> i | _ \<Rightarrow> 0)"

definition record_text :: "json \<Rightarrow> string" where
  "record_text j =
     (if jfind j ''planLength'' \<noteq> None
      then CHR ''P'' # enc_str (json_str j ''version'') @ enc_str (json_str j ''extras'') @ enc_int (json_int j ''planLength'') @ []
      else if jfind j ''featureLength'' \<noteq> None
      then CHR ''F'' # enc_str (json_str j ''version'') @ enc_int (json_int j ''dataType'') @
        enc_int (json_int j ''featureLength'') @ enc_int (json_int j ''expiry'') @ []
      else ''{}'')"

definition text_plan :: "string \<Rightarrow> json" where
  "text_plan t = (case dec_str t of (v, t1) \<Rightarrow> case dec_str t1 of (x, t2) \<Rightarrow> case dec_int t2 of (n, t3) \<Rightarrow>
     plan_data_to_json (no_plan_data\<lparr>pl_version := v, pl_extraFields := x, pl_planLength := n\<rparr>))"

definition text_feature :: "string \<Rightarrow> json" where
  "text_feature t = (case dec_str t of (v, t1) \<Rightarrow> case dec_int t1 of (d, t2) \<Rightarrow> case dec_int t2 of (n, t3) \<Rightarrow>
     case dec_int t3 of (x, t4) \<Rightarrow>
     feature_data_to_json (no_feature_data\<lparr>fd_version := v, fd_dataType := d, fd_featureLength := n, fd_expiry := x\<rparr>))"

definition record_parse :: "string \<Rightarrow> json option" where
  "record_parse s =
     (if s = ''version'' then Some (jobject [(''status'', JInt 200), (''fileParts'', JInt 2), (''version'', JString ''2''),
        (''features'', JString ''extras'')])
      else if s = ''fversion'' then Some (jobject [(''status'', JInt 200), (''version'', JString ''7''), (''dataType'', JInt 1),
        (''expiry'', JInt 100)])
      else if s = [] then None
      else if hd s = CHR ''P'' then Some (text_plan (tl s))
      else if hd s = CHR ''F'' then Some (text_feature (tl s))
      else None)"

lemma plan_record: "record_parse (record_text (plan_data_to_json p)) = Some (plan_data_to_json p)"
  by (simp add: record_parse_def record_text_def text_plan_def json_str_def json_int_def plan_data_to_json_def jfind_jobject
      del: append_Nil2)

lemma feature_record: "record_parse (record_text (feature_data_to_json d)) = Some (feature_data_to_json d)"
  by (simp add: record_parse_def record_text_def text_feature_def json_str_def json_int_def feature_data_to_json_def jfind_jobject
      del: append_Nil2)

section \<open>A server and an SDK\<close>

definition ends_with :: "string \<Rightarrow> string \<Rightarrow> bool" where
  "ends_with s t = (drop (length s - length t) s = t)"

definition part_answer :: "string \<Rightarrow> c_response" where
  "part_answer chunk = \<lparr>cr_statusCode = SUCCESS, cr_body = Some chunk, cr_bodyLength = int (length chunk)\<rparr>"

definition plan_server :: "net_request \<Rightarrow> c_response" where
  "plan_server r = (let text = (if ends_with (nr_url r) ''/version'' then ''version''
      else if ends_with (nr_url r) ''/parts/1?planType=inference'' then ''pl'' else ''an'') in part_answer text)"

definition feature_server :: "net_request \<Rightarrow> c_response" where
  "feature_server r = (let text = (if ends_with (nr_url r) ''/version'' then ''fversion'' else ''bytes'') in part_answer text)"

definition record_platform :: "(net_request \<Rightarrow> c_response) \<Rightarrow> platform" where
  "record_platform server = \<lparr>pf_net = (\<lambda>k. server), pf_parse = record_parse, pf_dump = record_text, pf_writable = (\<lambda>f. True)\<rparr>"

definition demo_sdk :: "(32 word, 64 word, nat, nat) sdk" where
  "demo_sdk = \<lparr>sd_config = demo_config_executor, sd_server = new_server_api demo_device, sd_executor = demo_executor,
     sd_features = new_feature_store_manager [''f''], sd_events = demo_fresh\<rparr>"

lemma demo_sdk_home: "at_home ''/home/'' (sa_device (sd_server demo_sdk))"
  by (simp add: demo_sdk_def new_server_api_def demo_device_def at_home_def device_ok_def)

lemma record_platform_sel [simp]:
  "pf_parse (record_platform server) = record_parse" "pf_dump (record_platform server) = record_text"
  "pf_writable (record_platform server) f" "pf_net (record_platform server) k = server"
  by (simp_all add: record_platform_def)

end
