(* ===== verification/Resource_Contract.thy ===== *)
theory Resource_Contract
  imports Resource_Demo
begin

text \<open>
  What the resource manager promises: what is saved on the device is read back after
  a restart, a plan is put together from its parts in their order, a failed update
  leaves the loaded models alone, attempts are bounded, and features follow their
  expiry.
\<close>

section \<open>File names\<close>

text \<open>The files of two plans, or of two features, never collide.\<close>

lemma last_part: "a @ b = c @ d \<Longrightarrow> length b \<le> length d \<Longrightarrow> b = drop (length d - length b) d"
proof -
  assume e: "a @ b = c @ d" "length b \<le> length d"
  have "b = drop (length (a @ b) - length b) (a @ b)" by simp
  also have "\<dots> = drop (length (c @ d) - length b) (c @ d)" using e(1) by simp
  also have "\<dots> = drop (length d - length b) d" using e(2) by simp
  finally show ?thesis .
qed

lemma plan_files_distinct [simp]: "m @ INFERENCEFILENAME \<noteq> m' @ INFERENCEMETADATAFILENAME"
  using last_part [of m INFERENCEFILENAME m' INFERENCEMETADATAFILENAME]
  by (auto simp: INFERENCEFILENAME_def INFERENCEMETADATAFILENAME_def)

lemma feature_files_distinct [simp]: "n @ FEATURESTOREMETADATAFILENAME \<noteq> n' @ FEATURESTOREFILENAME"
  using last_part [of n FEATURESTOREMETADATAFILENAME n' FEATURESTOREFILENAME]
  by (auto simp: FEATURESTOREMETADATAFILENAME_def FEATURESTOREFILENAME_def)

lemma plan_files_distinct' [simp]: "m @ INFERENCEMETADATAFILENAME \<noteq> m' @ INFERENCEFILENAME"
  using plan_files_distinct by metis

lemma feature_files_distinct' [simp]: "n @ FEATURESTOREFILENAME \<noteq> n' @ FEATURESTOREMETADATAFILENAME"
  using feature_files_distinct by metis

lemma file_names_distinct [simp]:
  "INFERENCEMETADATAFILENAME \<noteq> INFERENCEFILENAME" "INFERENCEFILENAME \<noteq> INFERENCEMETADATAFILENAME"
  "FEATURESTOREMETADATAFILENAME \<noteq> FEATURESTOREFILENAME" "FEATURESTOREFILENAME \<noteq> FEATURESTOREMETADATAFILENAME"
  using plan_files_distinct [of "[]" "[]"] feature_files_distinct [of "[]" "[]"] by auto

section \<open>Plans on the device\<close>

definition plan_writable :: "platform \<Rightarrow> string \<Rightarrow> string \<Rightarrow> bool" where
  "plan_writable pf h m =
     (pf_writable pf (h @ m @ INFERENCEMETADATAFILENAME) \<and> pf_writable pf (h @ m @ INFERENCEFILENAME))"

definition plan_text :: "platform \<Rightarrow> bool" where
  "plan_text pf = (\<forall>p. pf_parse pf (pf_dump pf (plan_data_to_json p)) = Some (plan_data_to_json p))"

lemma saved_plan_files:
  assumes "at_home h d" "plan_writable pf h m"
  shows "get_file_from_device (save_inference_plan_data_on_device pf d m p) (m @ INFERENCEMETADATAFILENAME) =
      Some (pf_dump pf (plan_data_to_json p))"
    "get_file_from_device (save_inference_plan_data_on_device pf d m p) (m @ INFERENCEFILENAME) = Some (pl_plan p)"
  using assms unfolding save_inference_plan_data_on_device_def plan_writable_def
  by (auto intro!: device_files.load_two [of h d pf])

lemma saved_plan_home: "at_home h d \<Longrightarrow> at_home h (save_inference_plan_data_on_device pf d m p)"
  by (simp add: save_inference_plan_data_on_device_def device_files.ok_save)

lemma saved_plan_sent [simp]: "dv_sent (save_inference_plan_data_on_device pf d m p) = dv_sent d"
  by (simp add: save_inference_plan_data_on_device_def)

lemma get_saved_plan:
  assumes "at_home h d" "plan_writable pf h m" "plan_text pf" "plan_data_fits p"
  shows "get_inference_plan_data_from_device pf (save_inference_plan_data_on_device pf d m p) m =
    Inr (p\<lparr>pl_valid := (pl_planLength p = int (length (pl_plan p)))\<rparr>)"
proof -
  have "parser_get (pf_parse pf) no_plan_data plan_data_from_json (pf_dump pf (plan_data_to_json p)) = Inr (plan_view p)"
    using plan_codec.get_dumped [where parse = "pf_parse pf" and dump = "pf_dump pf", OF assms(4)] assms(3)
    by (simp add: plan_text_def)
  then show ?thesis
    by (simp add: get_inference_plan_data_from_device_def saved_plan_files [OF assms(1,2)] plan_view_def)
qed

section \<open>Features on the device\<close>

definition feature_writable :: "platform \<Rightarrow> string \<Rightarrow> string \<Rightarrow> bool" where
  "feature_writable pf h n =
     (pf_writable pf (h @ n @ FEATURESTOREFILENAME) \<and> pf_writable pf (h @ n @ FEATURESTOREMETADATAFILENAME))"

definition feature_text :: "platform \<Rightarrow> bool" where
  "feature_text pf = (\<forall>d. pf_parse pf (pf_dump pf (feature_data_to_json d)) = Some (feature_data_to_json d))"

definition whole_feature :: "feature_data \<Rightarrow> bool" where
  "whole_feature fd = (\<exists>b. fd_feature fd = Some b \<and> fd_featureLength fd = int (length b))"

lemma get_saved_feature:
  assumes "at_home h d" "feature_writable pf h n" "feature_text pf" "feature_data_fits fd" "whole_feature fd"
    and "save_feature_data_on_device pf d n fd = Inr d'"
  shows "get_feature_data_from_device pf now d' n =
    Inr (if fd_expiry fd < now then no_feature_data else fd\<lparr>fd_valid := True\<rparr>)"
proof -
  obtain b where b: "fd_feature fd = Some b" "fd_featureLength fd = int (length b)"
    "d' = saved pf (saved pf d b (n @ FEATURESTOREFILENAME)) (pf_dump pf (feature_data_to_json fd)) (n @ FEATURESTOREMETADATAFILENAME)"
    using assms(5,6) by (auto simp: whole_feature_def save_feature_data_on_device_def)
  have files: "get_file_from_device d' (n @ FEATURESTOREFILENAME) = Some b"
    "get_file_from_device d' (n @ FEATURESTOREMETADATAFILENAME) = Some (pf_dump pf (feature_data_to_json fd))"
    using assms(1,2) unfolding b(3) feature_writable_def by (auto intro!: device_files.load_two [of h d pf])
  have "parser_get (pf_parse pf) no_feature_data feature_data_from_json (pf_dump pf (feature_data_to_json fd)) =
      Inr (feature_view fd)"
    using feature_codec.get_dumped [where parse = "pf_parse pf" and dump = "pf_dump pf", OF assms(4)] assms(3)
    by (simp add: feature_text_def)
  moreover have "cast_signed 32 (int (length b)) = int (length b)"
    using assms(4) b(2) by (simp add: feature_data_fits_def cast_signed_32)
  ultimately show ?thesis using b(1,2)
    by (simp add: get_feature_data_from_device_def files feature_view_def)
qed

section \<open>The server calls keep the device in its place\<close>

lemma send_home: "api_send pf s r = (resp, t) \<Longrightarrow> at_home h (sa_device s) \<Longrightarrow> at_home h (sa_device t)"
  using api_send_result [of pf s r resp t] by (simp add: at_home_def device_ok_def same_server_def)

lemma register_home:
  assumes "device_register pf s = Inr (ok, t)" "at_home h (sa_device s)"
  shows "at_home h (sa_device t)"
proof -
  obtain resp s1 where a: "api_send pf s (register_request pf s) = (resp, s1)" by fastforce
  have "at_home h (sa_device s1)" using send_home [OF a assms(2)] .
  then show ?thesis using assms(1) a
    by (auto simp: device_register_def ubind_Inr_iff Let_def save_file_eq device_files.ok_save split: if_splits)
qed

lemma authorised_home:
  "authorised_get pf reads path retries s = Inr (resp, t) \<Longrightarrow> at_home h (sa_device s) \<Longrightarrow> at_home h (sa_device t)"
proof (induction pf reads path retries s arbitrary: resp t rule: authorised_get.induct)
  case (1 pf reads path retries s)
  obtain r1 s1 where a: "api_send pf s (get_request s path) = (r1, s1)" by fastforce
  have s1: "at_home h (sa_device s1)" using send_home [OF a "1.prems"(2)] .
  show ?case
  proof (cases "cr_statusCode r1 = AUTH_ERR \<and> retries \<noteq> 0")
    case False
    with "1.prems"(1) a have "s1 = t"
      by (auto simp: authorised_get.simps [of pf reads path retries s] ubind_Inr_iff split: nat.splits if_splits)
    with s1 show ?thesis by simp
  next
    case True
    then obtain n where n: "retries = Suc n" by (cases retries) auto
    with "1.prems"(1) a True obtain ok s2 x where x: "(if reads then body_string r1 else Inr []) = Inr x"
      and reg: "device_register pf s1 = Inr (ok, s2)"
      and rest: "(if ok then authorised_get pf reads path n s2 else Inr (r1, s2)) = Inr (resp, t)"
      by (auto simp: authorised_get.simps [of pf reads path "Suc n" s] ubind_Inr_iff)
    have s2: "at_home h (sa_device s2)" using register_home [OF reg s1] .
    show ?thesis
    proof (cases ok)
      case ok: True
      with rest have go: "authorised_get pf reads path n s2 = Inr (resp, t)" by simp
      show ?thesis
        by (rule "1.IH" [OF a [symmetric] refl x conjunct1 [OF True] n reg refl ok go s2])
    qed (use rest s2 in simp)
  qed
qed

lemma decode_state: "decode_response pf d g rs = Inr (r, t) \<Longrightarrow> t = snd rs"
  by (auto simp: decode_response_def ubind_Inr_iff split: prod.splits)

lemma version_check_home:
  "version_check pf q retries s = Inr (v, t) \<Longrightarrow> at_home h (sa_device s) \<Longrightarrow> at_home h (sa_device t)"
  by (auto simp: version_check_def ubind_Inr_iff dest!: decode_state intro: authorised_home)

lemma feature_version_home:
  "get_feature_version pf n retries s = Inr (v, t) \<Longrightarrow> at_home h (sa_device s) \<Longrightarrow> at_home h (sa_device t)"
  by (auto simp: get_feature_version_def ubind_Inr_iff dest!: decode_state intro: authorised_home)

lemma download_parts_home:
  "download_parts pf q parts plan s = Inr (e, plan', t) \<Longrightarrow> at_home h (sa_device s) \<Longrightarrow> at_home h (sa_device t)"
proof (induction parts arbitrary: plan s)
  case (Cons part parts)
  obtain r s1 where r: "get_plan pf (q part) DEFAULT_AUTH_ERROR_RETRIES s = Inr (r, s1)"
    using Cons.prems(1) by (auto simp: ubind_Inr_iff)
  have "at_home h (sa_device s1)"
    using r Cons.prems(2) unfolding get_plan_def by (rule authorised_home)
  with Cons r show ?case by (cases "cr_statusCode r = SUCCESS") (auto simp: ubind_Inr_iff)
qed simp

lemma download_plan_home:
  "download_plan pf c m v s = Inr (e, plan, t) \<Longrightarrow> at_home h (sa_device s) \<Longrightarrow> at_home h (sa_device t)"
  by (auto simp: download_plan_def ubind_Inr_iff split: if_splits intro: download_parts_home)

section \<open>Loading a plan\<close>

lemma load_plan_outcomes:
  assumes "load_plan pf E c m s = Inr (e, s')"
  obtains (no_answer) v sv where "version_check pf (version_request_of (sd_config s) m) DEFAULT_AUTH_ERROR_RETRIES (sd_server s) = Inr (v, sv)"
      "e \<noteq> SUCCESS" "s' = s\<lparr>sd_server := sv\<rparr>"
  | (same) v sv where "version_check pf (version_request_of (sd_config s) m) DEFAULT_AUTH_ERROR_RETRIES (sd_server s) = Inr (v, sv)"
      "get_plan_version (sd_executor s) m = vr_version v" "e = SUCCESS"
      "s' = update_executor (plan_updated m True) (s\<lparr>sd_server := sv\<rparr>)"
  | (broken) v sv plan sv' where "version_check pf (version_request_of (sd_config s) m) DEFAULT_AUTH_ERROR_RETRIES (sd_server s) = Inr (v, sv)"
      "download_plan pf (sd_config s) m v sv = Inr (e, plan, sv')" "e \<noteq> SUCCESS"
      "s' = update_executor (plan_updated m False) (s\<lparr>sd_server := sv'\<rparr>)"
  | (installed) v sv plan sv' where "version_check pf (version_request_of (sd_config s) m) DEFAULT_AUTH_ERROR_RETRIES (sd_server s) = Inr (v, sv)"
      "get_plan_version (sd_executor s) m \<noteq> vr_version v"
      "download_plan pf (sd_config s) m v sv = Inr (SUCCESS, plan, sv')"
      "install_plan pf E c m (downloaded_plan v plan) (s\<lparr>sd_server := sv'\<rparr>) = Inr (e, s')"
proof -
  obtain v sv where v: "version_check pf (version_request_of (sd_config s) m) DEFAULT_AUTH_ERROR_RETRIES (sd_server s) = Inr (v, sv)"
    using assms by (auto simp: load_plan_def ubind_Inr_iff)
  show thesis
  proof (cases "br_status (vr_base v) = SUCCESS")
    case False
    with assms v show thesis by (intro no_answer [OF v]) (auto simp: load_plan_def)
  next
    case True
    show thesis
    proof (cases "get_plan_version (sd_executor s) m = vr_version v")
      case eq: True
      with assms v True show thesis by (intro same [OF v eq]) (auto simp: load_plan_def)
    next
      case new: False
      with assms v True obtain status plan sv' where d: "download_plan pf (sd_config s) m v sv = Inr (status, plan, sv')"
        by (auto simp: load_plan_def ubind_Inr_iff)
      show thesis
      proof (cases "status = SUCCESS")
        case ok: True
        with assms v True new d show thesis by (intro installed [OF v new]) (auto simp: load_plan_def)
      next
        case bad: False
        with assms v True new d have "e = status" "s' = update_executor (plan_updated m False) (s\<lparr>sd_server := sv'\<rparr>)"
          by (auto simp: load_plan_def)
        with d bad show thesis by (intro broken [OF v]) auto
      qed
    qed
  qed
qed

lemma plan_updated_keeps [simp]:
  "ex_modelMap (plan_updated m b ex) = ex_modelMap ex"
  "ex_loadModelRetries (plan_updated m b ex) = ex_loadModelRetries ex"
  "get_plan_version (plan_updated m b ex) m' = get_plan_version ex m'"
  by (simp_all add: plan_updated_def get_plan_version_def)

lemma install_plan_outcomes:
  assumes "install_plan pf E c m p s = Inr (e, s')"
  obtains (loaded) "e = SUCCESS" "get_plan_version (sd_executor s') m = pl_version p"
      "ex_isModelUpdated (sd_executor s') = (if smap_has (ex_isModelUpdated (sd_executor s)) m
         then smap_put m True (ex_isModelUpdated (sd_executor s)) else ex_isModelUpdated (sd_executor s))"
      "sa_device (sd_server s') = save_inference_plan_data_on_device pf (sa_device (sd_server s)) m p"
      "sd_features s' = sd_features s" "check_plan_loaded (sd_executor s') m"
      "ex_loadModelRetries (sd_executor s') = ex_loadModelRetries (sd_executor s)"
  | (refused) "e = EXECUTOR_LOAD_MODEL_ERR" "ex_modelMap (sd_executor s') = ex_modelMap (sd_executor s)"
      "sa_device (sd_server s') = save_inference_plan_data_on_device pf (sa_device (sd_server s)) m p"
      "sd_features s' = sd_features s"
      "ex_loadModelRetries (sd_executor s') = ex_loadModelRetries (sd_executor s)"
proof -
  obtain ok ex ue where l: "executor_load_plan E c m p (sd_executor s) (sd_events s) = Inr (ok, ex, ue)"
    using assms by (auto simp: install_plan_def Let_def ubind_Inr_iff)
  define d where "d = save_inference_plan_data_on_device pf (sa_device (sd_server s)) m p"
  define s2 where "s2 = s\<lparr>sd_server := (sd_server s)\<lparr>sa_device := d\<rparr>, sd_executor := ex, sd_events := ue\<rparr>"
  have r: "e = (if ok then SUCCESS else EXECUTOR_LOAD_MODEL_ERR)" "s' = update_executor (plan_updated m ok) s2"
    using assms l by (auto simp: install_plan_def Let_def s2_def d_def split: if_splits)
  from l show thesis
  proof (cases rule: load_plan_cases)
    case (loaded info md)
    note md = new_model_result [OF loaded(2)]
    have ex: "smap_find (ex_modelMap (sd_executor s')) m = Some md"
      by (simp add: r(2) s2_def update_executor_def loaded(1,3))
    show thesis
    proof (rule that(1))
      show "get_plan_version (sd_executor s') m = pl_version p" using ex md by (simp add: get_plan_version_def)
      show "check_plan_loaded (sd_executor s') m" using ex by (simp add: check_plan_loaded_def smap_has_def)
    qed (simp_all add: r s2_def update_executor_def loaded(1,3) plan_updated_def flip: d_def)
  qed (rule that(2), simp_all add: r s2_def update_executor_def flip: d_def)+
qed

lemma downloaded_plan_sel [simp]:
  "pl_version (downloaded_plan v plan) = vr_version v" "pl_plan (downloaded_plan v plan) = plan"
  "pl_planLength (downloaded_plan v plan) = cast_signed 32 (int (length plan))"
  by (simp_all add: downloaded_plan_def)

lemma cast_signed_bounds: "- (2 ^ 31) \<le> cast_signed 32 x \<and> cast_signed 32 x < 2 ^ 31"
proof -
  have "0 \<le> x mod 2 ^ 32 \<and> x mod 2 ^ 32 < (2 ^ 32 :: int)" by simp
  then show ?thesis by (auto simp: cast_signed_def Let_def)
qed

lemma cast_length_eq: "cast_signed 32 (int n) = int n \<longleftrightarrow> n < 2 ^ 31"
  using cast_signed_bounds [of "int n"] cast_signed_32 [of "int n"] by fastforce

section \<open>Properties of plans\<close>



text \<open>C40: a plan the runtime refuses is saved before it is tried: the old model keeps
  running, but after a restart the device has only the refused plan and the model
  does not load.
\<close>
theorem refused_plan_lost_after_restart:
  assumes "install_plan pf E c m p s = Inr (e, s')" "oe_session E (pl_plan p) = None"
    and "at_home h (sa_device (sd_server s))" "plan_writable pf h m" "plan_text pf"
    and "pl_planLength p = int (length (pl_plan p))" "length (pl_plan p) < 2 ^ 31"
    and "sa_device (sd_server t) = sa_device (sd_server s')"
  shows "ex_modelMap (sd_executor s') = ex_modelMap (sd_executor s) \<and>
    (\<exists>t'. load_plan_from_device pf E c' m t = Inr (False, t') \<and>
      ex_modelMap (sd_executor t') = ex_modelMap (sd_executor t))"
proof -
  obtain info where info: "parser_get (sq_parse (oe_sql E)) no_model_info model_info_from_json (pl_extraFields p) = Inr info"
    using assms(1) by (auto simp: install_plan_def Let_def executor_load_plan_def ubind_Inr_iff)
  have refuse: "\<exists>ex'. executor_load_plan E cl m q ex ue = Inr (False, ex', ue) \<and> ex_modelMap ex' = ex_modelMap ex"
    if "pl_extraFields q = pl_extraFields p" "pl_plan q = pl_plan p" for cl q ex ue
    using that assms(2) info by (auto simp: executor_load_plan_def new_onnx_model_def)
  have fits: "plan_data_fits p" using assms(6,7) by (simp add: plan_data_fits_def)
  from assms(1) show ?thesis
  proof (cases rule: install_plan_outcomes)
    case loaded
    then show ?thesis using assms(1) refuse [of p c "sd_executor s" "sd_events s"]
      by (auto simp: install_plan_def Let_def SUCCESS_def EXECUTOR_LOAD_MODEL_ERR_def)
  next
    case refused
    have saved: "get_inference_plan_data_from_device pf (sa_device (sd_server t)) m = Inr (p\<lparr>pl_valid := True\<rparr>)"
      using get_saved_plan [OF assms(3-5) fits] assms(6,8) refused(3) by simp
    show ?thesis using refused(2) refuse [of "p\<lparr>pl_valid := True\<rparr>" c' "sd_executor t" "sd_events t"]
      by (auto simp: load_plan_from_device_def saved)
  qed
qed

section \<open>Attempts to load a plan\<close>

definition retries_left :: "string \<Rightarrow> ('f, 'd, 'db, 's) sdk \<Rightarrow> int" where
  "retries_left m s = (case smap_find (ex_loadModelRetries (sd_executor s)) m of Some n \<Rightarrow> max 0 n | None \<Rightarrow> 0)"

text \<open>One round over one model; the second component counts the attempts to load \<open>m\<close>.\<close>

inductive plan_tick ::
  "platform \<Rightarrow> ('f, 'd, 'db, 's) onnx_env \<Rightarrow> string \<Rightarrow> ('f, 'd, 'db, 's) sdk \<times> nat \<Rightarrow> ('f, 'd, 'db, 's) sdk \<times> nat \<Rightarrow> bool"
  for pf E m where
  "update_plan_if_required pf E c m' s = Inr s' \<Longrightarrow>
    n' = (if m' = m \<and> fst (can_model_retry m (sd_executor s)) then Suc n else n) \<Longrightarrow>
    plan_tick pf E m (s, n) (s', n')"

inductive_cases plan_tickE: "plan_tick pf E m s t"

lemma load_plan_retries:
  assumes "load_plan pf E c m s = Inr (e, s')"
  shows "ex_loadModelRetries (sd_executor s') = ex_loadModelRetries (sd_executor s)"
  using assms
proof (cases rule: load_plan_outcomes)
  case (installed v sv plan sv')
  from installed(4) show ?thesis by (cases rule: install_plan_outcomes) simp_all
qed (simp_all add: update_executor_def)

lemma can_model_retry_keeps [simp]:
  "ex_loadModelRetries (snd (can_model_retry m ex)) = ex_loadModelRetries ex"
  by (simp add: can_model_retry_def Let_def)

lemma can_model_retry_left:
  "fst (can_model_retry m (sd_executor s)) \<Longrightarrow> 0 < retries_left m s"
  by (auto simp: can_model_retry_def Let_def retries_left_def split: option.splits if_splits)

lemma update_plan_retries:
  assumes "update_plan_if_required pf E c m' s = Inr s'"
  shows "smap_find (ex_loadModelRetries (sd_executor s')) m =
    (if m' = m \<and> fst (can_model_retry m (sd_executor s))
     then map_option (\<lambda>n. n - 1) (smap_find (ex_loadModelRetries (sd_executor s)) m)
     else smap_find (ex_loadModelRetries (sd_executor s)) m)"
proof (cases "fst (can_model_retry m' (sd_executor s))")
  case False
  then have "sd_executor s' = snd (can_model_retry m' (sd_executor s))"
    using assms by (auto simp: update_plan_if_required_def Let_def split: prod.splits)
  with False show ?thesis by auto
next
  case True
  let ?s1 = "s\<lparr>sd_executor := snd (can_model_retry m' (sd_executor s))\<rparr>"
  obtain e s2 where l: "load_plan pf E c m' ?s1 = Inr (e, s2)" and s': "s' = update_executor (update_model_retries m') s2"
    using assms True by (auto simp: update_plan_if_required_def Let_def ubind_Inr_iff split: prod.splits)
  have "ex_loadModelRetries (sd_executor s2) = ex_loadModelRetries (sd_executor s)"
    using load_plan_retries [OF l] by simp
  then show ?thesis using True
    by (auto simp: s' update_executor_def update_model_retries_def split: option.splits)
qed

interpretation load_budget: retry_budget "plan_tick pf E m" "\<lambda>(s, n). retries_left m s" snd
  for pf E m
proof unfold_locales
  fix s t assume tick: "plan_tick pf E m s t"
  then obtain c m' s1 s2 n where st: "s = (s1, n)" "update_plan_if_required pf E c m' s1 = Inr s2"
    "t = (s2, if m' = m \<and> fst (can_model_retry m (sd_executor s1)) then Suc n else n)"
    by (auto elim!: plan_tickE)
  note r = update_plan_retries [OF st(2), of m]
  show "0 \<le> (case t of (s, n) \<Rightarrow> retries_left m s)" by (simp add: st retries_left_def split: option.split)
  show "int (snd t) + (case t of (s, n) \<Rightarrow> retries_left m s) \<le> int (snd s) + (case s of (s, n) \<Rightarrow> retries_left m s)"
  proof (cases "m' = m \<and> fst (can_model_retry m (sd_executor s1))")
    case True
    then have "0 < retries_left m s1" using can_model_retry_left by blast
    with True r show ?thesis by (auto simp: st retries_left_def split: option.splits)
  qed (use r in \<open>auto simp: st retries_left_def\<close>)
qed

lemma initial_retries:
  assumes "new_executor cfg = Inr ex" "sd_executor s = ex"
  shows "retries_left m s \<le> 3"
proof -
  have "smap_find (fold (\<lambda>m. smap_put m DEFAULT_LOAD_MODEL_RETRIES) ms r) m \<in> {smap_find r m, Some DEFAULT_LOAD_MODEL_RETRIES}"
    for ms and r :: "(string, int) smap"
  proof (induction ms arbitrary: r)
    case (Cons k ms)
    from Cons.IH [of "smap_put k DEFAULT_LOAD_MODEL_RETRIES r"] show ?case by (auto split: if_splits)
  qed simp
  from this [of "cf_modelIds cfg" "[]"]
  have "smap_find (ex_loadModelRetries ex) m \<in> {None, Some 3}"
    using assms(1) by (auto simp: new_executor_def ubind_Inr_iff DEFAULT_LOAD_MODEL_RETRIES_def)
  then show ?thesis using assms(2) by (auto simp: retries_left_def)
qed

text \<open>until the retries are reset a model is tried at most three times, however
  often the background loop runs and whatever the server answers.
\<close>
theorem load_attempts_bounded:
  assumes "(plan_tick pf E m)\<^sup>*\<^sup>* (s, 0) (t, n)" "new_executor cfg = Inr (sd_executor s)"
  shows "n \<le> 3"
  using load_budget.run_bound [OF assms(1)] initial_retries [OF assms(2) refl, of m]
  by (simp add: retries_left_def split: option.splits)

section \<open>Examples\<close>

lemma demo_plan_text: "plan_text (record_platform server)" "plan_writable (record_platform server) h m"
  by (simp_all add: plan_text_def plan_writable_def plan_record)



definition bad_plan :: plan_data where
  "bad_plan = no_plan_data\<lparr>pl_version := ''3'', pl_plan := ''bad'', pl_extraFields := ''extras'', pl_planLength := 3\<rparr>"

lemma refused_plan_lost_after_restart_witness:
  "\<exists>e s' t'. install_plan (record_platform plan_server) demo_onnx demo_loading ''m'' bad_plan demo_sdk = Inr (e, s') \<and>
    load_plan_from_device (record_platform plan_server) demo_onnx demo_loading ''m'' (demo_sdk\<lparr>sd_server := sd_server s'\<rparr>) = Inr (False, t')"
proof -
  have "\<not> isl (install_plan (record_platform plan_server) demo_onnx demo_loading ''m'' bad_plan demo_sdk)" by code_simp
  then obtain e s' where s': "install_plan (record_platform plan_server) demo_onnx demo_loading ''m'' bad_plan demo_sdk = Inr (e, s')"
    by (cases "install_plan (record_platform plan_server) demo_onnx demo_loading ''m'' bad_plan demo_sdk") auto
  have "oe_session demo_onnx (pl_plan bad_plan) = None" by code_simp
  from refused_plan_lost_after_restart [OF s' this demo_sdk_home demo_plan_text(2,1), of "demo_sdk\<lparr>sd_server := sd_server s'\<rparr>" demo_loading] s'
  show ?thesis by (auto simp: bad_plan_def)
qed

lemma load_attempts_bounded_witness:
  "\<exists>t n. (plan_tick (record_platform (\<lambda>r. part_answer [])) demo_onnx ''m'')\<^sup>*\<^sup>* (demo_sdk, 0) (t, n) \<and> n = 1 \<and> n \<le> (3 :: nat)"
proof -
  have "map_sum id (\<lambda>t. fst (can_model_retry ''m'' (sd_executor demo_sdk)))
      (update_plan_if_required (record_platform (\<lambda>r. part_answer [])) demo_onnx demo_loading ''m'' demo_sdk) = Inr True"
    by code_simp
  then obtain t where t: "update_plan_if_required (record_platform (\<lambda>r. part_answer [])) demo_onnx demo_loading ''m'' demo_sdk = Inr t"
    "fst (can_model_retry ''m'' (sd_executor demo_sdk))" unfolding map_sum_Inr by auto
  have run: "(plan_tick (record_platform (\<lambda>r. part_answer [])) demo_onnx ''m'')\<^sup>*\<^sup>* (demo_sdk, 0) (t, 1)"
    by (rule r_into_rtranclp) (rule plan_tick.intros [OF t(1)], simp add: t(2))
  have "new_executor demo_config_executor = Inr (sd_executor demo_sdk)"
    by (simp add: demo_sdk_def demo_new_executor)
  from load_attempts_bounded [OF run this] run show ?thesis by blast
qed

end
