(* ===== verification/Resource_Update.thy ===== *)
theory Resource_Update
  imports Resource_Contract
begin

text \<open>
  Downloads: a plan is the concatenation of its parts, requested in order.  Features:
  an update reaches the store and the device together, and an expired feature whose
  version did not change is polled in every round.
\<close>

section \<open>Plans in parts\<close>

definition part_request :: "server_api \<Rightarrow> plan_request \<Rightarrow> net_request" where
  "part_request s q = get_request s (plan_path q)"

lemma get_plan_answered:
  assumes "\<And>k. pf_net pf k (part_request s q) = part_answer chunk"
  obtains t where "api_send pf s (part_request s q) = (part_answer chunk, t)"
    "get_plan pf q retries s = Inr (part_answer chunk, t)"
proof -
  obtain t where t: "api_send pf s (part_request s q) = (part_answer chunk, t)"
    using assms by (simp add: api_send_def send_request_def network_response_def part_answer_def)
  from that [OF t] show thesis using t
    by (simp add: get_plan_def authorised_get.simps [of pf False "plan_path q" retries s] part_request_def [symmetric])
      (simp add: part_answer_def SUCCESS_def AUTH_ERR_def)
qed

lemma download_parts_answered:
  assumes "\<And>k part. part \<in> set parts \<Longrightarrow> pf_net pf k (part_request s (q part)) = part_answer (chunk part)"
    and "sa_HEADER t = sa_HEADER s" "sa_HOST t = sa_HOST s"
  shows "\<exists>u. download_parts pf q parts plan t = Inr (SUCCESS, plan @ concat (map chunk parts), u) \<and>
    sent u = sent t @ map (\<lambda>part. part_request s (q part)) parts"
  using assms
proof (induction parts arbitrary: plan t)
  case (Cons part parts)
  have same: "part_request t (q part) = part_request s (q part)"
    using Cons.prems(2,3) by (simp add: part_request_def get_request_def)
  have "pf_net pf k (part_request t (q part)) = part_answer (chunk part)" for k
    using Cons.prems(1) [of part] same by simp
  from get_plan_answered [where pf = pf, OF this] obtain t1 where
    t1: "api_send pf t (part_request t (q part)) = (part_answer (chunk part), t1)"
    and get: "get_plan pf (q part) DEFAULT_AUTH_ERROR_RETRIES t = Inr (part_answer (chunk part), t1)" .
  note r = api_send_result [OF t1]
  have "body_string (part_answer (chunk part)) = Inr (chunk part)" "cr_statusCode (part_answer (chunk part)) = SUCCESS"
    by (simp_all add: body_string_def part_answer_def)
  moreover have "sa_HEADER t1 = sa_HEADER s" "sa_HOST t1 = sa_HOST s"
    using r Cons.prems(2,3) by (simp_all add: same_server_def)
  then obtain u where "download_parts pf q parts (plan @ chunk part) t1 = Inr (SUCCESS, (plan @ chunk part) @ concat (map chunk parts), u)"
    "sent u = sent t1 @ map (\<lambda>part. part_request s (q part)) parts"
    using Cons.IH [of t1 "plan @ chunk part"] Cons.prems(1) by auto
  ultimately show ?case using r(1) same get by simp
qed simp

text \<open>C28: when the server hands out the parts of a plan, the download asks for part 1 to
  the last part, once each and in this order, and gives back their concatenation.
\<close>
theorem plan_downloaded_in_order:
  assumes "\<And>k part. 1 \<le> part \<Longrightarrow> part \<le> vr_fileParts v \<Longrightarrow>
      pf_net pf k (part_request s (plan_request_of c m (vr_version v) part)) = part_answer (chunk part)"
    and "0 \<le> vr_fileParts v" "vr_fileParts v \<le> 2147"
  shows "\<exists>t. download_plan pf c m v s = Inr (SUCCESS, concat (map chunk [1 .. vr_fileParts v]), t) \<and>
    sent t = sent s @ map (\<lambda>part. part_request s (plan_request_of c m (vr_version v) part)) [1 .. vr_fileParts v]"
proof -
  have "signed_result 32 (PARTSIZE * vr_fileParts v) = Inr (PARTSIZE * vr_fileParts v)"
    using assms(2,3) by (simp add: signed_result_def PARTSIZE_def)
  then show ?thesis
    using download_parts_answered [of "[1 .. vr_fileParts v]" pf s "plan_request_of c m (vr_version v)" chunk s "[]"] assms
    by (simp add: download_plan_def PARTSIZE_def)
qed

text \<open>a plan of more than 2147 parts overflows the size that is reserved for it, and a negative number of parts throws in the background thread.\<close>
theorem part_count_bounds:
  "(2147 < vr_fileParts v \<longrightarrow> download_plan pf c m v s = Inl Arith_Overflow) \<and>
   (- 2147 \<le> vr_fileParts v \<and> vr_fileParts v < 0 \<longrightarrow> download_plan pf c m v s = Inl Uncaught)"
  by (simp_all add: download_plan_def signed_result_def PARTSIZE_def)

section \<open>Features\<close>

lemma replace_feature_known:
  assumes "get_feature pf n (fr_version v) DEFAULT_AUTH_ERROR_RETRIES (sd_server s) = Inr (r, sv)"
    and "cr_statusCode r = SUCCESS" "cr_body r = Some b" "cr_bodyLength r = int (length b)"
    and "smap_has (sd_features s) n"
  obtains fm d where "manager_load_feature_store (sd_features s) n (downloaded_feature v r) = Inr (True, fm)"
    "save_feature_data_on_device pf (sa_device sv) n (downloaded_feature v r) = Inr d"
    "replace_feature pf n v s = Inr (True, s\<lparr>sd_server := sv\<lparr>sa_device := d\<rparr>, sd_features := fm\<rparr>)"
proof -
  let ?fd = "downloaded_feature v r"
  have fd: "fd_feature ?fd = Some b" "fd_featureLength ?fd = int (length b)"
    using assms(3,4) by (simp_all add: downloaded_feature_def)
  obtain fm where fm: "manager_load_feature_store (sd_features s) n ?fd = Inr (True, fm)"
    using manager_load_known [OF assms(5) fd] by blast
  obtain d where d: "save_feature_data_on_device pf (sa_device sv) n ?fd = Inr d"
    using fd by (simp add: save_feature_data_on_device_def)
  show thesis
    by (rule that [OF fm d]) (use assms(1,2) fm d in \<open>simp add: replace_feature_def Let_def\<close>)
qed

text \<open>a feature whose new version was downloaded is served from memory and kept on
  the device, both until it expires.
\<close>
theorem feature_update_complete:
  assumes "get_feature_version pf n DEFAULT_AUTH_ERROR_RETRIES (sd_server s) = Inr (v, sv)" "br_status (fr_base v) = SUCCESS"
    and "get_feature pf n (fr_version v) DEFAULT_AUTH_ERROR_RETRIES sv = Inr (r, sv')" "cr_statusCode r = SUCCESS"
    and "cr_body r = Some b" "cr_bodyLength r = int (length b)"
    and "manager_should_download now (sd_features s) n" "manager_get_version (sd_features s) n = Inr old" "old \<noteq> fr_version v"
    and "at_home h (sa_device (sd_server s))" "feature_writable pf h n" "feature_text pf"
    and "feature_data_fits (downloaded_feature v r)"
  shows "\<exists>s'. update_feature_if_required pf now n s = Inr s' \<and>
    manager_get_feature (sd_features s') n = Inr \<lparr>ft_dataType = fr_dataType v, ft_data = Some b,
        ft_byteLength = int (length b), ft_version = fr_version v\<rparr> \<and>
    (\<forall>now'. manager_should_download now' (sd_features s') n = (fr_expiry v < now') \<and>
      get_feature_data_from_device pf now' (sa_device (sd_server s')) n =
        Inr (if fr_expiry v < now' then no_feature_data else downloaded_feature v r))"
proof -
  have known: "smap_has (sd_features s) n"
    using assms(8) by (auto simp: manager_get_version_def smap_has_def split: option.splits)
  obtain fm d where fm: "manager_load_feature_store (sd_features s) n (downloaded_feature v r) = Inr (True, fm)"
    and d: "save_feature_data_on_device pf (sa_device sv') n (downloaded_feature v r) = Inr d"
    and run: "replace_feature pf n v (s\<lparr>sd_server := sv\<rparr>) = Inr (True, s\<lparr>sd_server := sv'\<lparr>sa_device := d\<rparr>, sd_features := fm\<rparr>)"
    using replace_feature_known [of pf n v "s\<lparr>sd_server := sv\<rparr>" r sv' b] assms(3-6) known by auto
  let ?s' = "s\<lparr>sd_server := sv'\<lparr>sa_device := d\<rparr>, sd_features := manager_set_upto_date fm n\<rparr>"
  have whole: "whole_feature (downloaded_feature v r)"
    using assms(5,6) by (simp add: whole_feature_def downloaded_feature_def)
  have home: "at_home h (sa_device sv')"
    using assms(3) feature_version_home [OF assms(1,10)] unfolding get_feature_def by (rule authorised_home)
  have store: "smap_find fm n = Some s1 \<Longrightarrow> fs_expiry s1 = fr_expiry v" for s1
    using fm assms(5,6) by (auto simp: manager_load_feature_store_def store_load_def ubind_Inr_iff
        downloaded_feature_def split: option.splits)
  have loaded: "manager_get_feature fm n = Inr \<lparr>ft_dataType = fr_dataType v, ft_data = Some b,
        ft_byteLength = int (length b), ft_version = fr_version v\<rparr>"
    using manager_load_known [OF known, of "downloaded_feature v r" b] fm assms(5,6)
    by (auto simp: downloaded_feature_def)
  show ?thesis
  proof (intro exI conjI allI)
    show "update_feature_if_required pf now n s = Inr ?s'"
      using assms(1,2,7-9) run by (simp add: update_feature_if_required_def)
    show "manager_get_feature (sd_features ?s') n = Inr \<lparr>ft_dataType = fr_dataType v, ft_data = Some b,
        ft_byteLength = int (length b), ft_version = fr_version v\<rparr>"
      using loaded by (auto simp: manager_set_upto_date_def manager_get_feature_def store_set_upto_date_def split: option.splits)
    show "manager_should_download now' (sd_features ?s') n = (fr_expiry v < now')" for now'
      using loaded store by (auto simp: manager_should_download_def manager_set_upto_date_def manager_get_feature_def
          store_set_upto_date_def store_should_download_def split: option.splits)
    show "get_feature_data_from_device pf now' (sa_device (sd_server ?s')) n =
        Inr (if fr_expiry v < now' then no_feature_data else downloaded_feature v r)" for now'
      using get_saved_feature [OF home assms(11-13) whole d, of now']
      by (simp add: downloaded_feature_def)
  qed
qed

text \<open>when the version of an expired feature did not change, its expiry stays as it
  was: every round asks the server again, and the device still calls it expired.
\<close>
theorem expired_feature_polled_forever:
  assumes "smap_find (sd_features s) n = Some st" "fs_expiry st < now"
    and "get_feature_version pf n DEFAULT_AUTH_ERROR_RETRIES (sd_server s) = Inr (v, sv)" "br_status (fr_base v) = SUCCESS"
    and "fr_version v = ft_version (fs_feature st)"
  shows "\<exists>s'. update_feature_if_required pf now n s = Inr s' \<and> sd_server s' = sv \<and>
    (\<exists>st'. smap_find (sd_features s') n = Some st' \<and> fs_expiry st' = fs_expiry st \<and> fs_feature st' = fs_feature st) \<and>
    (\<forall>now' \<ge> now. manager_should_download now' (sd_features s') n)"
  using assms by (auto simp: update_feature_if_required_def manager_should_download_def manager_get_version_def
      store_should_download_def manager_set_upto_date_def store_set_upto_date_def)

section \<open>Examples\<close>

definition two_parts :: version_response where
  "two_parts = no_version\<lparr>vr_fileParts := 2, vr_version := ''2''\<rparr>"

lemma plan_downloaded_in_order_witness:
  "\<exists>t. download_plan (record_platform plan_server) demo_config_executor ''m'' two_parts (new_server_api demo_device) =
      Inr (SUCCESS, ''plan'', t) \<and> length (sent t) = 2"
proof -
  let ?s = "new_server_api demo_device"
  let ?q = "\<lambda>part. plan_request_of demo_config_executor ''m'' (vr_version two_parts) part"
  let ?chunk = "\<lambda>part :: int. if part = 1 then ''pl'' else ''an''"
  have parts: "plan_server (part_request ?s (?q 1)) = part_answer (?chunk 1)" "plan_server (part_request ?s (?q 2)) = part_answer (?chunk 2)"
    by code_simp+
  have "pf_net (record_platform plan_server) k (part_request ?s (?q part)) = part_answer (?chunk part)"
    if "1 \<le> part" "part \<le> vr_fileParts two_parts" for k part
  proof -
    have "part = 1 \<or> part = 2" using that by (auto simp: two_parts_def)
    then show ?thesis using parts by auto
  qed
  from plan_downloaded_in_order [where chunk = ?chunk, OF this]
  obtain t where t: "download_plan (record_platform plan_server) demo_config_executor ''m'' two_parts ?s =
      Inr (SUCCESS, concat (map ?chunk [1 .. 2]), t)" "sent t = sent ?s @ map (\<lambda>part. part_request ?s (?q part)) [1 .. 2]"
    by (auto simp: two_parts_def)
  have "sent ?s = []" by (simp add: sent_def new_server_api_def demo_device_def)
  moreover have "[1 .. 2] = [1, 2 :: int]" by (simp add: upto.simps)
  ultimately show ?thesis using t by simp
qed

lemma part_count_bounds_witness:
  "download_plan (record_platform plan_server) demo_config_executor ''m'' (two_parts\<lparr>vr_fileParts := 3000\<rparr>) (new_server_api demo_device) = Inl Arith_Overflow"
  using part_count_bounds [of "two_parts\<lparr>vr_fileParts := 3000\<rparr>"] by simp

definition demo_feature_version :: feature_version_response where
  "demo_feature_version = no_feature_version\<lparr>fr_base := \<lparr>br_status = 200, br_error = []\<rparr>, fr_version := ''7'', fr_dataType := 1, fr_expiry := 100\<rparr>"

lemma demo_feature_answers:
  "\<exists>sv sv'. get_feature_version (record_platform feature_server) ''f'' DEFAULT_AUTH_ERROR_RETRIES (sd_server demo_sdk) = Inr (demo_feature_version, sv) \<and>
    get_feature (record_platform feature_server) ''f'' (fr_version demo_feature_version) DEFAULT_AUTH_ERROR_RETRIES sv = Inr (part_answer ''bytes'', sv')"
proof -
  have "map_sum id (\<lambda>(v, sv). (v, map_sum id fst (get_feature (record_platform feature_server) ''f'' (fr_version v) DEFAULT_AUTH_ERROR_RETRIES sv)))
      (get_feature_version (record_platform feature_server) ''f'' DEFAULT_AUTH_ERROR_RETRIES (sd_server demo_sdk)) =
    Inr (demo_feature_version, Inr (part_answer ''bytes''))" by code_simp
  then show ?thesis unfolding map_sum_Inr by (auto simp: map_sum_Inr)
qed

lemma demo_feature_facts:
  "manager_should_download 50 (sd_features demo_sdk) ''f''" "manager_get_version (sd_features demo_sdk) ''f'' = Inr []"
  by code_simp+

lemma demo_feature_text: "feature_text (record_platform server)" "feature_writable (record_platform server) h n"
  by (simp_all add: feature_text_def feature_writable_def feature_record)

lemma feature_update_complete_witness:
  "\<exists>s'. update_feature_if_required (record_platform feature_server) 50 ''f'' demo_sdk = Inr s' \<and>
    get_feature_data_from_device (record_platform feature_server) 60 (sa_device (sd_server s')) ''f'' =
      Inr (downloaded_feature demo_feature_version (part_answer ''bytes''))"
proof -
  obtain sv sv' where r: "get_feature_version (record_platform feature_server) ''f'' DEFAULT_AUTH_ERROR_RETRIES (sd_server demo_sdk) = Inr (demo_feature_version, sv)"
    "get_feature (record_platform feature_server) ''f'' (fr_version demo_feature_version) DEFAULT_AUTH_ERROR_RETRIES sv = Inr (part_answer ''bytes'', sv')"
    using demo_feature_answers by blast
  have v: "br_status (fr_base demo_feature_version) = SUCCESS" "[] \<noteq> fr_version demo_feature_version"
    "cr_statusCode (part_answer ''bytes'') = SUCCESS" "cr_body (part_answer ''bytes'') = Some ''bytes''"
    "cr_bodyLength (part_answer ''bytes'') = int (length ''bytes'')" "fr_expiry demo_feature_version = 100"
    "feature_data_fits (downloaded_feature demo_feature_version (part_answer ''bytes''))"
    by (simp_all add: demo_feature_version_def SUCCESS_def part_answer_def feature_data_fits_def downloaded_feature_def)
  show ?thesis
    using feature_update_complete [OF r(1) v(1) r(2) v(3-5) demo_feature_facts v(2) demo_sdk_home demo_feature_text(2,1) v(7)] v(6)
    by (auto dest!: spec [of _ 60])
qed

definition expired_store :: feature_store where
  "expired_store =
     \<lparr>fs_valid = True, fs_feature = \<lparr>ft_dataType = 1, ft_data = Some ''old'', ft_byteLength = 3, ft_version = ''7''\<rparr>,
      fs_expiry = 40, fs_isUptoDate = True\<rparr>"

definition demo_expired :: "(32 word, 64 word, nat, nat) sdk" where
  "demo_expired = demo_sdk\<lparr>sd_features := smap_put ''f'' expired_store []\<rparr>"

lemma expired_feature_polled_forever_witness:
  "\<exists>s'. update_feature_if_required (record_platform feature_server) 50 ''f'' demo_expired = Inr s' \<and>
    manager_should_download 51 (sd_features s') ''f'' \<and> length (sent (sd_server s')) = 1"
proof -
  have "map_sum id (\<lambda>(v, sv). (v, length (sent sv)))
      (get_feature_version (record_platform feature_server) ''f'' DEFAULT_AUTH_ERROR_RETRIES (sd_server demo_expired)) =
    Inr (demo_feature_version, 1)" by code_simp
  then obtain sv where sv: "get_feature_version (record_platform feature_server) ''f'' DEFAULT_AUTH_ERROR_RETRIES (sd_server demo_expired) =
      Inr (demo_feature_version, sv)" "length (sent sv) = 1"
    unfolding map_sum_Inr by auto
  have st: "smap_find (sd_features demo_expired) ''f'' = Some expired_store" "fs_expiry expired_store < 50"
    "fr_version demo_feature_version = ft_version (fs_feature expired_store)"
    by (simp_all add: demo_expired_def demo_feature_version_def expired_store_def)
  have "br_status (fr_base demo_feature_version) = SUCCESS" by (simp add: demo_feature_version_def SUCCESS_def)
  from expired_feature_polled_forever [OF st(1,2) sv(1) this st(3)] sv(2) show ?thesis by fastforce
qed

end
