(* ===== verification/Logger.thy ===== *)
theory Logger
  imports Server_Api Value_Type
begin

text \<open>
  \<open>nimblenet/util/src/Logger.cpp\<close>: the log file \<open>latest.txt\<close>, its rotation, and
  the upload of the rotated files.

  The files are those of the device.  What the operating system decides is the record
  \<open>log_os\<close>: which directories and files can be opened, whether a rename or a removal
  works, and the order in which \<open>readdir\<close> lists files.  Times are nanoseconds;
  \<open>dates k\<close> is the \<open>k\<close>-th result of \<open>getStringDate\<close> in a call.  A message is the text
  \<open>formatlog\<close> made.  The lines the SDK logs about failures of the logger itself are
  not modelled.
\<close>

section \<open>Text\<close>

text \<open>The time of day is the result of \<open>strftime\<close>; the milliseconds are not padded.\<close>

definition getStringDate :: "string \<Rightarrow> int \<Rightarrow> string" where
  "getStringDate buffer usec = take 83 (buffer @ '':'' @ int_str (usec sdiv 1000))"

text \<open>\<open>std::getline\<close> until the end; \<open>token\<close> is the line read so far.\<close>

fun getlines :: "string \<Rightarrow> string \<Rightarrow> string list" where
  "getlines token [] = (if token = [] then [] else [token])"
| "getlines token (c # cs) = (if c = CHR 0x0A then token # getlines [] cs else getlines (token @ [c]) cs)"

definition processLogs :: "string \<Rightarrow> string list" where
  "processLogs str = getlines [] str"

text \<open>\<open>log.substr(0, log.find(":::"))\<close>: the whole line when there is no separator.\<close>

fun logType :: "string \<Rightarrow> string" where
  "logType [] = []"
| "logType (c # cs) = (if take 3 (c # cs) = '':::'' then [] else c # logType cs)"

definition log_line :: "string \<Rightarrow> string \<Rightarrow> string \<Rightarrow> string" where
  "log_line type date message = type @ '' '' @ date @ '' ::: '' @ message @ [CHR 0x0A]"

section \<open>State\<close>

record logging_config =
  lc_host :: string
  lc_secretKey :: string
  lc_deviceId :: string
  lc_clientId :: string

record logger =
  lg_writeFile :: string
  lg_logDirectory :: string
  lg_open :: bool
  lg_position :: int
  lg_config :: logging_config
  lg_lastLogTime :: int
  lg_timer_interval :: int
  lg_isDebug :: bool

record log_os =
  os_directory :: "string \<Rightarrow> bool"
  os_fopen :: "string \<Rightarrow> bool"
  os_rename :: "string \<Rightarrow> string \<Rightarrow> bool"
  os_remove :: "string \<Rightarrow> bool"
  os_readdir :: "string \<Rightarrow> string list \<Rightarrow> string list"

text \<open>The build that is not for Android.\<close>

definition PLATFORM :: string where "PLATFORM = ''linux''"
definition LOG_TIMER_INTERVAL_IN_SECONDS :: int where "LOG_TIMER_INTERVAL_IN_SECONDS = 5"
definition MAX_LOG_FILE_SIZE_IN_KB :: int where "MAX_LOG_FILE_SIZE_IN_KB = 500"
definition MIN_LOG_FILE_SIZE_BYTES :: int where "MIN_LOG_FILE_SIZE_BYTES = 1000"
definition MAX_BYTES_IN_KB :: int where "MAX_BYTES_IN_KB = 1024"

text \<open>The default key: the bytes of four \<open>int64_t\<close>s in memory order.\<close>

definition int64_bytes :: "int \<Rightarrow> string" where
  "int64_bytes x = map (\<lambda>k. char_of (nat ((x div 256 ^ k) mod 256))) [0..<8]"

definition secVec :: "int list" where
  "secVec = [3617574009957856822, 7161680211933160759, 3834033765364414521, 7378366457403629875]"

definition defaultSecretKey :: string where
  "defaultSecretKey = concat (map int64_bytes secVec)"

definition new_logger :: logger where
  "new_logger = \<lparr>lg_writeFile = [], lg_logDirectory = [], lg_open = False, lg_position = 0,
     lg_config = \<lparr>lc_host = DEFAULT_UPLOAD_LOGS_URL, lc_secretKey = [], lc_deviceId = [], lc_clientId = []\<rparr>,
     lg_lastLogTime = 0, lg_timer_interval = LOG_TIMER_INTERVAL_IN_SECONDS, lg_isDebug = False\<rparr>"

section \<open>Files\<close>

definition file_text :: "device \<Rightarrow> string \<Rightarrow> string" where
  "file_text d path = smap_at [] (dv_files d) path"

definition append_file :: "string \<Rightarrow> string \<Rightarrow> device \<Rightarrow> device" where
  "append_file path text d = d\<lparr>dv_files := smap_put path (file_text d path @ text) (dv_files d)\<rparr>"

definition rename_file :: "log_os \<Rightarrow> string \<Rightarrow> string \<Rightarrow> device \<Rightarrow> device" where
  "rename_file os old new d =
     (case smap_find (dv_files d) old of
        None \<Rightarrow> d
      | Some text \<Rightarrow> if os_rename os old new
          then d\<lparr>dv_files := smap_put new text (smap_erase old (dv_files d))\<rparr> else d)"

definition remove_file :: "log_os \<Rightarrow> string \<Rightarrow> device \<Rightarrow> device" where
  "remove_file os path d = (if os_remove os path then d\<lparr>dv_files := smap_erase path (dv_files d)\<rparr> else d)"

text \<open>\<open>fopen(path, "a+")\<close>: the position starts at 0, every write moves it to the end.\<close>

definition open_log :: "log_os \<Rightarrow> logger \<times> device \<Rightarrow> logger \<times> device" where
  "open_log os = (\<lambda>(l, d).
     if os_fopen os (lg_writeFile l)
     then (l\<lparr>lg_open := True, lg_position := 0\<rparr>, d\<lparr>dv_files := smap_ensure [] (lg_writeFile l) (dv_files d)\<rparr>)
     else (l\<lparr>lg_open := False, lg_position := 0\<rparr>, d))"

definition rotated_name :: "logger \<Rightarrow> string \<Rightarrow> string" where
  "rotated_name l date = lg_logDirectory l @ ''/log'' @ date @ ''.txt''"

definition rotate_log :: "log_os \<Rightarrow> string \<Rightarrow> logger \<times> device \<Rightarrow> logger \<times> device" where
  "rotate_log os date = (\<lambda>(l, d).
     open_log os (l, rename_file os (lg_writeFile l) (rotated_name l date) d))"

section \<open>Writing\<close>

text \<open>\<open>(float)size / 1024 > 500\<close>: the division by a power of two is exact.\<close>

definition rotation_due :: "int \<Rightarrow> bool" where
  "rotation_due fileSize = (MAX_LOG_FILE_SIZE_IN_KB * MAX_BYTES_IN_KB < f32_of_int fileSize)"

definition write_log :: "log_os \<Rightarrow> (nat \<Rightarrow> string) \<Rightarrow> string \<Rightarrow> string \<Rightarrow> logger \<times> device \<Rightarrow> logger \<times> device" where
  "write_log os dates message type = (\<lambda>(l, d).
     if \<not> lg_open l then (l, d)
     else let d1 = append_file (lg_writeFile l) (log_line type (dates 0) message) d;
              fileSize = int (length (file_text d1 (lg_writeFile l)));
              l1 = l\<lparr>lg_position := fileSize\<rparr> in
          if rotation_due fileSize then rotate_log os (dates 1) (l1, d1) else (l1, d1))"

definition LOGDEBUG :: "log_os \<Rightarrow> (nat \<Rightarrow> string) \<Rightarrow> string \<Rightarrow> logger \<times> device \<Rightarrow> logger \<times> device" where
  "LOGDEBUG os dates buf = write_log os dates buf ''DEBUG:::''"
definition LOGINFO :: "log_os \<Rightarrow> (nat \<Rightarrow> string) \<Rightarrow> string \<Rightarrow> logger \<times> device \<Rightarrow> logger \<times> device" where
  "LOGINFO os dates buf = write_log os dates buf ''INFO:::''"
definition LOGWARN :: "log_os \<Rightarrow> (nat \<Rightarrow> string) \<Rightarrow> string \<Rightarrow> logger \<times> device \<Rightarrow> logger \<times> device" where
  "LOGWARN os dates buf = write_log os dates buf ''WARN:::''"
definition LOGERROR :: "log_os \<Rightarrow> (nat \<Rightarrow> string) \<Rightarrow> string \<Rightarrow> logger \<times> device \<Rightarrow> logger \<times> device" where
  "LOGERROR os dates buf = write_log os dates buf ''ERROR:::''"
definition LOGFATAL :: "log_os \<Rightarrow> (nat \<Rightarrow> string) \<Rightarrow> string \<Rightarrow> logger \<times> device \<Rightarrow> logger \<times> device" where
  "LOGFATAL os dates buf = write_log os dates buf ''FATAL:::''"
definition LOGMETRICS :: "log_os \<Rightarrow> (nat \<Rightarrow> string) \<Rightarrow> string \<Rightarrow> string \<Rightarrow> logger \<times> device \<Rightarrow> logger \<times> device" where
  "LOGMETRICS os dates metricType metricJson = write_log os dates (metricType @ '' ::: '' @ metricJson) ''METRICS:::''"
definition OUTSIDELOG :: "log_os \<Rightarrow> (nat \<Rightarrow> string) \<Rightarrow> string \<Rightarrow> logger \<times> device \<Rightarrow> logger \<times> device" where
  "OUTSIDELOG os dates buf = write_log os dates buf ''OUTSIDE:::''"

section \<open>Set-up\<close>

definition init_logger :: "log_os \<Rightarrow> int \<Rightarrow> string \<Rightarrow> logger \<times> device \<Rightarrow> bool \<times> logger \<times> device" where
  "init_logger os now logDir = (\<lambda>(l, d).
     let l1 = l\<lparr>lg_logDirectory := logDir\<rparr> in
     if \<not> os_directory os logDir then (False, l1, d)
     else let l2 = l1\<lparr>lg_writeFile := logDir @ ''/latest.txt'',
                     lg_lastLogTime := now - 2 * lg_timer_interval l1 * 10 ^ 9\<rparr>;
              (l3, d1) = open_log os (l2, d) in
          if \<not> lg_open l3 then (False, l3, d1)
          else (True, l3\<lparr>lg_config := (lg_config l3)\<lparr>lc_secretKey := defaultSecretKey\<rparr>\<rparr>, d1))"

definition update_device_details :: "string \<Rightarrow> string \<Rightarrow> bool \<Rightarrow> logger \<Rightarrow> logger" where
  "update_device_details deviceId clientId debug l =
     l\<lparr>lg_config := (lg_config l)\<lparr>lc_deviceId := deviceId, lc_clientId := clientId\<rparr>, lg_isDebug := debug\<rparr>"

definition update_log_config :: "string \<Rightarrow> int \<Rightarrow> string \<Rightarrow> logger \<Rightarrow> logger" where
  "update_log_config secretKey time_interval logUrl l =
     l\<lparr>lg_config := (lg_config l)\<lparr>lc_secretKey := (if secretKey \<noteq> [] then secretKey else lc_secretKey (lg_config l)),
        lc_host := logUrl\<rparr>, lg_timer_interval := time_interval\<rparr>"

section \<open>Uploading\<close>

definition log_entry :: "logging_config \<Rightarrow> string \<Rightarrow> json" where
  "log_entry c line = jobject [(''deviceID'', JString (lc_deviceId c)), (''message'', JString line),
     (''logType'', JString (logType line)), (''service'', JString ''nimbleSDK''), (''clientId'', JString (lc_clientId c)),
     (''ddsource'', JString PLATFORM), (''ddtags'', JString ''env:nimblepoc,version:1.0'')]"

definition log_headers :: "logging_config \<Rightarrow> json" where
  "log_headers c = jobject [(''Content-Type'', JString ''application/json''), (''DD-API-KEY'', JString (lc_secretKey c)),
     (''Accept'', JString ''application/json'')]"

definition logs_request :: "logging_config \<Rightarrow> string list \<Rightarrow> log_request" where
  "logs_request c logs = \<lparr>lq_host = lc_host c, lq_headers = log_headers c, lq_body = JArray (map (log_entry c) logs)\<rparr>"

definition remove_log :: "log_os \<Rightarrow> string \<Rightarrow> server_api \<Rightarrow> server_api" where
  "remove_log os path s = s\<lparr>sa_device := remove_file os path (sa_device s)\<rparr>"

definition send_logs ::
  "platform \<Rightarrow> log_os \<Rightarrow> logging_config \<Rightarrow> string list \<Rightarrow> string \<Rightarrow> server_api \<Rightarrow> (bool \<times> server_api) outcome" where
  "send_logs pf os c processed_logs logfilePath s =
     (if processed_logs = [] then Inr (True, remove_log os logfilePath s)
      else ubind (upload_logs pf (logs_request c processed_logs) s) (\<lambda>(didSend, s1).
        Inr (didSend, if didSend then remove_log os logfilePath s1 else s1)))"

text \<open>The regular files of the directory, and the first one \<open>readdir\<close> gives that is not \<open>latest.txt\<close>.\<close>

definition log_names :: "string \<Rightarrow> device \<Rightarrow> string list" where
  "log_names logDirectory d =
     (let pre = logDirectory @ ''/'' in
      map (drop (length pre)) (filter (\<lambda>p. take (length pre) p = pre \<and> drop (length pre) p \<noteq> [] \<and>
        CHR ''/'' \<notin> set (drop (length pre) p))
        (smap_keys (dv_files d))))"

definition getNewFileToSendLog :: "log_os \<Rightarrow> string \<Rightarrow> device \<Rightarrow> string" where
  "getNewFileToSendLog os logDirectory d =
     (case find (\<lambda>n. n \<noteq> ''latest.txt'') (os_readdir os logDirectory (log_names logDirectory d)) of
        Some n \<Rightarrow> if n = [] then [] else logDirectory @ ''/'' @ n
      | None \<Rightarrow> [])"

definition read_logs :: "device \<Rightarrow> string \<Rightarrow> string list" where
  "read_logs d path = (case smap_find (dv_files d) path of None \<Rightarrow> [] | Some text \<Rightarrow> processLogs text)"

text \<open>\<open>now\<close> and \<open>now'\<close> are the clock at the beginning and at the end; \<open>date\<close> is used when \<open>latest.txt\<close> is rotated.\<close>

definition send_pending_logs ::
  "platform \<Rightarrow> log_os \<Rightarrow> string \<Rightarrow> int \<Rightarrow> int \<Rightarrow> bool \<Rightarrow> logger \<times> server_api \<Rightarrow> (logger \<times> server_api) outcome" where
  "send_pending_logs pf os date now now' initComplete = (\<lambda>(l, s).
     let send = (\<lambda>path (l, s).
           ubind (send_logs pf os (lg_config l) (read_logs (sa_device s) path) path s) (\<lambda>(didSend, s').
             Inr (l\<lparr>lg_lastLogTime := now'\<rparr>, s')))
     in
     if \<not> (lg_timer_interval l < (now - lg_lastLogTime l) sdiv 10 ^ 9) then Inr (l, s)
     else let path = getNewFileToSendLog os (lg_logDirectory l) (sa_device s) in
          if path = [] then
            (if \<not> lg_open l then Inr (l, s)
             else if \<not> initComplete \<or> MIN_LOG_FILE_SIZE_BYTES < lg_position l then
               (case rotate_log os date (l, sa_device s) of (l1, d1) \<Rightarrow>
                  send (rotated_name l date) (l1, s\<lparr>sa_device := d1\<rparr>))
             else Inr (l, s))
          else send path (l, s))"

end
