(* ===== verification/Logger_Contract.thy ===== *)
theory Logger_Contract
  imports Logger Server_Api_Contract
begin

text \<open>
  What the logger promises: a line is read back as it was written, the current file
  stays below 500 KB, a file disappears only after the server has acknowledged its
  lines, and the rotated files are all sent in the end.
\<close>

section \<open>Lines\<close>

definition one_line :: "string \<Rightarrow> bool" where
  "one_line s = (CHR 0x0A \<notin> set s)"

definition complete :: "string \<Rightarrow> bool" where
  "complete str = (str = [] \<or> last str = CHR 0x0A)"

lemma getlines_token: "one_line s \<Longrightarrow> getlines tok (s @ CHR 0x0A # rest) = (tok @ s) # getlines [] rest"
  by (induction s arbitrary: tok) (auto simp: one_line_def)

lemma getlines_complete:
  "complete str \<Longrightarrow> str \<noteq> [] \<or> tok = [] \<Longrightarrow> getlines tok (str @ rest) = getlines tok str @ getlines [] rest"
proof (induction tok str rule: getlines.induct)
  case (2 tok c cs)
  show ?case
  proof (cases "c = CHR 0x0A")
    case True
    with 2 show ?thesis by (cases cs) (auto simp: complete_def)
  next
    case False
    with "2.prems" have "cs \<noteq> []" "complete cs" by (auto simp: complete_def split: if_splits)
    with False "2.IH"(2) show ?thesis by simp
  qed
qed simp

definition line_text :: "string \<Rightarrow> string \<Rightarrow> string \<Rightarrow> string" where
  "line_text type date message = type @ '' '' @ date @ '' ::: '' @ message"

lemma log_line_text: "log_line type date message = line_text type date message @ [CHR 0x0A]"
  by (simp add: log_line_def line_text_def)

lemma one_line_text [simp]:
  "one_line (line_text type date message) \<longleftrightarrow> one_line type \<and> one_line date \<and> one_line message"
  by (auto simp: one_line_def line_text_def)

lemma processLogs_line:
  assumes "complete str" "one_line (line_text type date message)"
  shows "processLogs (str @ log_line type date message) = processLogs str @ [line_text type date message]"
proof -
  have "getlines [] (str @ log_line type date message) = getlines [] str @ getlines [] (log_line type date message)"
    using getlines_complete [OF assms(1), of "[]"] by simp
  then show ?thesis using getlines_token [OF assms(2), of "[]" "[]"]
    by (simp add: processLogs_def log_line_text)
qed

lemma complete_line [simp]: "complete (str @ log_line type date message)"
  by (simp add: complete_def log_line_def)

lemma getlines_Nil: "getlines tok str = [] \<longleftrightarrow> tok = [] \<and> str = []"
  by (induction tok str rule: getlines.induct) auto

lemma processLogs_Nil [simp]: "processLogs str = [] \<longleftrightarrow> str = []"
  by (simp add: processLogs_def getlines_Nil)

lemma logType_separator: "CHR '':'' \<notin> set t \<Longrightarrow> logType (t @ '':::'' @ rest) = t"
  by (induction t) (auto simp: take_Cons')

section \<open>Files\<close>

lemma rotated_name_fresh [simp]: "rotated_name l date \<noteq> lg_logDirectory l @ ''/latest.txt''"
  by (simp add: rotated_name_def)

lemmas rotated_name_fresh' [simp] = rotated_name_fresh [symmetric]

lemma file_text_append [simp]: "file_text (append_file p t d) q = (if q = p then file_text d p @ t else file_text d q)"
  by (simp add: file_text_def append_file_def smap_at_def)

lemma find_append: "smap_find (dv_files (append_file p t d)) q = (if q = p then Some (file_text d p @ t) else smap_find (dv_files d) q)"
  by (simp add: append_file_def)

lemma find_rename:
  assumes "new \<noteq> old"
  shows "smap_find (dv_files (rename_file os old new d)) q =
    (if smap_find (dv_files d) old = None \<or> \<not> os_rename os old new then smap_find (dv_files d) q
     else if q = new then smap_find (dv_files d) old else if q = old then None else smap_find (dv_files d) q)"
  using assms by (auto simp: rename_file_def split: option.split)

lemma find_remove:
  "smap_find (dv_files (remove_file os p d)) q = (if os_remove os p \<and> q = p then None else smap_find (dv_files d) q)"
  by (simp add: remove_file_def)

lemma open_log_find:
  assumes "open_log os (l, d) = (l', d')"
  shows "smap_find (dv_files d') q =
      (if os_fopen os (lg_writeFile l) \<and> q = lg_writeFile l \<and> smap_find (dv_files d) q = None then Some [] else smap_find (dv_files d) q)"
    "lg_writeFile l' = lg_writeFile l" "lg_logDirectory l' = lg_logDirectory l" "lg_open l' = os_fopen os (lg_writeFile l)"
    "lg_config l' = lg_config l" "lg_timer_interval l' = lg_timer_interval l" "lg_lastLogTime l' = lg_lastLogTime l"
    "dv_sent d' = dv_sent d" "dv_home d' = dv_home d"
  using assms by (auto simp: open_log_def smap_ensure_def smap_has_def split: if_splits)

lemma rename_sel [simp]: "dv_sent (rename_file os old new d) = dv_sent d" "dv_home (rename_file os old new d) = dv_home d"
  by (simp_all add: rename_file_def split: option.split)

section \<open>Writing\<close>

text \<open>An open logger writes \<open>latest.txt\<close> of its directory.\<close>

definition logger_ok :: "logger \<Rightarrow> bool" where
  "logger_ok l = (lg_open l \<and> lg_writeFile l = lg_logDirectory l @ ''/latest.txt'')"

abbreviation current_log :: "logger \<times> device \<Rightarrow> string" where
  "current_log ld \<equiv> file_text (snd ld) (lg_writeFile (fst ld))"

lemma rotation_due_small: "0 \<le> n \<Longrightarrow> n \<le> 2 ^ 24 \<Longrightarrow> rotation_due n \<longleftrightarrow> 512000 < n"
  by (simp add: rotation_due_def f32_small MAX_LOG_FILE_SIZE_IN_KB_def MAX_BYTES_IN_KB_def)

lemma write_log_short:
  assumes "logger_ok l" "int (length (current_log (l, d) @ log_line type (dates 0) message)) \<le> 512000"
  obtains l' d' where "write_log os dates message type (l, d) = (l', d')" "logger_ok l'" "lg_writeFile l' = lg_writeFile l"
    "current_log (l', d') = current_log (l, d) @ log_line type (dates 0) message"
  using assms
  by (intro that [of "l\<lparr>lg_position := int (length (current_log (l, d) @ log_line type (dates 0) message))\<rparr>"
        "append_file (lg_writeFile l) (log_line type (dates 0) message) d"])
    (simp_all add: write_log_def logger_ok_def Let_def rotation_due_small)

lemma write_log_long:
  assumes "logger_ok l" "512000 < int (length (current_log (l, d) @ log_line type (dates 0) message))"
    and "int (length (current_log (l, d) @ log_line type (dates 0) message)) \<le> 2 ^ 24"
    and "\<And>p q. os_rename os p q" "\<And>p. os_fopen os p"
  obtains l' d' where "write_log os dates message type (l, d) = (l', d')" "logger_ok l'"
    "current_log (l', d') = []"
    "file_text d' (rotated_name l (dates 1)) = current_log (l, d) @ log_line type (dates 0) message"
proof -
  let ?text = "current_log (l, d) @ log_line type (dates 0) message"
  let ?d1 = "append_file (lg_writeFile l) (log_line type (dates 0) message) d"
  let ?l1 = "l\<lparr>lg_position := int (length ?text)\<rparr>"
  let ?d2 = "rename_file os (lg_writeFile l) (rotated_name l (dates 1)) ?d1"
  obtain l' d' where o: "open_log os (?l1, ?d2) = (l', d')" by fastforce
  have fresh: "rotated_name l (dates 1) \<noteq> lg_writeFile l" using assms(1) by (simp add: logger_ok_def)
  have w: "write_log os dates message type (l, d) = (l', d')"
    using assms(1-3) o by (simp add: write_log_def logger_ok_def Let_def rotation_due_small rotate_log_def rotated_name_def)
  have "smap_find (dv_files d') (lg_writeFile l) = Some []"
    "smap_find (dv_files d') (rotated_name l (dates 1)) = Some ?text"
    using open_log_find(1) [OF o] fresh assms(4,5) by (simp_all add: find_rename find_append)
  then have texts: "file_text d' (lg_writeFile l) = []" "file_text d' (rotated_name l (dates 1)) = ?text"
    by (simp_all add: file_text_def smap_at_def)
  have "lg_writeFile l' = lg_writeFile l" "lg_logDirectory l' = lg_logDirectory l" "lg_open l'"
    using open_log_find [OF o] assms(5) by simp_all
  with assms(1) texts show thesis by (intro that [OF w]) (simp_all add: logger_ok_def)
qed

text \<open>A run of calls, each with its clock readings, message and type.\<close>

definition write_all :: "log_os \<Rightarrow> ((nat \<Rightarrow> string) \<times> string \<times> string) list \<Rightarrow> logger \<times> device \<Rightarrow> logger \<times> device" where
  "write_all os ws = fold (\<lambda>(dates, message, type). write_log os dates message type) ws"

definition written_line :: "(nat \<Rightarrow> string) \<times> string \<times> string \<Rightarrow> string" where
  "written_line = (\<lambda>(dates, message, type). line_text type (dates 0) message)"

lemma write_all_lines:
  assumes "logger_ok l" "complete (current_log (l, d))" "\<forall>w \<in> set ws. one_line (written_line w)"
    and "int (length (current_log (l, d)) + sum_list (map (\<lambda>w. Suc (length (written_line w))) ws)) \<le> 512000"
  shows "logger_ok (fst (write_all os ws (l, d))) \<and>
    processLogs (current_log (write_all os ws (l, d))) = processLogs (current_log (l, d)) @ map written_line ws"
  using assms
proof (induction ws arbitrary: l d)
  case (Cons w ws)
  obtain dates message type where w: "w = (dates, message, type)" by (cases w)
  have len: "length (log_line type (dates 0) message) = Suc (length (written_line w))"
    by (simp add: w written_line_def log_line_text)
  obtain l' d' where l': "write_log os dates message type (l, d) = (l', d')" "logger_ok l'"
    "current_log (l', d') = current_log (l, d) @ log_line type (dates 0) message"
  proof (rule write_log_short [where os = os and dates = dates and message = message and type = type and d = d, OF Cons.prems(1)])
    show "int (length (current_log (l, d) @ log_line type (dates 0) message)) \<le> 512000"
      using Cons.prems(4) len by (simp add: w)
  qed
  have "processLogs (current_log (l', d')) = processLogs (current_log (l, d)) @ [written_line w]"
    unfolding l'(3) using processLogs_line [OF Cons.prems(2), of type "dates 0" message] Cons.prems(3)
    by (simp add: w written_line_def)
  moreover have "complete (current_log (l', d'))" unfolding l'(3) by simp
  moreover have "int (length (current_log (l', d')) + sum_list (map (\<lambda>w. Suc (length (written_line w))) ws)) \<le> 512000"
    unfolding l'(3) using Cons.prems(4) len by simp
  ultimately show ?case using Cons.IH [of l' d'] l' Cons.prems(3) by (simp add: write_all_def w)
qed (simp add: write_all_def)


text \<open>C32: when files can be renamed and opened, \<open>latest.txt\<close> never has more than 500 KB
  after a call, and a call that would exceed them leaves the whole text in the
  rotated file.
\<close>
theorem current_log_bounded:
  assumes "logger_ok l" "int (length (current_log (l, d) @ log_line type (dates 0) message)) \<le> 2 ^ 24"
    and "\<And>p q. os_rename os p q" "\<And>p. os_fopen os p"
    and "write_log os dates message type (l, d) = (l', d')"
  shows "logger_ok l' \<and> int (length (current_log (l', d'))) \<le> 512000 \<and>
    (current_log (l', d') = current_log (l, d) @ log_line type (dates 0) message \<or>
     file_text d' (rotated_name l (dates 1)) = current_log (l, d) @ log_line type (dates 0) message)"
proof (cases "int (length (current_log (l, d) @ log_line type (dates 0) message)) \<le> 512000")
  case True
  then show ?thesis
    using write_log_short [where dates = dates and os = os, OF assms(1) True] assms(5) by fastforce
next
  case False
  then have "512000 < int (length (current_log (l, d) @ log_line type (dates 0) message))" by simp
  from write_log_long [where dates = dates and os = os, OF assms(1) this assms(2-4)] show ?thesis
    using assms(5) by fastforce
qed

section \<open>Uploading\<close>

definition upload_request :: "platform \<Rightarrow> log_request \<Rightarrow> net_request" where
  "upload_request pf q = \<lparr>nr_body = pf_dump pf (lq_body q), nr_headers = pf_dump pf (lq_headers q),
     nr_url = lq_host q, nr_method = ''POST''\<rparr>"

text \<open>The lines of \<open>str\<close> were the only request, and the server accepted them.\<close>

definition acknowledged :: "platform \<Rightarrow> logging_config \<Rightarrow> string \<Rightarrow> server_api \<Rightarrow> server_api \<Rightarrow> bool" where
  "acknowledged pf c str s s' =
     (let r = upload_request pf (logs_request c (processLogs str)) in
      sent s' = sent s @ [r] \<and> cr_statusCode (pf_net pf (length (sent s)) r) = 202)"

lemma api_send_status:
  "api_send pf s r = (resp, t) \<Longrightarrow> cr_statusCode resp = cr_statusCode (pf_net pf (length (sent s)) r)"
  by (auto simp: api_send_def send_request_def network_response_def sent_def split: option.splits)

lemma upload_result:
  assumes "upload_logs pf q s = Inr (ok, t)"
  shows "sent t = sent s @ [upload_request pf q]" "dv_files (sa_device t) = dv_files (sa_device s)"
    "ok = (cr_statusCode (pf_net pf (length (sent s)) (upload_request pf q)) = 202)"
proof -
  obtain resp s1 where a: "api_send pf s (upload_request pf q) = (resp, s1)" by fastforce
  show "sent t = sent s @ [upload_request pf q]" "dv_files (sa_device t) = dv_files (sa_device s)"
    "ok = (cr_statusCode (pf_net pf (length (sent s)) (upload_request pf q)) = 202)"
    using assms a api_send_result [OF a] api_send_status [OF a]
    by (auto simp: upload_logs_def upload_request_def ubind_Inr_iff)
qed

lemma remove_log_sel [simp]: "sent (remove_log os path s) = sent s"
  by (simp add: remove_log_def remove_file_def sent_def)

lemma remove_log_find:
  "smap_find (dv_files (sa_device (remove_log os path s))) q =
    (if os_remove os path \<and> q = path then None else smap_find (dv_files (sa_device s)) q)"
  by (simp add: remove_log_def find_remove)

lemma send_logs_keeps:
  assumes "send_logs pf os c (read_logs (sa_device s) path) path s = Inr (ok, s')"
    and "smap_find (dv_files (sa_device s)) p = Some str" "str \<noteq> []"
  shows "smap_find (dv_files (sa_device s')) p = Some str \<or> p = path \<and> acknowledged pf c str s s'"
proof (cases "read_logs (sa_device s) path = []")
  case True
  then have "p \<noteq> path" using assms(2,3) by (auto simp: read_logs_def)
  with assms(1,2) True show ?thesis by (auto simp: send_logs_def remove_log_find)
next
  case False
  then obtain s1 where u: "upload_logs pf (logs_request c (read_logs (sa_device s) path)) s = Inr (ok, s1)"
    and s': "s' = (if ok then remove_log os path s1 else s1)"
    using assms(1) by (auto simp: send_logs_def ubind_Inr_iff)
  note r = upload_result [OF u]
  show ?thesis
  proof (cases "ok \<and> p = path")
    case True
    then have "read_logs (sa_device s) path = processLogs str" using assms(2) by (simp add: read_logs_def)
    with True r s' show ?thesis by (simp add: acknowledged_def Let_def)
  next
    case False
    then show ?thesis using assms(2) r(2) s' by (auto simp: remove_log_find)
  qed
qed

text \<open>The three ways a call goes: not due or nothing to send, a rotated file, the current file.\<close>

lemma send_pending_cases:
  assumes "send_pending_logs pf os date now now' initComplete (l, s) = Inr (l', s')"
  obtains (idle) "l' = l" "s' = s"
  | (pending) path ok where "path = getNewFileToSendLog os (lg_logDirectory l) (sa_device s)" "path \<noteq> []"
      "send_logs pf os (lg_config l) (read_logs (sa_device s) path) path s = Inr (ok, s')" "l' = l\<lparr>lg_lastLogTime := now'\<rparr>"
      "lg_timer_interval l < (now - lg_lastLogTime l) sdiv 10 ^ 9"
  | (rotated) l1 d1 ok where "getNewFileToSendLog os (lg_logDirectory l) (sa_device s) = []" "lg_open l"
      "rotate_log os date (l, sa_device s) = (l1, d1)"
      "send_logs pf os (lg_config l1) (read_logs d1 (rotated_name l date)) (rotated_name l date) (s\<lparr>sa_device := d1\<rparr>) = Inr (ok, s')"
      "l' = l1\<lparr>lg_lastLogTime := now'\<rparr>" "lg_timer_interval l < (now - lg_lastLogTime l) sdiv 10 ^ 9"
proof (cases "lg_timer_interval l < (now - lg_lastLogTime l) sdiv 10 ^ 9")
  case due: True
  let ?path = "getNewFileToSendLog os (lg_logDirectory l) (sa_device s)"
  show thesis
  proof (cases "?path = []")
    case False
    with assms due show thesis
      by (auto simp: send_pending_logs_def Let_def ubind_Inr_iff intro: pending)
  next
    case True
    obtain l1 d1 where r: "rotate_log os date (l, sa_device s) = (l1, d1)" by fastforce
    show thesis
    proof (cases "lg_open l \<and> (\<not> initComplete \<or> MIN_LOG_FILE_SIZE_BYTES < lg_position l)")
      case go: True
      with assms due True r obtain ok where
        "send_logs pf os (lg_config l1) (read_logs d1 (rotated_name l date)) (rotated_name l date) (s\<lparr>sa_device := d1\<rparr>) = Inr (ok, s')"
        "l' = l1\<lparr>lg_lastLogTime := now'\<rparr>"
        by (auto simp: send_pending_logs_def Let_def ubind_Inr_iff split: if_splits)
      with rotated True go r due show thesis by blast
    next
      case False
      with assms due True idle show thesis by (auto simp: send_pending_logs_def Let_def split: if_splits)
    qed
  qed
qed (use assms idle in \<open>simp add: send_pending_logs_def Let_def\<close>)

lemma rotate_log_result:
  assumes "rotate_log os date (l, d) = (l', d')" "logger_ok l"
  shows "smap_find (dv_files d) p = Some str \<Longrightarrow> smap_find (dv_files d) (rotated_name l date) = None \<Longrightarrow>
      smap_find (dv_files d') p = Some str \<or> p = lg_writeFile l \<and> smap_find (dv_files d') (rotated_name l date) = Some str"
    "lg_writeFile l' = lg_writeFile l" "lg_logDirectory l' = lg_logDirectory l" "lg_config l' = lg_config l"
    "lg_timer_interval l' = lg_timer_interval l" "dv_sent d' = dv_sent d" "lg_open l' = os_fopen os (lg_writeFile l)"
proof -
  let ?d1 = "rename_file os (lg_writeFile l) (rotated_name l date) d"
  have fresh: "rotated_name l date \<noteq> lg_writeFile l" using assms(2) by (simp add: logger_ok_def)
  have o: "open_log os (l, ?d1) = (l', d')" using assms(1) by (simp add: rotate_log_def)
  note r = open_log_find [OF o]
  show "lg_writeFile l' = lg_writeFile l" "lg_logDirectory l' = lg_logDirectory l" "lg_config l' = lg_config l"
    "lg_timer_interval l' = lg_timer_interval l" "dv_sent d' = dv_sent d" "lg_open l' = os_fopen os (lg_writeFile l)"
    using r by simp_all
  show "smap_find (dv_files d') p = Some str \<or> p = lg_writeFile l \<and> smap_find (dv_files d') (rotated_name l date) = Some str"
    if "smap_find (dv_files d) p = Some str" "smap_find (dv_files d) (rotated_name l date) = None"
    using that fresh r(1) by (auto simp: find_rename)
qed


text \<open>two rotations in the same millisecond get the same file name: the rename
  replaces the first rotated file, whose lines are then nowhere on the device and
  were never sent.
\<close>
theorem rotation_collision_loses_log:
  assumes "logger_ok l" "smap_find (dv_files d) (rotated_name l date) = Some old" "old \<noteq> []"
    and "smap_find (dv_files d) (lg_writeFile l) = Some str" "str \<noteq> old"
    and "\<forall>q. smap_find (dv_files d) q = Some old \<longrightarrow> q = rotated_name l date"
    and "os_rename os (lg_writeFile l) (rotated_name l date)" "rotate_log os date (l, d) = (l', d')"
  shows "(\<forall>q. smap_find (dv_files d') q \<noteq> Some old) \<and> dv_sent d' = dv_sent d"
proof -
  have o: "open_log os (l, rename_file os (lg_writeFile l) (rotated_name l date) d) = (l', d')"
    using assms(8) by (simp add: rotate_log_def)
  have "rotated_name l date \<noteq> lg_writeFile l" using assms(1) by (simp add: logger_ok_def)
  then show ?thesis using open_log_find(1,8) [OF o] assms(3-7) by (auto simp: find_rename)
qed

section \<open>All rotated files are sent in the end\<close>

definition pending_files :: "logger \<Rightarrow> device \<Rightarrow> string list" where
  "pending_files l d = filter (\<lambda>n. n \<noteq> ''latest.txt'') (log_names (lg_logDirectory l) d)"

lemma log_names_iff:
  "n \<in> set (log_names dir d) \<longleftrightarrow> n \<noteq> [] \<and> CHR ''/'' \<notin> set n \<and> smap_find (dv_files d) (dir @ ''/'' @ n) \<noteq> None"
proof -
  have "take (length (dir @ ''/'')) p = dir @ ''/'' \<longleftrightarrow> (\<exists>n. p = dir @ ''/'' @ n)" for p
    by (metis append_assoc append_eq_conv_conj append_take_drop_id)
  then show ?thesis
    by (auto simp: log_names_def Let_def smap_has_iff [symmetric] smap_has_def image_iff)
qed

lemma pending_iff:
  "n \<in> set (pending_files l d) \<longleftrightarrow>
    n \<noteq> [] \<and> n \<noteq> ''latest.txt'' \<and> CHR ''/'' \<notin> set n \<and> smap_find (dv_files d) (lg_logDirectory l @ ''/'' @ n) \<noteq> None"
  by (auto simp: pending_files_def log_names_iff)

definition listing_ok :: "log_os \<Rightarrow> bool" where
  "listing_ok os = (\<forall>dir ns. set (os_readdir os dir ns) = set ns)"

lemma new_file_none: "listing_ok os \<Longrightarrow> pending_files l d = [] \<Longrightarrow> getNewFileToSendLog os (lg_logDirectory l) d = []"
  by (auto simp: getNewFileToSendLog_def listing_ok_def pending_files_def filter_empty_conv find_Some_iff split: option.split)
    (metis nth_mem)

lemma new_file_some:
  assumes "listing_ok os" "pending_files l d \<noteq> []"
  obtains n where "n \<in> set (pending_files l d)" "getNewFileToSendLog os (lg_logDirectory l) d = lg_logDirectory l @ ''/'' @ n"
proof -
  let ?ns = "os_readdir os (lg_logDirectory l) (log_names (lg_logDirectory l) d)"
  have names: "set ?ns = set (log_names (lg_logDirectory l) d)" using assms(1) by (simp add: listing_ok_def)
  then have "find (\<lambda>n. n \<noteq> ''latest.txt'') ?ns \<noteq> None"
    using assms(2) by (auto simp: find_None_iff pending_files_def filter_empty_conv)
  then obtain n where n: "find (\<lambda>n. n \<noteq> ''latest.txt'') ?ns = Some n" by auto
  then have "n \<in> set ?ns" "n \<noteq> ''latest.txt''" by (auto simp: find_Some_iff)
  then have "n \<in> set (pending_files l d)" using names by (simp add: pending_files_def)
  moreover from this have "n \<noteq> []" by (simp add: pending_iff)
  ultimately show thesis using n by (intro that) (simp_all add: getNewFileToSendLog_def)
qed

definition accepting :: "platform \<Rightarrow> bool" where
  "accepting pf = (\<forall>k r. cr_statusCode (pf_net pf k r) = 202 \<and> (\<exists>b. body_string (network_response (pf_net pf k r)) = Inr b))"

definition cooperative :: "log_os \<Rightarrow> bool" where
  "cooperative os = (listing_ok os \<and> (\<forall>p q. os_rename os p q) \<and> (\<forall>p. os_fopen os p \<and> os_remove os p))"

lemma send_logs_accepted:
  assumes "accepting pf" "cooperative os"
  obtains s' where "send_logs pf os c logs path s = Inr (True, s')"
    "\<And>q. smap_find (dv_files (sa_device s')) q = (if q = path then None else smap_find (dv_files (sa_device s)) q)"
proof (cases "logs = []")
  case True
  then show thesis using assms(2) that [of "remove_log os path s"]
    by (simp add: send_logs_def remove_log_find cooperative_def)
next
  case False
  have "\<exists>s1. upload_logs pf q s = Inr (True, s1)" for q
  proof -
    let ?k = "length (dv_sent (sa_device s))"
    obtain b where "body_string (network_response (pf_net pf ?k (upload_request pf q))) = Inr b"
      "cr_statusCode (network_response (pf_net pf ?k (upload_request pf q))) = 202"
      using assms(1) by (fastforce simp: accepting_def network_response_def split: option.splits)
    then show ?thesis by (simp add: upload_logs_def api_send_def send_request_def upload_request_def)
  qed
  then obtain s1 where u: "upload_logs pf (logs_request c logs) s = Inr (True, s1)" by meson
  show thesis
    using that [of "remove_log os path s1"] u upload_result [OF u] False assms(2)
    by (simp add: send_logs_def remove_log_find cooperative_def)
qed

lemma rotate_log_pending:
  assumes "rotate_log os date (l, d) = (l1, d1)" "logger_ok l" "cooperative os" "n \<in> set (pending_files l1 d1)"
    and "lg_logDirectory l @ ''/'' @ n \<noteq> rotated_name l date"
  shows "n \<in> set (pending_files l d)"
proof -
  let ?p = "lg_logDirectory l @ ''/'' @ n"
  have o: "open_log os (l, rename_file os (lg_writeFile l) (rotated_name l date) d) = (l1, d1)"
    using assms(1) by (simp add: rotate_log_def)
  note r = open_log_find [OF o]
  have n: "n \<noteq> []" "n \<noteq> ''latest.txt''" "CHR ''/'' \<notin> set n" "smap_find (dv_files d1) ?p \<noteq> None"
    using assms(4) r(3) by (simp_all add: pending_iff)
  have "?p \<noteq> lg_writeFile l" using n(2) assms(2) by (simp add: logger_ok_def)
  then have "smap_find (dv_files d) ?p \<noteq> None"
    using n(4) r(1) assms(2,5) by (auto simp: find_rename logger_ok_def split: if_splits)
  with n show ?thesis by (simp add: pending_iff)
qed

text \<open>A round never adds a rotated file; a due round with a rotated file removes one.\<close>

lemma send_pending_step:
  assumes "accepting pf" "cooperative os" "logger_ok l"
  obtains l' s' where "send_pending_logs pf os date now now' initComplete (l, s) = Inr (l', s')" "logger_ok l'"
    "lg_logDirectory l' = lg_logDirectory l" "lg_timer_interval l' = lg_timer_interval l"
    "set (pending_files l' (sa_device s')) \<subseteq> set (pending_files l (sa_device s))"
    "lg_timer_interval l < (now - lg_lastLogTime l) sdiv 10 ^ 9 \<Longrightarrow> pending_files l (sa_device s) \<noteq> [] \<Longrightarrow>
      set (pending_files l' (sa_device s')) \<subset> set (pending_files l (sa_device s)) \<and> lg_lastLogTime l' = now'"
proof -
  let ?due = "lg_timer_interval l < (now - lg_lastLogTime l) sdiv 10 ^ 9"
  let ?path = "getNewFileToSendLog os (lg_logDirectory l) (sa_device s)"
  have listing: "listing_ok os" using assms(2) by (simp add: cooperative_def)
  show thesis
  proof (cases "?due \<and> pending_files l (sa_device s) \<noteq> []")
    case True
    then obtain n where n: "n \<in> set (pending_files l (sa_device s))" "?path = lg_logDirectory l @ ''/'' @ n"
      using new_file_some [OF listing] by metis
    obtain s' where s': "send_logs pf os (lg_config l) (read_logs (sa_device s) ?path) ?path s = Inr (True, s')"
      "\<And>q. smap_find (dv_files (sa_device s')) q = (if q = ?path then None else smap_find (dv_files (sa_device s)) q)"
      using send_logs_accepted [OF assms(1,2)] by metis
    let ?l' = "l\<lparr>lg_lastLogTime := now'\<rparr>"
    have run: "send_pending_logs pf os date now now' initComplete (l, s) = Inr (?l', s')"
      using True s'(1) n(2) by (simp add: send_pending_logs_def)
    have "set (pending_files ?l' (sa_device s')) = set (pending_files l (sa_device s)) - {n}"
      using n(2) by (auto simp: pending_iff s'(2) split: if_splits)
    then show thesis using n(1) assms(3) by (intro that [OF run]) (auto simp: logger_ok_def)
  next
    case False
    show thesis
    proof (cases "?due")
      case due: True
      then have none: "pending_files l (sa_device s) = []" using False by simp
      then have path: "?path = []" using new_file_none [OF listing] by blast
      obtain l1 d1 where r: "rotate_log os date (l, sa_device s) = (l1, d1)" by fastforce
      obtain s' where s': "send_logs pf os (lg_config l1) (read_logs d1 (rotated_name l date)) (rotated_name l date) (s\<lparr>sa_device := d1\<rparr>) = Inr (True, s')"
        "\<And>q. smap_find (dv_files (sa_device s')) q = (if q = rotated_name l date then None else smap_find (dv_files d1) q)"
      proof (rule send_logs_accepted [OF assms(1,2), of "lg_config l1" "read_logs d1 (rotated_name l date)" "rotated_name l date"
            "s\<lparr>sa_device := d1\<rparr>"])
        fix s' assume a: "send_logs pf os (lg_config l1) (read_logs d1 (rotated_name l date)) (rotated_name l date) (s\<lparr>sa_device := d1\<rparr>) = Inr (True, s')"
          and b: "\<And>q. smap_find (dv_files (sa_device s')) q =
            (if q = rotated_name l date then None else smap_find (dv_files (sa_device (s\<lparr>sa_device := d1\<rparr>))) q)"
        show thesis by (rule that [OF a]) (simp add: b)
      qed
      note k = rotate_log_result(2-7) [OF r assms(3)]
      show thesis
      proof (cases "\<not> initComplete \<or> MIN_LOG_FILE_SIZE_BYTES < lg_position l")
        case go: True
        let ?l' = "l1\<lparr>lg_lastLogTime := now'\<rparr>"
        have run: "send_pending_logs pf os date now now' initComplete (l, s) = Inr (?l', s')"
          using due path go r s'(1) assms(3) by (simp add: send_pending_logs_def logger_ok_def)
        have ok: "logger_ok ?l'" using k assms(2,3) by (simp add: logger_ok_def cooperative_def)
        have "False" if "n \<in> set (pending_files ?l' (sa_device s'))" for n
        proof -
          have "n \<in> set (pending_files l1 d1)" "lg_logDirectory l @ ''/'' @ n \<noteq> rotated_name l date"
            using that k(2) by (auto simp: pending_iff s'(2) split: if_splits)
          from rotate_log_pending [OF r assms(3,2) this] none show False by simp
        qed
        then have "pending_files ?l' (sa_device s') = []" by (meson last_in_set)
        then show thesis using ok k none by (intro that [OF run]) simp_all
      next
        case False
        then have "send_pending_logs pf os date now now' initComplete (l, s) = Inr (l, s)"
          using due path assms(3) by (simp add: send_pending_logs_def logger_ok_def)
        from that [OF this] show thesis using assms(3) none by simp
      qed
    next
      case idle: False
      then have "send_pending_logs pf os date now now' initComplete (l, s) = Inr (l, s)"
        by (simp add: send_pending_logs_def)
      from that [OF this] show thesis using assms(3) idle by simp
    qed
  qed
qed

text \<open>Rounds of the background loop, each later than the last by more than the interval.\<close>

fun spaced :: "int \<Rightarrow> int \<Rightarrow> (string \<times> int \<times> int) list \<Rightarrow> bool" where
  "spaced interval before [] = True"
| "spaced interval before ((date, now, now') # rounds) =
     (interval < (now - before) sdiv 10 ^ 9 \<and> spaced interval now' rounds)"

definition upload_rounds ::
  "platform \<Rightarrow> log_os \<Rightarrow> (string \<times> int \<times> int) list \<Rightarrow> logger \<times> server_api \<Rightarrow> (logger \<times> server_api) outcome" where
  "upload_rounds pf os = ufold (\<lambda>(date, now, now'). send_pending_logs pf os date now now' True)"

lemma upload_rounds_drain:
  assumes "accepting pf" "cooperative os" "logger_ok l"
    and "pending_files l (sa_device s) = [] \<or> spaced (lg_timer_interval l) (lg_lastLogTime l) rounds"
    and "card (set (pending_files l (sa_device s))) \<le> length rounds"
  shows "\<exists>l' s'. upload_rounds pf os rounds (l, s) = Inr (l', s') \<and> pending_files l' (sa_device s') = []"
  using assms(3-5)
proof (induction rounds arbitrary: l s)
  case (Cons round rounds)
  obtain date now now' where round: "round = (date, now, now')" by (cases round)
  obtain l' s' where step: "send_pending_logs pf os date now now' True (l, s) = Inr (l', s')" "logger_ok l'"
    "lg_timer_interval l' = lg_timer_interval l"
    "set (pending_files l' (sa_device s')) \<subseteq> set (pending_files l (sa_device s))"
    "lg_timer_interval l < (now - lg_lastLogTime l) sdiv 10 ^ 9 \<Longrightarrow> pending_files l (sa_device s) \<noteq> [] \<Longrightarrow>
      set (pending_files l' (sa_device s')) \<subset> set (pending_files l (sa_device s)) \<and> lg_lastLogTime l' = now'"
    using send_pending_step [OF assms(1,2) Cons.prems(1)] by metis
  have "\<exists>l2 s2. upload_rounds pf os rounds (l', s') = Inr (l2, s2) \<and> pending_files l2 (sa_device s2) = []"
  proof (cases "pending_files l (sa_device s) = []")
    case True
    then have "pending_files l' (sa_device s') = []" using step(4) by simp
    with step(2) show ?thesis by (intro Cons.IH) simp_all
  next
    case False
    then have "set (pending_files l' (sa_device s')) \<subset> set (pending_files l (sa_device s)) \<and> lg_lastLogTime l' = now'"
      "spaced (lg_timer_interval l') now' rounds"
      using Cons.prems(2) step(3,5) by (auto simp: round)
    moreover from this have "card (set (pending_files l' (sa_device s'))) < card (set (pending_files l (sa_device s)))"
      by (intro psubset_card_mono) simp_all
    ultimately show ?thesis using Cons.prems(3) step(2) by (intro Cons.IH) simp_all
  qed
  then show ?case using step(1) by (simp add: upload_rounds_def round)
qed (simp add: upload_rounds_def)


section \<open>An example\<close>

definition demo_os :: log_os where
  "demo_os = \<lparr>os_directory = (\<lambda>d. True), os_fopen = (\<lambda>p. True), os_rename = (\<lambda>p q. True), os_remove = (\<lambda>p. True),
     os_readdir = (\<lambda>dir ns. ns)\<rparr>"

definition demo_log :: logger where
  "demo_log = new_logger\<lparr>lg_logDirectory := ''/logs'', lg_writeFile := ''/logs/latest.txt'', lg_open := True\<rparr>"

definition demo_log_device :: device where
  "demo_log_device = \<lparr>dv_home = ''/home/'',
     dv_files = smap_of [(''/logs/latest.txt'', []), (''/logs/log1.txt'', ''DEBUG::: d ::: m'')], dv_sent = []\<rparr>"

definition demo_log_server :: server_api where
  "demo_log_server = new_server_api demo_log_device"

definition log_server :: "int \<Rightarrow> platform" where
  "log_server status = demo_platform\<lparr>pf_net := (\<lambda>k r. \<lparr>cr_statusCode = status, cr_body = Some [], cr_bodyLength = 0\<rparr>)\<rparr>"

lemma demo_log_ok [simp]: "logger_ok demo_log"
  by (simp add: demo_log_def logger_ok_def)

lemma demo_cooperative [simp]: "cooperative demo_os"
  by (simp add: cooperative_def demo_os_def listing_ok_def)

lemma demo_accepting [simp]: "accepting (log_server 202)"
  by (simp add: accepting_def log_server_def network_response_def body_string_def)


lemma current_log_bounded_witness:
  "\<exists>l' d'. write_log demo_os (\<lambda>k. ''d'') ''m'' ''INFO:::'' (demo_log, demo_log_device) = (l', d') \<and> int (length (current_log (l', d'))) \<le> 512000"
proof -
  obtain l' d' where w: "write_log demo_os (\<lambda>k. ''d'') ''m'' ''INFO:::'' (demo_log, demo_log_device) = (l', d')" by fastforce
  have "int (length (current_log (demo_log, demo_log_device) @ log_line ''INFO:::'' ''d'' ''m'')) \<le> 2 ^ 24"
    by (simp add: demo_log_def demo_log_device_def file_text_def smap_at_def smap_find_of log_line_def)
  from current_log_bounded [where dates = "\<lambda>k. ''d''", OF demo_log_ok this _ _ w] w show ?thesis by (simp add: demo_os_def)
qed


lemma rotation_collision_loses_log_witness:
  "\<forall>q. smap_find (dv_files (snd (rotate_log demo_os ''1'' (demo_log, demo_log_device)))) q \<noteq> Some ''DEBUG::: d ::: m''"
proof -
  obtain l' d' where r: "rotate_log demo_os ''1'' (demo_log, demo_log_device) = (l', d')" by fastforce
  have "smap_find (dv_files demo_log_device) q = (if q = ''/logs/latest.txt'' then Some [] else if q = ''/logs/log1.txt'' then Some ''DEBUG::: d ::: m'' else None)" for q
    by (simp add: demo_log_device_def smap_find_of)
  then show ?thesis
    using rotation_collision_loses_log [OF demo_log_ok, of demo_log_device "''1''" "''DEBUG::: d ::: m''" "[]" demo_os l' d'] r
    by (simp add: rotated_name_def demo_log_def demo_os_def)
qed


end
