(* ===== verification/Secret_Generator.thy ===== *)
theory Secret_Generator
  imports Logger
begin

text \<open>
  \<open>scripts/secretGenerator.cpp\<close>: the tool that turns a key into the numbers
  \<open>LoggingConfig\<close> of \<open>Logger.h\<close> is compiled with.  A key is a command-line argument, so
  it has no \<open>NUL\<close>.
\<close>

text \<open>\<open>*((int64_t*)&secretKey[i * 8])\<close>: eight bytes in memory order.\<close>

definition bytes_value :: "string \<Rightarrow> int" where
  "bytes_value bs = foldr (\<lambda>b a. of_char b + 256 * a) bs 0"

definition read_int64 :: "string \<Rightarrow> nat \<Rightarrow> int" where
  "read_int64 key i = cast_signed 64 (bytes_value (take 8 (drop (i * 8) key)))"

definition secret_numbers :: "string \<Rightarrow> int list" where
  "secret_numbers secretKey = map (read_int64 secretKey) [0..<length secretKey div 8]"

text \<open>The copy the tool prints to check itself: a buffer of 32 bytes, read as a C string.\<close>

definition secret_check :: "int list \<Rightarrow> string outcome" where
  "secret_check numbers =
     (let bytes = concat (map int64_bytes numbers); n = int (length bytes) in
      if 32 < n then Inl (Out_Of_Bounds n)
      else if char_of (0 :: nat) \<in> set bytes then Inr (takeWhile (\<lambda>c. c \<noteq> char_of (0 :: nat)) bytes)
      else if n < 32 then Inl Indeterminate else Inl (Out_Of_Bounds 32))"

definition secretGenerator :: "string \<Rightarrow> (int list \<times> string outcome) option" where
  "secretGenerator secretKey =
     (if length secretKey mod 8 \<noteq> 0 then None
      else Some (secret_numbers secretKey, secret_check (secret_numbers secretKey)))"

section \<open>Facts\<close>

lemma bytes_value_digits:
  "k < length bs \<Longrightarrow> ((bytes_value bs + 256 ^ length bs * m) div 256 ^ k) mod 256 = of_char (bs ! k)"
proof (induction bs arbitrary: k)
  case (Cons b bs)
  let ?x = "bytes_value bs + 256 ^ length bs * m"
  have x: "bytes_value (b # bs) + 256 ^ length (b # bs) * m = of_char b + 256 * ?x"
    by (simp add: bytes_value_def algebra_simps)
  have int: "(of_char b :: int) = int (of_char b)" by (rule of_nat_of_char [symmetric])
  have b: "0 \<le> (of_char b :: int)" "(of_char b :: int) < 256"
    unfolding int using nat_of_char_less_256 [of b] by linarith+
  show ?case
  proof (cases k)
    case 0
    have "(of_char b + 256 * ?x) mod 256 = of_char b" using b by (simp only: mod_mult_self2 mod_pos_pos_trivial)
    with 0 show ?thesis by (simp only: x power_0 div_by_1 nth_Cons_0)
  next
    case (Suc j)
    have "y div 256 ^ k = y div 256 div 256 ^ j" for y :: int unfolding Suc power_Suc by (rule zdiv_zmult2_eq) simp
    moreover have "(of_char b + 256 * ?x) div 256 = ?x" using b by simp
    ultimately have "(of_char b + 256 * ?x) div 256 ^ k = ?x div 256 ^ j" by presburger
    then have "(bytes_value (b # bs) + 256 ^ length (b # bs) * m) div 256 ^ k = ?x div 256 ^ j" unfolding x .
    moreover have "?x div 256 ^ j mod 256 = of_char (bs ! j)" using Cons.IH [of j] Cons.prems Suc by simp
    ultimately show ?thesis using Suc by simp
  qed
qed simp

lemma int64_bytes_read:
  assumes "length bs = 8"
  shows "int64_bytes (cast_signed 64 (bytes_value bs)) = bs"
proof -
  obtain m where m: "cast_signed 64 (bytes_value bs) = bytes_value bs + 256 ^ 8 * m"
  proof -
    have "cast_signed 64 x = x + 256 ^ 8 * (- (x div 2 ^ 64) - (if x mod 2 ^ 64 < 2 ^ 63 then 0 else 1))" for x
      by (simp add: cast_signed_def Let_def minus_div_mult_eq_mod [symmetric] algebra_simps)
    then show ?thesis using that by blast
  qed
  show ?thesis
  proof (rule nth_equalityI)
    show "length (int64_bytes (cast_signed 64 (bytes_value bs))) = length bs" using assms by (simp add: int64_bytes_def)
  next
    fix k assume "k < length (int64_bytes (cast_signed 64 (bytes_value bs)))"
    then have "k < 8" by (simp add: int64_bytes_def)
    then show "int64_bytes (cast_signed 64 (bytes_value bs)) ! k = bs ! k"
      using bytes_value_digits [of k bs m] assms by (simp add: int64_bytes_def m)
  qed
qed

lemma concat_chunks: "length xs = 8 * n \<Longrightarrow> concat (map (\<lambda>i. take 8 (drop (i * 8) xs)) [0..<n]) = xs"
proof (induction n arbitrary: xs)
  case (Suc n)
  have "map (\<lambda>i. take 8 (drop (i * 8) xs)) [0..<Suc n] = take 8 xs # map (\<lambda>i. take 8 (drop (i * 8) (drop 8 xs))) [0..<n]"
    by (simp add: upt_conv_Cons map_Suc_upt [symmetric] add.commute del: upt_Suc)
  with Suc.IH [of "drop 8 xs"] Suc.prems show ?case by simp
qed simp

section \<open>Properties\<close>

text \<open>the logger built with the numbers the tool prints has exactly the given key as
  its default key; but the tool's own check of the result never prints it: it reads
  memory that was never set, or reads or writes beyond its buffer.
\<close>
theorem secret_key_roundtrip:
  assumes "secretGenerator secretKey = Some (numbers, printed)"
  shows "concat (map int64_bytes numbers) = secretKey \<and>
    (char_of (0 :: nat) \<notin> set secretKey \<longrightarrow> \<not> (\<exists>str. printed = Inr str))"
proof -
  have s: "numbers = secret_numbers secretKey" "printed = secret_check numbers" "8 * (length secretKey div 8) = length secretKey"
    using assms by (auto simp: secretGenerator_def split: if_splits)
  have "int64_bytes (read_int64 secretKey i) = take 8 (drop (i * 8) secretKey)" if "i < length secretKey div 8" for i
  proof -
    have "i * 8 + 8 \<le> length secretKey" using that s(3) by simp
    then show ?thesis unfolding read_int64_def by (intro int64_bytes_read) simp
  qed
  then have "map int64_bytes numbers = map (\<lambda>i. take 8 (drop (i * 8) secretKey)) [0..<length secretKey div 8]"
    by (simp add: s(1) secret_numbers_def)
  then have "concat (map int64_bytes numbers) = secretKey" using concat_chunks [of secretKey "length secretKey div 8"] s(3) by simp
  then show ?thesis by (simp add: s(2) secret_check_def Let_def)
qed

lemma secret_key_roundtrip_witness:
  "\<exists>numbers printed. secretGenerator ''abcdefgh'' = Some (numbers, printed) \<and> concat (map int64_bytes numbers) = ''abcdefgh''"
proof -
  obtain numbers printed where "secretGenerator ''abcdefgh'' = Some (numbers, printed)" by (simp add: secretGenerator_def)
  with secret_key_roundtrip [OF this] show ?thesis by blast
qed

end
