(* ===== verification/Command_Center.thy ===== *)
theory Command_Center
  imports Resource_Manager Logger
begin

text \<open>
  \<open>nimblenet/CommandCenter\<close> and the entry points of \<open>nimblenet.cpp\<close>: the start of the
  SDK, the calls of the client, and one pass of the background loop.

  The managers \<open>initialize\<close> creates are the record \<open>sdk\<close>, absent before; the static
  state of \<open>ServerAPI\<close>, with the device, moves into it.  The global \<open>logger\<close> of
  \<open>nimblenet.cpp\<close> is the field \<open>ce_logger\<close>.  The record \<open>world\<close> collects the
  parameters of the components, \<open>ticks\<close> what the clocks and the platform say during
  one call.  The background thread and the client do not run at the same time here.
\<close>

section \<open>State\<close>

record cloud_config =
  cg_logKey :: string
  cg_metricsKey :: string
  cg_logUrl :: string
  cg_logTimeInterval :: int
  cg_metricsTimeInterval :: int
  cg_metricsCollectionInterval :: int

definition METRICS_TIMER_INTERVAL_IN_SECONDS :: int where "METRICS_TIMER_INTERVAL_IN_SECONDS = 5"
definition METRICS_COLLECTION_TIME_INTERVAL_IN_SECONDS :: int where "METRICS_COLLECTION_TIME_INTERVAL_IN_SECONDS = 20"
definition DEFAULT_THREAD_SLEEP_TIME_MICROSECONDS :: int where "DEFAULT_THREAD_SLEEP_TIME_MICROSECONDS = 1000000"
definition PINGMETRIC :: string where "PINGMETRIC = ''pingTime''"
definition INFERENCEMETRIC :: string where "INFERENCEMETRIC = ''inference''"
definition DYNAMICDEVICEMETRICS :: string where "DYNAMICDEVICEMETRICS = ''dynamicDevice''"

definition default_cloud_config :: cloud_config where
  "default_cloud_config = \<lparr>cg_logKey = [], cg_metricsKey = [], cg_logUrl = DEFAULT_UPLOAD_LOGS_URL,
     cg_logTimeInterval = LOG_TIMER_INTERVAL_IN_SECONDS, cg_metricsTimeInterval = METRICS_TIMER_INTERVAL_IN_SECONDS,
     cg_metricsCollectionInterval = METRICS_COLLECTION_TIME_INTERVAL_IN_SECONDS\<rparr>"

record ('f, 'd, 'db, 's) command_center =
  ce_config :: config
  ce_initializeSuccess :: bool
  ce_inferenceCount :: int
  ce_cloudConfig :: cloud_config
  ce_cloudConfigSet :: bool
  ce_metricsAgent :: logger
  ce_lastMetricTime :: int
  ce_inferenceStartMap :: "(string, int) smap"
  ce_cloudConfigFetchRetries :: int
  ce_sdk :: "('f, 'd, 'db, 's) sdk option"
  ce_server :: server_api
  ce_logger :: logger

record ('f, 'd, 'db, 's) world =
  wd_platform :: platform
  wd_onnx :: "('f, 'd, 'db, 's) onnx_env"
  wd_os :: log_os
  wd_db :: 'db

record ticks =
  tk_now :: "nat \<Rightarrow> int"
  tk_seconds :: int
  tk_dates :: "nat \<Rightarrow> string"
  tk_row :: "nat \<Rightarrow> nat \<Rightarrow> int"
  tk_table :: "nat \<Rightarrow> int"
  tk_load :: "nat \<Rightarrow> nat \<Rightarrow> load_clock"
  tk_query :: "nat \<Rightarrow> nat \<Rightarrow> int \<Rightarrow> int"
  tk_metrics :: "string option"

definition new_command_center :: "int \<Rightarrow> device \<Rightarrow> ('f, 'd, 'db, 's) command_center" where
  "new_command_center now d = \<lparr>ce_config = new_config, ce_initializeSuccess = False, ce_inferenceCount = 0,
     ce_cloudConfig = default_cloud_config, ce_cloudConfigSet = False, ce_metricsAgent = new_logger,
     ce_lastMetricTime = now - 2 * METRICS_COLLECTION_TIME_INTERVAL_IN_SECONDS * 10 ^ 9,
     ce_inferenceStartMap = [], ce_cloudConfigFetchRetries = DEFAULT_FETCH_CLOUD_CONFIG_RETRIES,
     ce_sdk = None, ce_server = new_server_api d, ce_logger = new_logger\<rparr>"

definition center_server :: "('f, 'd, 'db, 's) command_center \<Rightarrow> server_api" where
  "center_server cc = (case ce_sdk cc of Some s \<Rightarrow> sd_server s | None \<Rightarrow> ce_server cc)"

definition set_server :: "server_api \<Rightarrow> ('f, 'd, 'db, 's) command_center \<Rightarrow> ('f, 'd, 'db, 's) command_center" where
  "set_server sv cc = (case ce_sdk cc of
     Some s \<Rightarrow> cc\<lparr>ce_sdk := Some (s\<lparr>sd_server := sv\<rparr>)\<rparr>
   | None \<Rightarrow> cc\<lparr>ce_server := sv\<rparr>)"

section \<open>Metrics\<close>

text \<open>A call of a logger on the device.\<close>

definition with_metrics ::
  "(logger \<times> device \<Rightarrow> logger \<times> device) \<Rightarrow> ('f, 'd, 'db, 's) command_center \<Rightarrow> ('f, 'd, 'db, 's) command_center" where
  "with_metrics f cc =
     (case f (ce_metricsAgent cc, sa_device (center_server cc)) of (l, d) \<Rightarrow>
        set_server ((center_server cc)\<lparr>sa_device := d\<rparr>) (cc\<lparr>ce_metricsAgent := l\<rparr>))"

definition log_metrics ::
  "('f, 'd, 'db, 's) world \<Rightarrow> (nat \<Rightarrow> string) \<Rightarrow> string \<Rightarrow> json \<Rightarrow> ('f, 'd, 'db, 's) command_center \<Rightarrow> ('f, 'd, 'db, 's) command_center" where
  "log_metrics w dates metricType metric =
     with_metrics (LOGMETRICS (wd_os w) dates metricType (pf_dump (wd_platform w) metric))"

definition cc_write_log ::
  "('f, 'd, 'db, 's) world \<Rightarrow> (nat \<Rightarrow> string) \<Rightarrow> string \<Rightarrow> ('f, 'd, 'db, 's) command_center \<Rightarrow> ('f, 'd, 'db, 's) command_center" where
  "cc_write_log w dates line cc =
     (if \<not> ce_initializeSuccess cc then cc else with_metrics (OUTSIDELOG (wd_os w) dates line) cc)"

definition write_metric ::
  "('f, 'd, 'db, 's) world \<Rightarrow> (nat \<Rightarrow> string) \<Rightarrow> string \<Rightarrow> string \<Rightarrow> ('f, 'd, 'db, 's) command_center \<Rightarrow> ('f, 'd, 'db, 's) command_center" where
  "write_metric w dates metricType metricJson cc =
     (if \<not> ce_initializeSuccess cc then cc else with_metrics (LOGMETRICS (wd_os w) dates metricType metricJson) cc)"

definition get_metrics ::
  "('f, 'd, 'db, 's) world \<Rightarrow> ticks \<Rightarrow> ('f, 'd, 'db, 's) command_center \<Rightarrow> ('f, 'd, 'db, 's) command_center" where
  "get_metrics w t cc =
     (if (tk_now t 0 - ce_lastMetricTime cc) sdiv 10 ^ 9 < cg_metricsCollectionInterval (ce_cloudConfig cc) then cc
      else case tk_metrics t of
        None \<Rightarrow> cc
      | Some metrics \<Rightarrow>
          (with_metrics (LOGMETRICS (wd_os w) (tk_dates t) DYNAMICDEVICEMETRICS metrics) cc)\<lparr>ce_lastMetricTime := tk_now t 1\<rparr>)"

text \<open>\<open>send_pending_logs\<close> of the metrics and of the log.\<close>

definition send_metrics ::
  "('f, 'd, 'db, 's) world \<Rightarrow> ticks \<Rightarrow> bool \<Rightarrow> ('f, 'd, 'db, 's) command_center \<Rightarrow> ('f, 'd, 'db, 's) command_center outcome" where
  "send_metrics w t initComplete cc =
     ubind (send_pending_logs (wd_platform w) (wd_os w) (tk_dates t 2) (tk_now t 2) (tk_now t 3) initComplete
              (ce_metricsAgent cc, center_server cc)) (\<lambda>(l, sv). Inr (set_server sv (cc\<lparr>ce_metricsAgent := l\<rparr>)))"

definition send_log ::
  "('f, 'd, 'db, 's) world \<Rightarrow> ticks \<Rightarrow> bool \<Rightarrow> ('f, 'd, 'db, 's) command_center \<Rightarrow> ('f, 'd, 'db, 's) command_center outcome" where
  "send_log w t initComplete cc =
     ubind (send_pending_logs (wd_platform w) (wd_os w) (tk_dates t 3) (tk_now t 4) (tk_now t 5) initComplete
              (ce_logger cc, center_server cc)) (\<lambda>(l, sv). Inr (set_server sv (cc\<lparr>ce_logger := l\<rparr>)))"

section \<open>The configuration of the cloud\<close>

text \<open>\<open>metricsCollectionInterval\<close> is not copied.\<close>

definition apply_cloud_config :: "cloud_response \<Rightarrow> ('f, 'd, 'db, 's) command_center \<Rightarrow> ('f, 'd, 'db, 's) command_center" where
  "apply_cloud_config r cc =
     (let g = (ce_cloudConfig cc)\<lparr>cg_logKey := cl_logKey r, cg_metricsKey := cl_metricsKey r, cg_logUrl := cl_logUrl r,
                cg_logTimeInterval := cl_logTimeInterval r, cg_metricsTimeInterval := cl_metricsTimeInterval r\<rparr> in
      cc\<lparr>ce_cloudConfig := g,
         ce_logger := update_log_config (cg_logKey g) (cg_logTimeInterval g) (cg_logUrl g) (ce_logger cc),
         ce_metricsAgent := update_log_config (cg_metricsKey g) (cg_metricsTimeInterval g) (cg_logUrl g) (ce_metricsAgent cc),
         ce_cloudConfigSet := True\<rparr>)"

definition set_cloud_config ::
  "('f, 'd, 'db, 's) world \<Rightarrow> ticks \<Rightarrow> ('f, 'd, 'db, 's) command_center \<Rightarrow> ('f, 'd, 'db, 's) command_center outcome" where
  "set_cloud_config w t cc =
     (if ce_cloudConfigSet cc then Inr cc
      else if ce_cloudConfigFetchRetries cc = 0 then Inr cc
      else let cc1 = cc\<lparr>ce_cloudConfigFetchRetries := ce_cloudConfigFetchRetries cc - 1\<rparr>;
               micros = (tk_now t 7 - tk_now t 6) sdiv 1000 in
        ubind (get_cloud_config (wd_platform w) micros DEFAULT_AUTH_ERROR_RETRIES (center_server cc1)) (\<lambda>(r, sv).
          let cc2 = log_metrics w (\<lambda>k. tk_dates t (4 + k)) PINGMETRIC
                      (jobject [(''pingTime'', JInt (cl_timeInMicros r))]) (set_server sv cc1) in
          if br_status (cl_base r) \<noteq> SUCCESS then Inr cc2 else Inr (apply_cloud_config r cc2)))"

section \<open>Start\<close>

text \<open>The devices' plans and features: what does not load is skipped.\<close>

definition load_from_device ::
  "('f, 'd, 'db, 's) world \<Rightarrow> ticks \<Rightarrow> config \<Rightarrow> ('f, 'd, 'db, 's) sdk \<Rightarrow> ('f, 'd, 'db, 's) sdk outcome" where
  "load_from_device w t config s =
     ubind (ufold (\<lambda>(i, modelId) s. ubind (load_plan_from_device (wd_platform w) (wd_onnx w) (tk_load t i) modelId s)
              (\<lambda>(ok, s'). Inr s')) (enumerate 0 (cf_modelIds config)) s)
       (ufold (\<lambda>featureName s. ubind (load_feature_from_device (wd_platform w) (tk_seconds t) featureName s)
              (\<lambda>(ok, s'). Inr s')) (cf_featureStores config))"

definition create_managers ::
  "('f, 'd, 'db, 's) world \<Rightarrow> ticks \<Rightarrow> config \<Rightarrow> server_api \<Rightarrow> ('f, 'd, 'db, 's) sdk outcome" where
  "create_managers w t config sv =
     ubind (new_executor config) (\<lambda>ex.
     ubind (new_user_events (oe_sql (wd_onnx w)) (tk_table t) (wd_db w) (cf_tableInfos config) (cf_debug config)) (\<lambda>ue.
       Inr \<lparr>sd_config = config, sd_server = sv, sd_executor = ex,
            sd_features = new_feature_store_manager (cf_featureStores config), sd_events = ue\<rparr>))"

text \<open>\<open>busy\<close>: another thread holds \<open>_initMutex\<close>.\<close>

definition cc_initialize ::
  "('f, 'd, 'db, 's) world \<Rightarrow> ticks \<Rightarrow> bool \<Rightarrow> config \<Rightarrow> ('f, 'd, 'db, 's) command_center
    \<Rightarrow> (int \<times> ('f, 'd, 'db, 's) command_center) outcome" where
  "cc_initialize w t busy config cc =
     (if busy then Inr (0, cc)
      else if ce_initializeSuccess cc then Inr (1, cc)
      else let cc1 = cc\<lparr>ce_config := config\<rparr> in
        if \<not> cf_valid config then Inr (0, cc1)
        else let sv = center_server cc1;
                 (ok, l, d) = init_logger (wd_os w) (tk_now t 0) (dv_home (sa_device sv) @ ''/metrics'') (ce_metricsAgent cc1, sa_device sv);
                 l' = update_device_details (cf_deviceId config) (cf_clientId config) False l in
          ubind (create_managers w t config (sv\<lparr>sa_device := d\<rparr>)) (\<lambda>s.
          ubind (load_from_device w t config s) (\<lambda>s'.
            Inr (1, cc1\<lparr>ce_metricsAgent := l', ce_sdk := Some s', ce_initializeSuccess := True\<rparr>))))"

definition initialize_nimblenet ::
  "('f, 'd, 'db, 's) world \<Rightarrow> ticks \<Rightarrow> bool \<Rightarrow> string \<Rightarrow> string \<Rightarrow> ('f, 'd, 'db, 's) command_center
    \<Rightarrow> (int \<times> ('f, 'd, 'db, 's) command_center) outcome" where
  "initialize_nimblenet w t busy configJson homeDirectory cc =
     (case init_logger (wd_os w) (tk_now t 1) (homeDirectory @ ''/logs'') (ce_logger cc, sa_device (center_server cc)) of
        (initLogger, l, d) \<Rightarrow>
          let cc1 = set_server ((center_server cc)\<lparr>sa_device := d\<rparr>) (cc\<lparr>ce_logger := l\<rparr>) in
          if \<not> initLogger then Inr (0, cc1)
          else let cc2 = set_server ((center_server cc1)\<lparr>sa_device := (sa_device (center_server cc1))\<lparr>dv_home := homeDirectory\<rparr>\<rparr>) cc1 in
            ubind (load_user_config (pf_parse (wd_platform w)) configJson) (\<lambda>config.
              if \<not> cf_valid config then Inr (0, cc2)
              else cc_initialize w t busy config (cc2\<lparr>ce_logger :=
                     update_device_details (cf_deviceId config) (cf_clientId config) (cf_debug config) (ce_logger cc2)\<rparr>)))"

section \<open>Calls of the client\<close>

definition exit_inference ::
  "('f, 'd, 'db, 's) world \<Rightarrow> ticks \<Rightarrow> string \<Rightarrow> string \<Rightarrow> bool \<Rightarrow> ('f, 'd, 'db, 's) command_center \<Rightarrow> ('f, 'd, 'db, 's) command_center outcome" where
  "exit_inference w t modelId inferId inferenceSuccess cc =
     (if \<not> ce_initializeSuccess cc then Inr cc
      else case ce_sdk cc of
        None \<Rightarrow> Inl Dangling
      | Some s \<Rightarrow>
          let cc1 = cc\<lparr>ce_inferenceStartMap := smap_ensure 0 inferId (ce_inferenceStartMap cc)\<rparr>;
              duration = (tk_now t 1 - smap_at 0 (ce_inferenceStartMap cc1) inferId) sdiv 1000;
              infermetric = jobject [(''inferenceId'', JString inferId), (''inferenceCount'', JInt (ce_inferenceCount cc)),
                (''uTime'', JInt duration), (''modelId'', JString modelId),
                (''modelVersion'', JString (get_plan_version (sd_executor s) modelId)),
                (''success'', JString (bool_str inferenceSuccess)), (''source'', JString ''cpp'')] in
          Inr (log_metrics w (tk_dates t) INFERENCEMETRIC infermetric cc1))"

definition cc_get_inference ::
  "('f, 'd, 'db, 's) world \<Rightarrow> ticks \<Rightarrow> string \<Rightarrow> onnx_request \<Rightarrow> string \<Rightarrow> ('f, 'd, 'db, 's) command_center
    \<Rightarrow> (int \<times> inference_return option \<times> ('f, 'd, 'db, 's) command_center) outcome" where
  "cc_get_inference w t modelId req inferId cc =
     (if \<not> ce_initializeSuccess cc then Inr (TERMINAL_ERROR, None, cc)
      else case ce_sdk cc of
        None \<Rightarrow> Inl Dangling
      | Some s \<Rightarrow>
          let cc1 = cc\<lparr>ce_inferenceStartMap := smap_put inferId (tk_now t 0) (ce_inferenceStartMap cc)\<rparr> in
          ubind (signed_result 32 (ce_inferenceCount cc1 + 1)) (\<lambda>n.
          ubind (executor_get_inference (wd_onnx w) (cf_debug (ce_config cc)) (tk_query t) (sd_features s) inferId modelId req
                   (sd_executor s) (sd_events s)) (\<lambda>r.
            let cc2 = cc1\<lparr>ce_inferenceCount := n,
                  ce_sdk := Some (s\<lparr>sd_executor := er_executor r, sd_events := er_events r\<rparr>)\<rparr> in
            if er_status r \<noteq> SUCCESS
            then ubind (exit_inference w t modelId inferId False cc2) (\<lambda>cc3. Inr (er_status r, er_return r, cc3))
            else Inr (er_status r, er_return r, cc2))))"

definition internet_switched_on :: "('f, 'd, 'db, 's) command_center \<Rightarrow> ('f, 'd, 'db, 's) command_center" where
  "internet_switched_on cc =
     (if \<not> ce_initializeSuccess cc then cc
      else let cc1 = cc\<lparr>ce_sdk := map_option (\<lambda>s. s\<lparr>sd_executor := fold reset_model_retries (cf_modelIds (ce_config cc)) (sd_executor s)\<rparr>) (ce_sdk cc)\<rparr> in
        (set_server (reset_register_retries (center_server cc1)) cc1)\<lparr>ce_cloudConfigFetchRetries := DEFAULT_FETCH_CLOUD_CONFIG_RETRIES\<rparr>)"

definition add_user_event ::
  "('f, 'd, 'db, 's) world \<Rightarrow> ticks \<Rightarrow> string \<Rightarrow> string \<Rightarrow> ('f, 'd, 'db, 's) command_center
    \<Rightarrow> (bool \<times> ('f, 'd, 'db, 's) command_center) outcome" where
  "add_user_event w t eventMapJsonString tableName cc =
     (if \<not> ce_initializeSuccess cc then Inr (False, cc)
      else case ce_sdk cc of
        None \<Rightarrow> Inl Dangling
      | Some s \<Rightarrow>
          ubind (add_event (oe_sql (wd_onnx w)) (oe_float (wd_onnx w)) (tk_row t) (tk_now t 0) (tk_now t 1) (sd_events s)
                   eventMapJsonString tableName) (\<lambda>(ok, ue).
            Inr (ok, cc\<lparr>ce_sdk := Some (s\<lparr>sd_events := ue\<rparr>)\<rparr>)))"

definition cc_get_model_status :: "string \<Rightarrow> ('f, 'd, 'db, 's) command_center \<Rightarrow> (bool \<times> string) option outcome" where
  "cc_get_model_status modelId cc =
     (if \<not> ce_initializeSuccess cc then Inr None
      else case ce_sdk cc of None \<Rightarrow> Inl Dangling | Some s \<Rightarrow> Inr (get_model_status (sd_executor s) modelId))"

text \<open>This call has no guard: before the initialisation it follows a null pointer.\<close>

definition cc_get_inputs_for_inferId ::
  "('f, 'd, 'db, 's) world \<Rightarrow> string \<Rightarrow> ('f, 'd, 'db, 's) command_center \<Rightarrow> ('f, 'd) saved_input list option outcome" where
  "cc_get_inputs_for_inferId w inferId cc =
     (case ce_sdk cc of None \<Rightarrow> Inl Dangling | Some s \<Rightarrow> get_inputs_for_inferId (wd_onnx w) inferId (sd_executor s))"

section \<open>The background loop\<close>

definition on_sdk ::
  "(('f, 'd, 'db, 's) sdk \<Rightarrow> ('f, 'd, 'db, 's) sdk outcome) \<Rightarrow> ('f, 'd, 'db, 's) command_center \<Rightarrow> ('f, 'd, 'db, 's) command_center outcome" where
  "on_sdk f cc = (case ce_sdk cc of
     None \<Rightarrow> Inl Dangling
   | Some s \<Rightarrow> ubind (f s) (\<lambda>s'. Inr (cc\<lparr>ce_sdk := Some s'\<rparr>)))"

definition update_resources ::
  "('f, 'd, 'db, 's) world \<Rightarrow> ticks \<Rightarrow> config \<Rightarrow> ('f, 'd, 'db, 's) sdk \<Rightarrow> ('f, 'd, 'db, 's) sdk outcome" where
  "update_resources w t config s =
     ubind (ufold (\<lambda>(i, modelId). update_plan_if_required (wd_platform w) (wd_onnx w) (tk_load t i) modelId)
              (enumerate 0 (cf_modelIds config)) s)
       (ufold (update_feature_if_required (wd_platform w) (tk_seconds t)) (cf_featureStores config))"

text \<open>One pass of the loop.\<close>

definition long_running_pass ::
  "('f, 'd, 'db, 's) world \<Rightarrow> ticks \<Rightarrow> bool \<Rightarrow> ('f, 'd, 'db, 's) command_center \<Rightarrow> ('f, 'd, 'db, 's) command_center outcome" where
  "long_running_pass w t initComplete cc =
     ubind (server_init (wd_platform w) (ce_config cc) (center_server cc)) (\<lambda>(ok, sv).
     ubind (set_cloud_config w t (set_server sv cc)) (\<lambda>cc1.
     ubind (on_sdk (update_resources w t (ce_config cc)) cc1) (\<lambda>cc2.
     ubind (send_metrics w t initComplete (get_metrics w t cc2))
       (send_log w t initComplete))))"

text \<open>The first \<open>length ts\<close> passes of \<open>while (1)\<close>.\<close>

definition perform_long_running_tasks ::
  "('f, 'd, 'db, 's) world \<Rightarrow> ticks list \<Rightarrow> ('f, 'd, 'db, 's) command_center \<Rightarrow> ('f, 'd, 'db, 's) command_center outcome" where
  "perform_long_running_tasks w ts = ufold (\<lambda>(i, t). long_running_pass w t (0 < i)) (enumerate 0 ts)"

definition time_to_sleep :: "int \<Rightarrow> int" where
  "time_to_sleep timeTakenInMicros = max 0 (DEFAULT_THREAD_SLEEP_TIME_MICROSECONDS - timeTakenInMicros)"

end
