(* ===== verification/Command_Contract.thy ===== *)
theory Command_Contract
  imports Command_Center Resource_Update Logger_Contract
begin

text \<open>
  What holds of the whole SDK in every state the client and the background loop can
  bring it to, and what the start and the cloud configuration do to the loggers.
\<close>

section \<open>The server state\<close>

lemma version_check_same: "version_check pf q retries s = Inr (v, t) \<Longrightarrow> same_server s t"
  by (auto simp: version_check_def ubind_Inr_iff dest!: decode_state authorised_get_counts)

lemma get_plan_same: "get_plan pf q retries s = Inr (r, t) \<Longrightarrow> same_server s t"
  unfolding get_plan_def by (auto dest: authorised_get_counts)

lemma get_feature_same: "get_feature pf n v retries s = Inr (r, t) \<Longrightarrow> same_server s t"
  unfolding get_feature_def by (auto dest: authorised_get_counts)

lemma feature_version_same: "get_feature_version pf n retries s = Inr (v, t) \<Longrightarrow> same_server s t"
  by (auto simp: get_feature_version_def ubind_Inr_iff dest!: decode_state authorised_get_counts)

lemma cloud_config_same: "get_cloud_config pf micros retries s = Inr (v, t) \<Longrightarrow> same_server s t"
  by (auto simp: get_cloud_config_def ubind_Inr_iff dest!: decode_state authorised_get_counts split: prod.splits)

lemma download_parts_same: "download_parts pf q parts plan s = Inr (e, plan', t) \<Longrightarrow> same_server s t"
proof (induction parts arbitrary: plan s)
  case (Cons part parts)
  obtain r s1 where r: "get_plan pf (q part) DEFAULT_AUTH_ERROR_RETRIES s = Inr (r, s1)"
    using Cons.prems by (auto simp: ubind_Inr_iff)
  show ?case
  proof (cases "cr_statusCode r = SUCCESS")
    case True
    with Cons.prems r obtain plan1 where "download_parts pf q parts plan1 s1 = Inr (e, plan', t)"
      by (auto simp: ubind_Inr_iff)
    from same_server_trans [OF get_plan_same [OF r] Cons.IH [OF this]] show ?thesis .
  qed (use Cons.prems r get_plan_same in auto)
qed simp

lemma download_plan_same: "download_plan pf c m v s = Inr (e, plan, t) \<Longrightarrow> same_server s t"
  by (auto simp: download_plan_def ubind_Inr_iff split: if_splits dest: download_parts_same)

text \<open>A device that stays in its place does not show in the server state.\<close>

definition same_api :: "server_api \<Rightarrow> server_api \<Rightarrow> bool" where
  "same_api s t = (sa_registerRetries t = sa_registerRetries s)"

lemma same_apiI: "same_server s t \<Longrightarrow> same_api s t"
  by (simp add: same_server_def same_api_def)

lemma same_api_simps [simp]: "same_api s s" "same_api s (t\<lparr>sa_device := d\<rparr>) = same_api s t"
  by (simp_all add: same_api_def)

lemma same_api_trans: "same_api s t \<Longrightarrow> same_api t u \<Longrightarrow> same_api s u"
  by (simp add: same_api_def)

section \<open>The resource manager keeps the invariants\<close>

definition sdk_inv :: "('f, 'd, 'db, 's) sdk \<Rightarrow> bool" where
  "sdk_inv s = (executor_inv (sd_executor s) \<and> manager_ok (sd_features s))"

text \<open>A step of the SDK that keeps its configuration, its invariant and the registration retries.\<close>

definition keeps :: "('f, 'd, 'db, 's) sdk \<Rightarrow> ('f, 'd, 'db, 's) sdk \<Rightarrow> bool" where
  "keeps s s' = (sd_config s' = sd_config s \<and> (sdk_inv s \<longrightarrow> sdk_inv s') \<and> same_api (sd_server s) (sd_server s'))"

lemma keeps_refl [simp]: "keeps s s"
  by (simp add: keeps_def)

lemma keeps_trans: "keeps s t \<Longrightarrow> keeps t u \<Longrightarrow> keeps s u"
  by (auto simp: keeps_def intro: same_api_trans)

lemma keeps_fold:
  assumes "\<And>x s s'. f x s = Inr s' \<Longrightarrow> keeps s s'" "ufold f xs s = Inr s'"
  shows "keeps s s'"
  using assms(2)
proof (induction xs arbitrary: s)
  case (Cons x xs)
  then obtain t where t: "f x s = Inr t" "ufold f xs t = Inr s'" by (auto simp: ubind_Inr_iff)
  from keeps_trans [OF assms(1) [OF t(1)] Cons.IH [OF t(2)]] show ?case .
qed simp

lemma executor_inv_updates:
  "executor_inv ex \<Longrightarrow> executor_inv (plan_updated m b ex)"
  "executor_inv ex \<Longrightarrow> executor_inv (update_model_retries m ex)"
  "executor_inv ex \<Longrightarrow> executor_inv (reset_model_retries m ex)"
  "executor_inv ex \<Longrightarrow> executor_inv (snd (can_model_retry m ex))"
  by (auto simp: plan_updated_def update_model_retries_def reset_model_retries_def can_model_retry_def Let_def
      elim: executor_inv_frame split: option.split)

lemma keeps_executor: "(executor_inv (sd_executor s) \<Longrightarrow> executor_inv ex) \<Longrightarrow> keeps s (s\<lparr>sd_executor := ex\<rparr>)"
  by (simp add: keeps_def sdk_inv_def)

lemma keeps_server: "same_api (sd_server s) sv \<Longrightarrow> keeps s (s\<lparr>sd_server := sv\<rparr>)"
  by (simp add: keeps_def sdk_inv_def)

lemma keeps_features: "(manager_ok (sd_features s) \<Longrightarrow> manager_ok fm) \<Longrightarrow> keeps s (s\<lparr>sd_features := fm\<rparr>)"
  by (simp add: keeps_def sdk_inv_def)

lemma install_plan_keeps:
  assumes "install_plan pf E c m p s = Inr (e, s')"
  shows "keeps s s'"
proof -
  obtain ok ex ue where l: "executor_load_plan E c m p (sd_executor s) (sd_events s) = Inr (ok, ex, ue)"
    using assms by (auto simp: install_plan_def Let_def ubind_Inr_iff)
  have "executor_inv (sd_executor s) \<Longrightarrow> executor_inv (plan_updated m b ex)" for b
    using executor_inv_load [OF _ l] executor_inv_updates(1) by blast
  then show ?thesis using assms l
    by (auto simp: install_plan_def Let_def update_executor_def keeps_def sdk_inv_def split: if_splits)
qed

lemma load_plan_keeps:
  assumes "load_plan pf E c m s = Inr (e, s')"
  shows "keeps s s'"
  using assms
proof (cases rule: load_plan_outcomes)
  case (no_answer v sv)
  have "keeps s (s\<lparr>sd_server := sv\<rparr>)" using version_check_same [OF no_answer(1)] by (intro keeps_server same_apiI)
  then show ?thesis unfolding no_answer(3) .
next
  case (same v sv)
  then show ?thesis using version_check_same [OF same(1)] executor_inv_updates(1)
    by (auto simp: update_executor_def keeps_def sdk_inv_def intro: same_apiI)
next
  case (broken v sv plan sv')
  then show ?thesis
    using same_server_trans [OF version_check_same [OF broken(1)] download_plan_same [OF broken(2)]] executor_inv_updates(1)
    by (auto simp: update_executor_def keeps_def sdk_inv_def intro: same_apiI)
next
  case (installed v sv plan sv')
  have "keeps s (s\<lparr>sd_server := sv'\<rparr>)"
    using same_server_trans [OF version_check_same [OF installed(1)] download_plan_same [OF installed(3)]]
    by (intro keeps_server same_apiI)
  from keeps_trans [OF this install_plan_keeps [OF installed(4)]] show ?thesis .
qed

lemma update_plan_keeps:
  assumes "update_plan_if_required pf E c m s = Inr s'"
  shows "keeps s s'"
proof -
  let ?s1 = "s\<lparr>sd_executor := snd (can_model_retry m (sd_executor s))\<rparr>"
  have s1: "keeps s ?s1" by (rule keeps_executor) (rule executor_inv_updates(4))
  show ?thesis
  proof (cases "fst (can_model_retry m (sd_executor s))")
    case True
    then obtain e s2 where l: "load_plan pf E c m ?s1 = Inr (e, s2)" and s': "s' = update_executor (update_model_retries m) s2"
      using assms by (auto simp: update_plan_if_required_def Let_def ubind_Inr_iff split: prod.splits)
    have "keeps s2 s'" unfolding s' update_executor_def by (rule keeps_executor) (rule executor_inv_updates(2))
    from keeps_trans [OF keeps_trans [OF s1 load_plan_keeps [OF l]] this] show ?thesis .
  next
    case False
    then have "s' = ?s1" using assms by (auto simp: update_plan_if_required_def Let_def split: prod.splits)
    with s1 show ?thesis by simp
  qed
qed

lemma load_plan_device_keeps:
  assumes "load_plan_from_device pf E c m s = Inr (ok, s')"
  shows "keeps s s'"
  using assms executor_inv_load
  by (fastforce simp: load_plan_from_device_def ubind_Inr_iff keeps_def sdk_inv_def split: if_splits)

lemma load_feature_device_keeps:
  assumes "load_feature_from_device pf now n s = Inr (ok, s')"
  shows "keeps s s'"
  using assms manager_ok_load
  by (fastforce simp: load_feature_from_device_def ubind_Inr_iff keeps_def sdk_inv_def split: if_splits)

lemma replace_feature_keeps:
  assumes "replace_feature pf n v s = Inr (ok, s')"
  shows "keeps s s'"
proof -
  obtain r sv where r: "get_feature pf n (fr_version v) DEFAULT_AUTH_ERROR_RETRIES (sd_server s) = Inr (r, sv)"
    using assms by (auto simp: replace_feature_def ubind_Inr_iff)
  have "same_api (sd_server s) sv" using get_feature_same [OF r] by (rule same_apiI)
  then show ?thesis using assms r manager_ok_load
    by (fastforce simp: replace_feature_def Let_def ubind_Inr_iff keeps_def sdk_inv_def split: if_splits)
qed

lemma update_feature_keeps:
  fixes s :: "('a, 'b, 'c, 'd) sdk"
  assumes "update_feature_if_required pf now n s = Inr s'"
  shows "keeps s s'"
proof (cases "manager_should_download now (sd_features s) n")
  case True
  obtain v sv where v: "get_feature_version pf n DEFAULT_AUTH_ERROR_RETRIES (sd_server s) = Inr (v, sv)"
    using assms True by (auto simp: update_feature_if_required_def ubind_Inr_iff)
  have s1: "keeps s (s\<lparr>sd_server := sv\<rparr>)" using feature_version_same [OF v] by (intro keeps_server same_apiI)
  show ?thesis
  proof (cases "br_status (fr_base v) = SUCCESS")
    case ok: True
    let ?replace = "\<lambda>previous. if previous \<noteq> fr_version v then replace_feature pf n v (s\<lparr>sd_server := sv\<rparr>)
        else Inr (True, s\<lparr>sd_server := sv\<rparr>)"
    let ?finish = "\<lambda>(go, s2 :: ('a, 'b, 'c, 'd) sdk). if go then Inr (s2\<lparr>sd_features := manager_set_upto_date (sd_features s2) n\<rparr>)
        else Inr s2 :: ('a, 'b, 'c, 'd) sdk outcome"
    have "ubind (manager_get_version (sd_features s) n) (\<lambda>previous. ubind (?replace previous) ?finish) = Inr s'"
      using assms True v ok by (simp add: update_feature_if_required_def Let_def)
    then obtain previous r where r: "?replace previous = Inr r" "?finish r = Inr s'"
      unfolding ubind_Inr_iff by blast
    obtain go s2 where "r = (go, s2)" by fastforce
    with r have u: "?replace previous = Inr (go, s2)" "?finish (go, s2) = Inr s'" by simp_all
    have "keeps (s\<lparr>sd_server := sv\<rparr>) s2"
      using u(1) replace_feature_keeps [of pf n v "s\<lparr>sd_server := sv\<rparr>"] by (auto split: if_splits)
    moreover have "keeps s2 s'" using u(2) by (auto intro!: keeps_features manager_ok_upto_date split: if_splits)
    ultimately show ?thesis using s1 keeps_trans by blast
  next
    case False
    then show ?thesis using assms True v s1 by (simp add: update_feature_if_required_def Let_def)
  qed
qed (use assms in \<open>simp add: update_feature_if_required_def\<close>)

lemma update_resources_keeps:
  assumes "update_resources w t config s = Inr s'"
  shows "keeps s s'"
proof -
  obtain s1 where plans: "ufold (\<lambda>(i, modelId). update_plan_if_required (wd_platform w) (wd_onnx w) (tk_load t i) modelId)
        (enumerate 0 (cf_modelIds config)) s = Inr s1"
    and features: "ufold (update_feature_if_required (wd_platform w) (tk_seconds t)) (cf_featureStores config) s1 = Inr s'"
    using assms by (auto simp: update_resources_def ubind_Inr_iff)
  have "keeps s s1" by (rule keeps_fold [OF _ plans]) (auto dest: update_plan_keeps)
  moreover have "keeps s1 s'" by (rule keeps_fold [OF _ features]) (rule update_feature_keeps)
  ultimately show ?thesis by (rule keeps_trans)
qed

lemma load_from_device_keeps:
  assumes "load_from_device w t config s = Inr s'"
  shows "keeps s s'"
proof -
  obtain s1 where plans: "ufold (\<lambda>(i, modelId) s. ubind (load_plan_from_device (wd_platform w) (wd_onnx w) (tk_load t i) modelId s)
        (\<lambda>(ok, s'). Inr s')) (enumerate 0 (cf_modelIds config)) s = Inr s1"
    and features: "ufold (\<lambda>featureName s. ubind (load_feature_from_device (wd_platform w) (tk_seconds t) featureName s)
        (\<lambda>(ok, s'). Inr s')) (cf_featureStores config) s1 = Inr s'"
    using assms by (auto simp: load_from_device_def ubind_Inr_iff)
  have "keeps s s1"
    by (rule keeps_fold [OF _ plans]) (auto simp: ubind_Inr_iff dest: load_plan_device_keeps)
  moreover have "keeps s1 s'"
    by (rule keeps_fold [OF _ features]) (auto simp: ubind_Inr_iff dest: load_feature_device_keeps)
  ultimately show ?thesis by (rule keeps_trans)
qed

section \<open>Calls of the server and of the loggers\<close>

lemma server_init_retries:
  assumes "server_init pf config s = Inr (ok, t)"
  shows "sa_registerRetries t = sa_registerRetries s \<or>
    sa_registerRetries s \<noteq> 0 \<and> sa_registerRetries t = sa_registerRetries s - 1"
proof (cases "sa_registerDone s \<or> sa_registerRetries s = 0")
  case True
  then show ?thesis using assms by (auto simp: server_init_def split: if_splits)
next
  case False
  let ?s1 = "s\<lparr>sa_registerRetries := sa_registerRetries s - 1, sa_HOST := cf_host config, sa_config := config\<rparr>"
  have "sa_registerRetries u = sa_registerRetries s - 1" if "device_register pf ?s1 = Inr (b, u)" for b u
    using device_register_result(2) [OF that] by (simp add: same_server_def)
  then show ?thesis using False assms
    by (auto simp: server_init_def Let_def ubind_Inr_iff split: option.splits if_splits)
qed

lemma upload_same: "upload_logs pf q s = Inr (ok, t) \<Longrightarrow> same_api s t"
  by (auto simp: upload_logs_def api_send_def Let_def ubind_Inr_iff same_api_def split: prod.splits)

lemma send_logs_same: "send_logs pf os c logs path s = Inr (ok, t) \<Longrightarrow> same_api s t"
  by (auto simp: send_logs_def remove_log_def ubind_Inr_iff dest: upload_same split: if_splits)

lemma send_pending_same:
  assumes "send_pending_logs pf os date now now' b (l, s) = Inr (l', t)"
  shows "same_api s t"
  using assms
proof (cases rule: send_pending_cases)
  case (rotated l1 d1 ok)
  from send_logs_same [OF rotated(4)] show ?thesis by (simp add: same_api_def)
qed (auto dest: send_logs_same)

section \<open>The state of the whole SDK\<close>

definition retries_ok :: "int \<Rightarrow> bool" where
  "retries_ok n = (0 \<le> n \<and> n \<le> 3)"

definition center_inv :: "('f, 'd, 'db, 's) command_center \<Rightarrow> bool" where
  "center_inv cc =
     ((ce_initializeSuccess cc \<longleftrightarrow> ce_sdk cc \<noteq> None) \<and>
      (\<forall>s. ce_sdk cc = Some s \<longrightarrow> sdk_inv s \<and> sd_config s = ce_config cc) \<and>
      retries_ok (sa_registerRetries (center_server cc)) \<and> retries_ok (ce_cloudConfigFetchRetries cc) \<and>
      cg_metricsCollectionInterval (ce_cloudConfig cc) = METRICS_COLLECTION_TIME_INTERVAL_IN_SECONDS)"

lemma center_server_set [simp]: "center_server (set_server sv cc) = sv"
  by (simp add: center_server_def set_server_def split: option.split)

lemma set_server_sel [simp]:
  "ce_initializeSuccess (set_server sv cc) = ce_initializeSuccess cc" "ce_config (set_server sv cc) = ce_config cc"
  "ce_cloudConfigFetchRetries (set_server sv cc) = ce_cloudConfigFetchRetries cc" "ce_cloudConfig (set_server sv cc) = ce_cloudConfig cc"
  "ce_cloudConfigSet (set_server sv cc) = ce_cloudConfigSet cc"
  "ce_logger (set_server sv cc) = ce_logger cc" "ce_sdk (set_server sv cc) = map_option (\<lambda>s. s\<lparr>sd_server := sv\<rparr>) (ce_sdk cc)"
  by (simp_all add: set_server_def split: option.split)

lemma sdk_inv_server [simp]: "sdk_inv (s\<lparr>sd_server := sv\<rparr>) = sdk_inv s"
  by (simp add: sdk_inv_def)

lemma center_inv_server:
  "center_inv cc \<Longrightarrow> retries_ok (sa_registerRetries sv) \<Longrightarrow> center_inv (set_server sv cc)"
  by (auto simp: center_inv_def)

lemma center_inv_retries: "center_inv cc \<Longrightarrow> retries_ok (sa_registerRetries (center_server cc))"
  by (simp add: center_inv_def)

lemma center_server_frame [simp]:
  "center_server (cc\<lparr>ce_metricsAgent := l\<rparr>) = center_server cc" "center_server (cc\<lparr>ce_logger := l\<rparr>) = center_server cc"
  "center_server (cc\<lparr>ce_cloudConfigFetchRetries := n\<rparr>) = center_server cc" "center_server (cc\<lparr>ce_config := c\<rparr>) = center_server cc"
  "center_server (cc\<lparr>ce_lastMetricTime := n\<rparr>) = center_server cc" "center_server (cc\<lparr>ce_inferenceStartMap := m\<rparr>) = center_server cc"
  "center_server (cc\<lparr>ce_inferenceCount := n\<rparr>) = center_server cc" "center_server (cc\<lparr>ce_cloudConfigSet := b\<rparr>) = center_server cc"
  "center_server (cc\<lparr>ce_cloudConfig := g\<rparr>) = center_server cc" "center_server (cc\<lparr>ce_initializeSuccess := b\<rparr>) = center_server cc"
  "center_server (cc\<lparr>ce_sdk := Some s\<rparr>) = sd_server s"
  by (simp_all add: center_server_def split: option.split)

lemma center_inv_frame [simp]:
  "center_inv (cc\<lparr>ce_metricsAgent := l\<rparr>) = center_inv cc" "center_inv (cc\<lparr>ce_logger := l\<rparr>) = center_inv cc"
  "center_inv (cc\<lparr>ce_lastMetricTime := n\<rparr>) = center_inv cc" "center_inv (cc\<lparr>ce_inferenceStartMap := m\<rparr>) = center_inv cc"
  "center_inv (cc\<lparr>ce_inferenceCount := n\<rparr>) = center_inv cc" "center_inv (cc\<lparr>ce_cloudConfigSet := b\<rparr>) = center_inv cc"
  by (simp_all add: center_inv_def)

text \<open>A step that only changes the managers.\<close>

lemma center_inv_sdk:
  assumes "center_inv cc" "ce_sdk cc = Some s" "sdk_inv s \<Longrightarrow> sdk_inv s'" "sd_config s' = sd_config s"
    "retries_ok (sa_registerRetries (sd_server s'))"
  shows "center_inv (cc\<lparr>ce_sdk := Some s'\<rparr>)"
  using assms by (simp add: center_inv_def)

lemma center_inv_sdk_retries: "center_inv cc \<Longrightarrow> ce_sdk cc = Some s \<Longrightarrow> retries_ok (sa_registerRetries (sd_server s))"
  by (simp add: center_inv_def center_server_def)

lemma with_metrics_inv: "center_inv cc \<Longrightarrow> center_inv (with_metrics f cc)"
  by (auto simp: with_metrics_def intro!: center_inv_server center_inv_retries split: prod.split)

lemma log_metrics_inv: "center_inv cc \<Longrightarrow> center_inv (log_metrics w dates m j cc)"
  unfolding log_metrics_def by (rule with_metrics_inv)

lemma get_metrics_inv: "center_inv cc \<Longrightarrow> center_inv (get_metrics w t cc)"
  by (simp add: get_metrics_def with_metrics_inv split: option.split)

lemma send_metrics_inv: "send_metrics w t b cc = Inr cc' \<Longrightarrow> center_inv cc \<Longrightarrow> center_inv cc'"
  using center_inv_retries [of cc]
  by (auto simp: send_metrics_def ubind_Inr_iff same_api_def dest!: send_pending_same intro!: center_inv_server)

lemma send_log_inv: "send_log w t b cc = Inr cc' \<Longrightarrow> center_inv cc \<Longrightarrow> center_inv cc'"
  using center_inv_retries [of cc]
  by (auto simp: send_log_def ubind_Inr_iff same_api_def dest!: send_pending_same intro!: center_inv_server)

lemma apply_cloud_config_inv: "center_inv cc \<Longrightarrow> center_inv (apply_cloud_config r cc)"
  by (auto simp: apply_cloud_config_def Let_def center_inv_def center_server_def)

lemma set_cloud_config_inv:
  assumes "set_cloud_config w t cc = Inr cc'" "center_inv cc"
  shows "center_inv cc'"
proof (cases "ce_cloudConfigSet cc \<or> ce_cloudConfigFetchRetries cc = 0")
  case True
  then have "set_cloud_config w t cc = Inr cc" by (auto simp: set_cloud_config_def)
  with assms(1) have "cc' = cc" by simp
  with assms(2) show ?thesis by simp
next
  case False
  let ?cc1 = "cc\<lparr>ce_cloudConfigFetchRetries := ce_cloudConfigFetchRetries cc - 1\<rparr>"
  let ?micros = "(tk_now t 7 - tk_now t 6) sdiv 1000"
  obtain r sv where r: "get_cloud_config (wd_platform w) ?micros DEFAULT_AUTH_ERROR_RETRIES (center_server ?cc1) = Inr (r, sv)"
    using assms(1) False by (auto simp: set_cloud_config_def Let_def ubind_Inr_iff)
  define cc2 where "cc2 = log_metrics w (\<lambda>k. tk_dates t (4 + k)) PINGMETRIC
      (jobject [(''pingTime'', JInt (cl_timeInMicros r))]) (set_server sv ?cc1)"
  have "center_inv ?cc1" using assms(2) False by (auto simp: center_inv_def center_server_def retries_ok_def)
  moreover have "retries_ok (sa_registerRetries sv)"
    using cloud_config_same [OF r] center_inv_retries [OF assms(2)] by (simp add: same_server_def)
  ultimately have "center_inv cc2" unfolding cc2_def by (intro log_metrics_inv center_inv_server)
  moreover have "cc' = (if br_status (cl_base r) \<noteq> SUCCESS then cc2 else apply_cloud_config r cc2)"
    using assms(1) False r by (simp add: set_cloud_config_def Let_def cc2_def split: if_splits)
  ultimately show ?thesis by (simp add: apply_cloud_config_inv)
qed

lemma on_sdk_inv:
  assumes "on_sdk f cc = Inr cc'" "center_inv cc" "\<And>s s'. f s = Inr s' \<Longrightarrow> keeps s s'"
  shows "center_inv cc'"
proof -
  obtain s s' where s: "ce_sdk cc = Some s" "f s = Inr s'" "cc' = cc\<lparr>ce_sdk := Some s'\<rparr>"
    using assms(1) by (auto simp: on_sdk_def ubind_Inr_iff split: option.splits)
  with assms(2) assms(3) [OF s(2)] show ?thesis
    by (auto simp: center_inv_def center_server_def keeps_def same_api_def)
qed

lemma long_running_pass_inv:
  assumes "long_running_pass w t b cc = Inr cc'" "center_inv cc"
  shows "center_inv cc'"
proof -
  from assms(1) obtain ok sv cc1 cc2 cc3 where
    init: "server_init (wd_platform w) (ce_config cc) (center_server cc) = Inr (ok, sv)"
    and cloud: "set_cloud_config w t (set_server sv cc) = Inr cc1"
    and update: "on_sdk (update_resources w t (ce_config cc)) cc1 = Inr cc2"
    and metrics: "send_metrics w t b (get_metrics w t cc2) = Inr cc3"
    and logs: "send_log w t b cc3 = Inr cc'"
    by (auto simp: long_running_pass_def ubind_Inr_iff)
  have "retries_ok (sa_registerRetries sv)"
    using server_init_retries [OF init] center_inv_retries [OF assms(2)] by (auto simp: retries_ok_def)
  with assms(2) have "center_inv (set_server sv cc)" by (rule center_inv_server)
  with cloud have "center_inv cc1" by (rule set_cloud_config_inv)
  from on_sdk_inv [OF update this update_resources_keeps] have "center_inv cc2" .
  then have "center_inv (get_metrics w t cc2)" by (rule get_metrics_inv)
  with metrics have "center_inv cc3" by (rule send_metrics_inv)
  with logs show ?thesis by (rule send_log_inv)
qed

lemma exit_inference_inv: "exit_inference w t m i ok cc = Inr cc' \<Longrightarrow> center_inv cc \<Longrightarrow> center_inv cc'"
  by (auto simp: exit_inference_def Let_def log_metrics_inv split: option.splits if_splits)

lemma get_inference_inv:
  assumes "cc_get_inference w t m req i cc = Inr (e, ret, cc')" "center_inv cc"
  shows "center_inv cc'"
proof (cases "ce_initializeSuccess cc")
  case True
  then obtain s where s: "ce_sdk cc = Some s" using assms(2) by (auto simp: center_inv_def)
  let ?cc1 = "cc\<lparr>ce_inferenceStartMap := smap_put i (tk_now t 0) (ce_inferenceStartMap cc)\<rparr>"
  obtain n r where r: "executor_get_inference (wd_onnx w) (cf_debug (ce_config cc)) (tk_query t) (sd_features s) i m req
      (sd_executor s) (sd_events s) = Inr r" and n: "signed_result 32 (ce_inferenceCount cc + 1) = Inr n"
    using assms(1) True s by (auto simp: cc_get_inference_def Let_def ubind_Inr_iff)
  define cc2 where "cc2 = ?cc1\<lparr>ce_inferenceCount := n, ce_sdk := Some (s\<lparr>sd_executor := er_executor r, sd_events := er_events r\<rparr>)\<rparr>"
  have "center_inv cc2" using assms(2) s executor_inv_inference [OF _ r] True
    by (simp add: cc2_def center_inv_def center_server_def sdk_inv_def)
  moreover have "cc' = cc2 \<or> exit_inference w t m i False cc2 = Inr cc'"
    using assms(1) True s r n by (auto simp: cc_get_inference_def Let_def ubind_Inr_iff cc2_def split: if_splits)
  ultimately show ?thesis using exit_inference_inv by blast
qed (use assms in \<open>simp add: cc_get_inference_def\<close>)

lemma add_user_event_inv: "add_user_event w t j n cc = Inr (ok, cc') \<Longrightarrow> center_inv cc \<Longrightarrow> center_inv cc'"
proof -
  assume a: "add_user_event w t j n cc = Inr (ok, cc')" and inv: "center_inv cc"
  show "center_inv cc'"
  proof (cases "ce_initializeSuccess cc")
    case True
    then obtain s where s: "ce_sdk cc = Some s" using inv by (auto simp: center_inv_def)
    obtain ue where "cc' = cc\<lparr>ce_sdk := Some (s\<lparr>sd_events := ue\<rparr>)\<rparr>"
      using a True s by (auto simp: add_user_event_def ubind_Inr_iff)
    then show ?thesis
      using center_inv_sdk [OF inv s, of "s\<lparr>sd_events := ue\<rparr>"] center_inv_sdk_retries [OF inv s] by (simp add: sdk_inv_def)
  qed (use a inv in \<open>simp add: add_user_event_def\<close>)
qed

lemma fold_reset_inv: "executor_inv ex \<Longrightarrow> executor_inv (fold reset_model_retries ms ex)"
  by (induction ms arbitrary: ex) (simp_all add: executor_inv_updates)

lemma internet_switched_on_inv:
  assumes inv: "center_inv cc"
  shows "center_inv (internet_switched_on cc)"
proof (cases "ce_initializeSuccess cc")
  case True
  then obtain s where s: "ce_sdk cc = Some s" using inv by (auto simp: center_inv_def)
  define s1 where "s1 = s\<lparr>sd_executor := fold reset_model_retries (cf_modelIds (ce_config cc)) (sd_executor s)\<rparr>"
  have "center_inv (cc\<lparr>ce_sdk := Some s1\<rparr>)"
    using center_inv_sdk [OF inv s, of s1] center_inv_sdk_retries [OF inv s] by (simp add: s1_def sdk_inv_def fold_reset_inv)
  then have "center_inv (set_server (reset_register_retries (sd_server s1)) (cc\<lparr>ce_sdk := Some s1\<rparr>))"
    by (rule center_inv_server) (simp add: reset_register_retries_def retries_ok_def DEFAULT_REGISTER_RETRIES_def)
  moreover have "internet_switched_on cc =
      (set_server (reset_register_retries (sd_server s1)) (cc\<lparr>ce_sdk := Some s1\<rparr>))\<lparr>ce_cloudConfigFetchRetries := DEFAULT_FETCH_CLOUD_CONFIG_RETRIES\<rparr>"
    using True by (simp add: internet_switched_on_def Let_def s s1_def)
  ultimately show ?thesis by (simp add: center_inv_def retries_ok_def DEFAULT_FETCH_CLOUD_CONFIG_RETRIES_def)
qed (use inv in \<open>simp add: internet_switched_on_def\<close>)

lemma create_managers_inv:
  assumes "create_managers w t config sv = Inr s"
  shows "sdk_inv s \<and> sd_config s = config \<and> sd_server s = sv"
  using assms by (auto simp: create_managers_def ubind_Inr_iff sdk_inv_def manager_ok_new intro: executor_inv_new)

text \<open>How the start ends.\<close>

lemma initialize_cases [consumes 1, case_names unchanged invalid started]:
  assumes "cc_initialize w t busy config cc = Inr (r, cc')"
  obtains "cc' = cc" "r = (if busy then 0 else 1)" "busy \<or> ce_initializeSuccess cc"
  | "cc' = cc\<lparr>ce_config := config\<rparr>" "r = 0" "\<not> cf_valid config"
  | b l d s s' where "\<not> ce_initializeSuccess cc"
      "init_logger (wd_os w) (tk_now t 0) (dv_home (sa_device (center_server cc)) @ ''/metrics'')
         (ce_metricsAgent cc, sa_device (center_server cc)) = (b, l, d)"
      "create_managers w t config ((center_server cc)\<lparr>sa_device := d\<rparr>) = Inr s" "load_from_device w t config s = Inr s'" "r = 1"
      "cc' = cc\<lparr>ce_config := config, ce_metricsAgent := update_device_details (cf_deviceId config) (cf_clientId config) False l,
         ce_sdk := Some s', ce_initializeSuccess := True\<rparr>"
proof (cases "busy \<or> ce_initializeSuccess cc")
  case True
  then have "cc_initialize w t busy config cc = Inr (if busy then 0 else 1, cc)" by (auto simp: cc_initialize_def)
  with assms True that(1) show ?thesis by auto
next
  case False
  obtain b l d where i: "init_logger (wd_os w) (tk_now t 0) (dv_home (sa_device (center_server cc)) @ ''/metrics'')
         (ce_metricsAgent cc, sa_device (center_server cc)) = (b, l, d)"
    by (metis prod_cases3)
  show ?thesis
  proof (cases "cf_valid config")
    case True
    have "ubind (create_managers w t config ((center_server cc)\<lparr>sa_device := d\<rparr>)) (\<lambda>s. ubind (load_from_device w t config s) (\<lambda>s'.
      Inr (1, cc\<lparr>ce_config := config, ce_metricsAgent := update_device_details (cf_deviceId config) (cf_clientId config) False l,
        ce_sdk := Some s', ce_initializeSuccess := True\<rparr>))) = Inr (r, cc')"
      using assms False True i by (simp add: cc_initialize_def Let_def)
    then show ?thesis using that(3) [OF _ i] False by (auto simp: ubind_Inr_iff)
  next
    case invalid: False
    with assms False that(2) show ?thesis by (simp add: cc_initialize_def Let_def)
  qed
qed

lemma initialize_inv:
  assumes "cc_initialize w t busy config cc = Inr (r, cc')" and inv: "center_inv cc"
  shows "center_inv cc'"
  using assms(1)
proof (cases rule: initialize_cases)
  case unchanged
  with inv show ?thesis by simp
next
  case invalid
  show ?thesis
  proof (cases "ce_initializeSuccess cc")
    case True
    with assms invalid show ?thesis by (cases busy) (auto simp: cc_initialize_def)
  next
    case False
    then have "ce_sdk cc = None" using inv by (simp add: center_inv_def)
    with inv show ?thesis by (simp add: invalid(1) center_inv_def)
  qed
next
  case (started b l d s s')
  have "sdk_inv s'" "sd_config s' = config" "sa_registerRetries (sd_server s') = sa_registerRetries (center_server cc)"
    using create_managers_inv [OF started(3)] load_from_device_keeps [OF started(4)] by (simp_all add: keeps_def same_api_def)
  then show ?thesis using inv by (simp add: started(6) center_inv_def)
qed

text \<open>\<open>initialize_nimblenet\<close>: the log is opened first, the home directory set next.\<close>

lemma nimblenet_cases [consumes 1, case_names no_log refused passed_on]:
  assumes "initialize_nimblenet w t busy json home cc = Inr (r, cc')"
  obtains l d sv where "init_logger (wd_os w) (tk_now t 1) (home @ ''/logs'') (ce_logger cc, sa_device (center_server cc)) = (False, l, d)"
      "sv = (center_server cc)\<lparr>sa_device := d\<rparr>" "r = 0" "cc' = set_server sv (cc\<lparr>ce_logger := l\<rparr>)"
  | l d sv where "init_logger (wd_os w) (tk_now t 1) (home @ ''/logs'') (ce_logger cc, sa_device (center_server cc)) = (True, l, d)"
      "sv = (center_server cc)\<lparr>sa_device := d\<lparr>dv_home := home\<rparr>\<rparr>" "r = 0" "cc' = set_server sv (cc\<lparr>ce_logger := l\<rparr>)"
  | l d sv config where "init_logger (wd_os w) (tk_now t 1) (home @ ''/logs'') (ce_logger cc, sa_device (center_server cc)) = (True, l, d)"
      "sv = (center_server cc)\<lparr>sa_device := d\<lparr>dv_home := home\<rparr>\<rparr>" "load_user_config (pf_parse (wd_platform w)) json = Inr config"
      "cc_initialize w t busy config ((set_server sv (cc\<lparr>ce_logger := l\<rparr>))\<lparr>ce_logger :=
         update_device_details (cf_deviceId config) (cf_clientId config) (cf_debug config) l\<rparr>) = Inr (r, cc')"
proof -
  obtain b l d where i: "init_logger (wd_os w) (tk_now t 1) (home @ ''/logs'') (ce_logger cc, sa_device (center_server cc)) = (b, l, d)"
    by (metis prod_cases3)
  have twice: "set_server sv' (set_server sv c) = set_server sv' c" for sv sv' and c :: "('a, 'b, 'c, 'd) command_center"
    by (cases "ce_sdk c") (simp_all add: set_server_def)
  define sv where "sv = (center_server cc)\<lparr>sa_device := d\<lparr>dv_home := home\<rparr>\<rparr>"
  show ?thesis
  proof (cases b)
    case True
    then obtain config where c: "load_user_config (pf_parse (wd_platform w)) json = Inr config"
      using assms i by (auto simp: initialize_nimblenet_def Let_def ubind_Inr_iff)
    show ?thesis
    proof (cases "cf_valid config")
      case valid: True
      then show ?thesis using that(3) [OF _ sv_def c, of l] assms i True c by (simp add: initialize_nimblenet_def Let_def twice sv_def)
    next
      case False
      then show ?thesis using that(2) [OF _ sv_def, of l] assms i True c by (simp add: initialize_nimblenet_def Let_def twice sv_def)
    qed
  next
    case False
    then show ?thesis using that(1) [OF _ refl] assms i by (simp add: initialize_nimblenet_def Let_def)
  qed
qed

lemma initialize_nimblenet_inv:
  assumes "initialize_nimblenet w t busy json home cc = Inr (r, cc')" and inv: "center_inv cc"
  shows "center_inv cc'"
proof -
  have opened: "center_inv (set_server sv (cc\<lparr>ce_logger := l\<rparr>))"
    if "sa_registerRetries sv = sa_registerRetries (center_server cc)" for sv l
    by (rule center_inv_server) (use inv that center_inv_retries [OF inv] in simp_all)
  from assms(1) show ?thesis
  proof (cases rule: nimblenet_cases)
    case (passed_on l d sv config)
    from initialize_inv [OF passed_on(4)] opened [of sv l] passed_on(2) show ?thesis by simp
  qed (use opened in simp_all)
qed

text \<open>The states of the SDK: any calls of the client, and passes of the loop once it was started, in any order.\<close>

inductive center_reach :: "('f, 'd, 'db, 's) world \<Rightarrow> ('f, 'd, 'db, 's) command_center \<Rightarrow> bool" for w where
  start: "center_reach w (new_command_center now d)"
| initialize: "center_reach w cc \<Longrightarrow> initialize_nimblenet w t busy json home cc = Inr (r, cc') \<Longrightarrow> center_reach w cc'"
| infer: "center_reach w cc \<Longrightarrow> cc_get_inference w t m req i cc = Inr (e, ret, cc') \<Longrightarrow> center_reach w cc'"
| exit: "center_reach w cc \<Longrightarrow> exit_inference w t m i ok cc = Inr cc' \<Longrightarrow> center_reach w cc'"
| event: "center_reach w cc \<Longrightarrow> add_user_event w t j n cc = Inr (ok, cc') \<Longrightarrow> center_reach w cc'"
| log: "center_reach w cc \<Longrightarrow> center_reach w (cc_write_log w dates line cc)"
| metric: "center_reach w cc \<Longrightarrow> center_reach w (write_metric w dates kind j cc)"
| internet: "center_reach w cc \<Longrightarrow> center_reach w (internet_switched_on cc)"
| loop: "center_reach w cc \<Longrightarrow> ce_initializeSuccess cc \<Longrightarrow> long_running_pass w t b cc = Inr cc' \<Longrightarrow> center_reach w cc'"

lemma center_reach_inv: "center_reach w cc \<Longrightarrow> center_inv cc"
proof (induction rule: center_reach.induct)
  case (start now d)
  show ?case by (simp add: new_command_center_def center_inv_def center_server_def new_server_api_def retries_ok_def
        DEFAULT_REGISTER_RETRIES_def DEFAULT_FETCH_CLOUD_CONFIG_RETRIES_def default_cloud_config_def)
next
  case (initialize cc t busy json home r cc')
  show ?case by (rule initialize_nimblenet_inv [OF initialize(2,3)])
next
  case (infer cc t m req i e ret cc')
  show ?case by (rule get_inference_inv [OF infer(2,3)])
next
  case (exit cc t m i ok cc')
  show ?case by (rule exit_inference_inv [OF exit(2,3)])
next
  case (event cc t j n ok cc')
  show ?case by (rule add_user_event_inv [OF event(2,3)])
next
  case (loop cc t b cc')
  show ?case by (rule long_running_pass_inv [OF loop(3,4)])
qed (simp_all add: cc_write_log_def write_metric_def with_metrics_inv internet_switched_on_inv)

end
