(* ===== verification/Command_Start.thy ===== *)
theory Command_Start
  imports Command_Contract
begin

text \<open>
  Properties of the whole SDK: what holds in every reachable state, that the start
  sends no request and the calls of the client after it neither, that the background
  loop asks for the configuration of the cloud three times at most, what a second start
  does to the log, and what the calls of the client do before the start.
\<close>

section \<open>Every reachable state\<close>


text \<open>the interval at which device metrics are collected is 20 seconds in every
  state: the value the server sends for it is never used.
\<close>
theorem collection_interval_fixed:
  assumes "center_reach w cc"
  shows "cg_metricsCollectionInterval (ce_cloudConfig cc) = 20"
  using center_reach_inv [OF assms] by (simp add: center_inv_def METRICS_COLLECTION_TIME_INTERVAL_IN_SECONDS_def)

section \<open>The start sends nothing\<close>

lemma ufold_same:
  assumes "\<And>x s s'. f x s = Inr s' \<Longrightarrow> g s' = g s" "ufold f xs s = Inr s'"
  shows "g s' = g s"
  by (rule ufold_invariant [where P = "\<lambda>s'. g s' = g s", OF _ _ assms(2)]) (use assms(1) in auto)

lemma load_plan_device_server: "load_plan_from_device pf E c m s = Inr (ok, s') \<Longrightarrow> sd_server s' = sd_server s"
  by (auto simp: load_plan_from_device_def ubind_Inr_iff split: if_splits)

lemma load_feature_device_server: "load_feature_from_device pf now n s = Inr (ok, s') \<Longrightarrow> sd_server s' = sd_server s"
  by (auto simp: load_feature_from_device_def ubind_Inr_iff split: if_splits)

lemma load_from_device_server:
  assumes "load_from_device w t config s = Inr s'"
  shows "sd_server s' = sd_server s"
proof -
  obtain s1 where plans: "ufold (\<lambda>(i, modelId) s. ubind (load_plan_from_device (wd_platform w) (wd_onnx w) (tk_load t i) modelId s)
        (\<lambda>(ok, s'). Inr s')) (enumerate 0 (cf_modelIds config)) s = Inr s1"
    and features: "ufold (\<lambda>featureName s. ubind (load_feature_from_device (wd_platform w) (tk_seconds t) featureName s)
        (\<lambda>(ok, s'). Inr s')) (cf_featureStores config) s1 = Inr s'"
    using assms by (auto simp: load_from_device_def ubind_Inr_iff)
  have "sd_server s1 = sd_server s"
    by (rule ufold_same [OF _ plans]) (auto simp: ubind_Inr_iff dest: load_plan_device_server)
  moreover have "sd_server s' = sd_server s1"
    by (rule ufold_same [OF _ features]) (auto simp: ubind_Inr_iff dest: load_feature_device_server)
  ultimately show ?thesis by simp
qed

lemma open_log_sent: "open_log os (l, d) = (l', d') \<Longrightarrow> dv_sent d' = dv_sent d"
  by (auto simp: open_log_def split: if_splits)

lemma init_logger_sent: "init_logger os now dir (l, d) = (b, l', d') \<Longrightarrow> dv_sent d' = dv_sent d"
  by (auto simp: init_logger_def Let_def dest!: open_log_sent split: if_splits prod.splits)

text \<open>C20: the start works from what is on the device alone: whatever it loads and
  however it ends, no request goes to the server; and when it reports success the
  SDK is running.
\<close>
theorem start_sends_nothing:
  assumes "initialize_nimblenet w t busy json home cc = Inr (r, cc')"
  shows "sent (center_server cc') = sent (center_server cc) \<and> (r = 1 \<and> \<not> busy \<longrightarrow> ce_initializeSuccess cc')"
proof -
  have initialize: "sent (center_server c') = sent (center_server c) \<and> (r = 1 \<and> \<not> busy \<longrightarrow> ce_initializeSuccess c')"
    if "cc_initialize w t busy config c = Inr (r, c')" for config c c'
    using that
  proof (cases rule: initialize_cases)
    case (started b l d s s')
    have "sd_server s' = (center_server c)\<lparr>sa_device := d\<rparr>"
      using create_managers_inv [OF started(3)] load_from_device_server [OF started(4)] by simp
    with started init_logger_sent [OF started(2)] show ?thesis by (simp add: sent_def)
  qed auto
  from assms show ?thesis
  proof (cases rule: nimblenet_cases)
    case (no_log l d sv)
    with init_logger_sent [OF no_log(1)] show ?thesis by (simp add: sent_def)
  next
    case (refused l d sv)
    with init_logger_sent [OF refused(1)] show ?thesis by (simp add: sent_def)
  next
    case (passed_on l d sv config)
    from initialize [OF passed_on(4)] init_logger_sent [OF passed_on(1)] passed_on(2) show ?thesis by (simp add: sent_def)
  qed
qed

section \<open>The configuration of the cloud is asked for three times at most\<close>

text \<open>How often \<open>set_cloud_config\<close> may still ask.\<close>

definition fetches_left :: "('f, 'd, 'db, 's) command_center \<Rightarrow> int" where
  "fetches_left cc = (if ce_cloudConfigSet cc then 0 else ce_cloudConfigFetchRetries cc)"

lemma fetches_left_frame [simp]:
  "fetches_left (set_server sv cc) = fetches_left cc" "fetches_left (with_metrics f cc) = fetches_left cc"
  "fetches_left (cc\<lparr>ce_metricsAgent := l\<rparr>) = fetches_left cc" "fetches_left (cc\<lparr>ce_logger := l\<rparr>) = fetches_left cc"
  "fetches_left (cc\<lparr>ce_lastMetricTime := n\<rparr>) = fetches_left cc" "fetches_left (cc\<lparr>ce_sdk := so\<rparr>) = fetches_left cc"
  by (simp_all add: fetches_left_def with_metrics_def split: prod.split)

lemma fetches_left_ok: "center_inv cc \<Longrightarrow> 0 \<le> fetches_left cc \<and> fetches_left cc \<le> 3"
  by (simp add: fetches_left_def center_inv_def retries_ok_def)

lemma set_cloud_config_idle: "fetches_left cc = 0 \<Longrightarrow> set_cloud_config w t cc = Inr cc"
  by (simp add: fetches_left_def set_cloud_config_def split: if_splits)

lemma set_cloud_config_pays:
  assumes "set_cloud_config w t cc = Inr cc'" "center_inv cc"
  shows "fetches_left cc' \<le> max 0 (fetches_left cc - 1)"
proof (cases "fetches_left cc = 0")
  case True
  with assms(1) show ?thesis by (simp add: set_cloud_config_idle)
next
  case False
  then have still: "\<not> ce_cloudConfigSet cc" "ce_cloudConfigFetchRetries cc \<noteq> 0" by (auto simp: fetches_left_def split: if_splits)
  let ?cc1 = "cc\<lparr>ce_cloudConfigFetchRetries := ce_cloudConfigFetchRetries cc - 1\<rparr>"
  obtain r sv where r: "get_cloud_config (wd_platform w) ((tk_now t 7 - tk_now t 6) sdiv 1000) DEFAULT_AUTH_ERROR_RETRIES (center_server ?cc1) = Inr (r, sv)"
    using assms(1) still by (auto simp: set_cloud_config_def Let_def ubind_Inr_iff)
  define cc2 where "cc2 = log_metrics w (\<lambda>k. tk_dates t (4 + k)) PINGMETRIC
      (jobject [(''pingTime'', JInt (cl_timeInMicros r))]) (set_server sv ?cc1)"
  have "cc' = (if br_status (cl_base r) \<noteq> SUCCESS then cc2 else apply_cloud_config r cc2)"
    using assms(1) still r by (simp add: set_cloud_config_def Let_def cc2_def split: if_splits)
  moreover have "fetches_left cc2 = fetches_left cc - 1"
    using still by (simp add: cc2_def log_metrics_def) (simp add: fetches_left_def)
  moreover have "fetches_left (apply_cloud_config r cc2) = 0" by (simp add: fetches_left_def apply_cloud_config_def Let_def)
  ultimately show ?thesis using False fetches_left_ok [OF assms(2)] by auto
qed

lemma pass_pays:
  assumes "long_running_pass w t b cc = Inr cc'" "center_inv cc"
  shows "fetches_left cc' \<le> max 0 (fetches_left cc - 1)"
proof -
  from assms(1) obtain ok sv cc1 cc2 cc3 where
    init: "server_init (wd_platform w) (ce_config cc) (center_server cc) = Inr (ok, sv)"
    and cloud: "set_cloud_config w t (set_server sv cc) = Inr cc1"
    and update: "on_sdk (update_resources w t (ce_config cc)) cc1 = Inr cc2"
    and metrics: "send_metrics w t b (get_metrics w t cc2) = Inr cc3"
    and logs: "send_log w t b cc3 = Inr cc'"
    by (auto simp: long_running_pass_def ubind_Inr_iff)
  have "retries_ok (sa_registerRetries sv)"
    using server_init_retries [OF init] center_inv_retries [OF assms(2)] by (auto simp: retries_ok_def)
  from set_cloud_config_pays [OF cloud center_inv_server [OF assms(2) this]]
  have "fetches_left cc1 \<le> max 0 (fetches_left cc - 1)" by simp
  moreover have "fetches_left cc2 = fetches_left cc1"
    using update by (auto simp: on_sdk_def ubind_Inr_iff split: option.splits)
  moreover have "fetches_left (get_metrics w t cc2) = fetches_left cc2" by (simp add: get_metrics_def split: option.split)
  moreover have "fetches_left cc3 = fetches_left (get_metrics w t cc2)" using metrics by (auto simp: send_metrics_def ubind_Inr_iff)
  moreover have "fetches_left cc' = fetches_left cc3" using logs by (auto simp: send_log_def ubind_Inr_iff)
  ultimately show ?thesis by simp
qed

lemma passes_pay:
  assumes "ufold (\<lambda>(i, t). long_running_pass w t (0 < i)) (enumerate n ts) cc = Inr cc'" "center_inv cc"
  shows "center_inv cc' \<and> fetches_left cc' \<le> max 0 (fetches_left cc - int (length ts))"
  using assms
proof (induction ts arbitrary: n cc)
  case Nil
  with fetches_left_ok show ?case by fastforce
next
  case (Cons t ts)
  then obtain cc1 where cc1: "long_running_pass w t (0 < n) cc = Inr cc1"
    "ufold (\<lambda>(i, t). long_running_pass w t (0 < i)) (enumerate (Suc n) ts) cc1 = Inr cc'" by (auto simp: ubind_Inr_iff)
  from Cons.IH [OF cc1(2) long_running_pass_inv [OF cc1(1) Cons.prems(2)]] pass_pays [OF cc1(1) Cons.prems(2)]
  show ?case by auto
qed

text \<open>C19: after three passes of the background loop, whatever the server answered, the
  step that asks for the configuration of the cloud has come to rest: it does
  nothing in any later pass until the client reports the internet back.
\<close>
theorem cloud_config_settles:
  assumes "center_reach w cc" "perform_long_running_tasks w ts cc = Inr cc'" "3 \<le> length ts"
  shows "set_cloud_config w t cc' = Inr cc'"
proof (rule set_cloud_config_idle)
  have inv: "center_inv cc" using assms(1) by (rule center_reach_inv)
  have "center_inv cc' \<and> fetches_left cc' \<le> max 0 (fetches_left cc - int (length ts))"
    using assms(2) unfolding perform_long_running_tasks_def by (rule passes_pay [OF _ inv])
  with fetches_left_ok [of cc'] fetches_left_ok [OF inv] assms(3) show "fetches_left cc' = 0" by auto
qed

section \<open>The client and the server\<close>

text \<open>The calls of the client after the start.\<close>

inductive client_call :: "('f, 'd, 'db, 's) world \<Rightarrow> ('f, 'd, 'db, 's) command_center \<Rightarrow> ('f, 'd, 'db, 's) command_center \<Rightarrow> bool" for w where
  infer: "cc_get_inference w t m req i cc = Inr (e, ret, cc') \<Longrightarrow> client_call w cc cc'"
| exit: "exit_inference w t m i ok cc = Inr cc' \<Longrightarrow> client_call w cc cc'"
| event: "add_user_event w t j n cc = Inr (ok, cc') \<Longrightarrow> client_call w cc cc'"
| log: "client_call w cc (cc_write_log w dates line cc)"
| metric: "client_call w cc (write_metric w dates kind j cc)"
| internet: "client_call w cc (internet_switched_on cc)"

lemma client_call_reach: "client_call w cc cc' \<Longrightarrow> center_reach w cc \<Longrightarrow> center_reach w cc'"
  by (induction rule: client_call.induct) (auto intro: center_reach.intros)

text \<open>What the client can see of the plans, and what was sent.\<close>

definition plan_view_of :: "('f, 'd, 'db, 's) command_center \<Rightarrow> string \<Rightarrow> (bool \<times> string) option" where
  "plan_view_of cc m = (case ce_sdk cc of None \<Rightarrow> None | Some s \<Rightarrow> get_model_status (sd_executor s) m)"

definition undisturbed :: "('f, 'd, 'db, 's) command_center \<Rightarrow> ('f, 'd, 'db, 's) command_center \<Rightarrow> bool" where
  "undisturbed cc cc' = (ce_initializeSuccess cc' = ce_initializeSuccess cc \<and> (ce_sdk cc' = None \<longleftrightarrow> ce_sdk cc = None) \<and>
     plan_view_of cc' = plan_view_of cc \<and> sent (center_server cc') = sent (center_server cc))"

lemma undisturbed_refl [simp]: "undisturbed cc cc"
  by (simp add: undisturbed_def)

lemma undisturbed_trans: "undisturbed cc cc1 \<Longrightarrow> undisturbed cc1 cc2 \<Longrightarrow> undisturbed cc cc2"
  by (simp add: undisturbed_def)

lemma write_log_sent: "write_log os dates message kind (l, d) = (l', d') \<Longrightarrow> dv_sent d' = dv_sent d"
  by (auto simp: write_log_def rotate_log_def append_file_def rename_file_def Let_def dest!: open_log_sent split: if_splits option.splits)

lemma with_metrics_undisturbed:
  assumes "\<And>l d l' d'. f (l, d) = (l', d') \<Longrightarrow> dv_sent d' = dv_sent d"
  shows "undisturbed cc (with_metrics f cc)"
proof -
  obtain l d where f: "f (ce_metricsAgent cc, sa_device (center_server cc)) = (l, d)" by fastforce
  define sv where "sv = (center_server cc)\<lparr>sa_device := d\<rparr>"
  have "sent sv = sent (center_server cc)" using assms [OF f] by (simp add: sv_def sent_def)
  moreover have "with_metrics f cc = set_server sv (cc\<lparr>ce_metricsAgent := l\<rparr>)" by (simp add: with_metrics_def f sv_def)
  ultimately show ?thesis by (simp add: undisturbed_def plan_view_of_def fun_eq_iff split: option.split)
qed

lemma undisturbed_frame [simp]:
  "undisturbed cc (cc'\<lparr>ce_inferenceStartMap := m\<rparr>) = undisturbed cc cc'"
  "undisturbed (cc\<lparr>ce_inferenceStartMap := m\<rparr>) cc' = undisturbed cc cc'"
  "undisturbed cc (cc'\<lparr>ce_inferenceCount := n\<rparr>) = undisturbed cc cc'"
  "undisturbed cc (cc'\<lparr>ce_cloudConfigFetchRetries := n\<rparr>) = undisturbed cc cc'"
  by (simp_all add: undisturbed_def plan_view_of_def fun_eq_iff)

lemma undisturbed_sdk:
  assumes "ce_sdk cc = Some s" "\<And>m. get_model_status (sd_executor s') m = get_model_status (sd_executor s) m"
    and "sent (sd_server s') = sent (sd_server s)"
  shows "undisturbed cc (cc\<lparr>ce_sdk := Some s'\<rparr>)"
  using assms by (simp add: undisturbed_def plan_view_of_def fun_eq_iff) (simp add: center_server_def)

lemma exit_undisturbed: "exit_inference w t m i ok cc = Inr cc' \<Longrightarrow> undisturbed cc cc'"
proof -
  have "undisturbed cc (log_metrics w dates k j (cc\<lparr>ce_inferenceStartMap := x\<rparr>))" for dates k j x
    using with_metrics_undisturbed [of "LOGMETRICS (wd_os w) dates k (pf_dump (wd_platform w) j)" "cc\<lparr>ce_inferenceStartMap := x\<rparr>"] write_log_sent
    by (simp add: log_metrics_def LOGMETRICS_def)
  then show "exit_inference w t m i ok cc = Inr cc' \<Longrightarrow> ?thesis"
    by (auto simp: exit_inference_def Let_def split: if_splits option.splits)
qed

lemma inference_keeps_status:
  assumes "executor_inv ex" "executor_get_inference E debug clk fm inferId modelId req ex ue = Inr r"
  shows "get_model_status (er_executor r) m = get_model_status ex m"
  using assms(2)
proof (cases rule: executor_inference_cases)
  case (served md mr db)
  note md = executor_inv_model [OF assms(1) served(1)]
  have "md_version (ir_model mr) = md_version md" using inference_keeps_model [OF served(2) conjunct2 [OF md]] by simp
  then show ?thesis using served(1,4) by (simp add: get_model_status_def)
qed simp

lemma inference_undisturbed:
  assumes "cc_get_inference w t m req i cc = Inr (e, ret, cc')" "center_inv cc"
  shows "undisturbed cc cc'"
proof (cases "ce_initializeSuccess cc")
  case True
  then obtain s where s: "ce_sdk cc = Some s" using assms(2) by (auto simp: center_inv_def)
  obtain n r where n: "signed_result 32 (ce_inferenceCount cc + 1) = Inr n" and r: "executor_get_inference (wd_onnx w)
      (cf_debug (ce_config cc)) (tk_query t) (sd_features s) i m req (sd_executor s) (sd_events s) = Inr r"
    using assms(1) True s by (auto simp: cc_get_inference_def Let_def ubind_Inr_iff)
  define cc2 where "cc2 = cc\<lparr>ce_inferenceStartMap := smap_put i (tk_now t 0) (ce_inferenceStartMap cc), ce_inferenceCount := n,
      ce_sdk := Some (s\<lparr>sd_executor := er_executor r, sd_events := er_events r\<rparr>)\<rparr>"
  have "executor_inv (sd_executor s)" using assms(2) s by (simp add: center_inv_def sdk_inv_def)
  from inference_keeps_status [OF this r] have "undisturbed cc cc2"
    using s by (simp add: cc2_def undisturbed_def plan_view_of_def fun_eq_iff) (simp add: center_server_def)
  moreover have "cc' = cc2 \<or> exit_inference w t m i False cc2 = Inr cc'"
    using assms(1) True s n r by (auto simp: cc_get_inference_def Let_def ubind_Inr_iff cc2_def split: if_splits)
  ultimately show ?thesis using exit_undisturbed undisturbed_trans by blast
qed (use assms in \<open>simp add: cc_get_inference_def\<close>)

lemma event_undisturbed:
  assumes "add_user_event w t j n cc = Inr (ok, cc')"
  shows "undisturbed cc cc'"
proof (cases "ce_initializeSuccess cc")
  case True
  then obtain s ue where s: "ce_sdk cc = Some s" "cc' = cc\<lparr>ce_sdk := Some (s\<lparr>sd_events := ue\<rparr>)\<rparr>"
    using assms by (auto simp: add_user_event_def ubind_Inr_iff split: option.splits)
  show ?thesis unfolding s(2) by (rule undisturbed_sdk [OF s(1)]) simp_all
qed (use assms in \<open>simp add: add_user_event_def\<close>)

lemma reset_keeps_status: "get_model_status (fold reset_model_retries ms ex) m = get_model_status ex m"
  by (induction ms arbitrary: ex) (simp_all add: reset_model_retries_def get_model_status_def)

lemma internet_undisturbed:
  assumes "center_inv cc"
  shows "undisturbed cc (internet_switched_on cc)"
proof (cases "ce_initializeSuccess cc")
  case True
  then obtain s where s: "ce_sdk cc = Some s" using assms by (auto simp: center_inv_def)
  show ?thesis using True s
    by (simp add: internet_switched_on_def Let_def undisturbed_def plan_view_of_def fun_eq_iff reset_keeps_status)
      (simp add: center_server_def reset_register_retries_def sent_def)
qed (simp add: internet_switched_on_def)

lemma client_call_undisturbed:
  assumes "client_call w cc cc'" "center_reach w cc"
  shows "undisturbed cc cc'"
  using assms(1)
proof (cases rule: client_call.cases)
  case (log dates line)
  have "undisturbed cc (with_metrics (OUTSIDELOG (wd_os w) dates line) cc)"
    by (rule with_metrics_undisturbed) (auto simp: OUTSIDELOG_def dest: write_log_sent)
  then show ?thesis by (simp add: log cc_write_log_def)
next
  case (metric dates kind j)
  have "undisturbed cc (with_metrics (LOGMETRICS (wd_os w) dates kind j) cc)"
    by (rule with_metrics_undisturbed) (auto simp: LOGMETRICS_def dest: write_log_sent)
  then show ?thesis by (simp add: metric write_metric_def)
next
  case internet
  then show ?thesis using internet_undisturbed [OF center_reach_inv [OF assms(2)]] by simp
qed (auto dest: inference_undisturbed [OF _ center_reach_inv [OF assms(2)]] exit_undisturbed event_undisturbed)


section \<open>A second start\<close>

text \<open>a second \<open>initialize_nimblenet\<close> on a running SDK that has its cloud
  configuration keeps the host the cloud chose for the log, but puts the built-in key
  back in place of the cloud's, and no later pass asks for the configuration again.
\<close>
theorem second_start_resets_log_key:
  assumes "ce_initializeSuccess cc" "ce_cloudConfigSet cc"
    and "initialize_nimblenet w t busy json home cc = Inr (r, cc')"
    and "os_directory (wd_os w) (home @ ''/logs'')"
  shows "(os_fopen (wd_os w) (home @ ''/logs/latest.txt'') \<longrightarrow> lc_secretKey (lg_config (ce_logger cc')) = defaultSecretKey) \<and>
    lc_host (lg_config (ce_logger cc')) = lc_host (lg_config (ce_logger cc)) \<and> set_cloud_config w t' cc' = Inr cc'"
proof -
  have fields: "(os_fopen (wd_os w) (home @ ''/logs/latest.txt'') \<longrightarrow> b \<and> lc_secretKey (lg_config l) = defaultSecretKey) \<and>
      lc_host (lg_config l) = lc_host (lg_config (ce_logger cc))"
    if "init_logger (wd_os w) (tk_now t 1) (home @ ''/logs'') (ce_logger cc, d0) = (b, l, d)" for b l d d0
    using that assms(4) by (auto simp: init_logger_def open_log_def Let_def split: if_splits)
  have idle: "cc'' = c" if "cc_initialize w t busy config c = Inr (r, cc'')" "ce_initializeSuccess c" for config c cc''
    using that by (cases busy) (auto simp: cc_initialize_def)
  have rest: "set_cloud_config w t' c = Inr c" if "ce_cloudConfigSet c" for c
    using that by (simp add: set_cloud_config_def)
  from assms(3) show ?thesis
  proof (cases rule: nimblenet_cases)
    case (no_log l d sv)
    with fields [OF no_log(1)] assms(2) show ?thesis by (simp add: rest)
  next
    case (refused l d sv)
    with fields [OF refused(1)] assms(2) show ?thesis by (simp add: rest)
  next
    case (passed_on l d sv config)
    from idle [OF passed_on(4)] assms(1) fields [OF passed_on(1)] assms(2) show ?thesis
      by (simp add: rest update_device_details_def)
  qed
qed

section \<open>Before the start\<close>

text \<open>before a successful start every call of the client is answered without any
  effect, except the one that asks for saved inputs: it has no guard and follows a
  null pointer.
\<close>
theorem calls_before_start:
  assumes "center_reach w cc" "\<not> ce_initializeSuccess cc"
  shows "cc_get_inference w t m req i cc = Inr (TERMINAL_ERROR, None, cc) \<and> exit_inference w t m i ok cc = Inr cc \<and>
    add_user_event w t j n cc = Inr (False, cc) \<and> cc_write_log w (tk_dates t) line cc = cc \<and>
    write_metric w (tk_dates t) kind j cc = cc \<and> internet_switched_on cc = cc \<and> cc_get_model_status m cc = Inr None \<and>
    cc_get_inputs_for_inferId w i cc = Inl Dangling"
proof -
  have "ce_sdk cc = None" using center_reach_inv [OF assms(1)] assms(2) by (simp add: center_inv_def)
  with assms(2) show ?thesis
    by (simp add: cc_get_inference_def exit_inference_def add_user_event_def cc_write_log_def write_metric_def
        internet_switched_on_def cc_get_model_status_def cc_get_inputs_for_inferId_def)
qed

section \<open>Examples\<close>

text \<open>A device with nothing on it, and a server that always fails.\<close>

definition start_config :: config where
  "start_config = \<lparr>cf_valid = True, cf_deviceId = ''d'', cf_clientId = ''c'', cf_host = ''http://h'', cf_clientSecret = ''s'',
     cf_modelIds = [''m''], cf_featureStores = [], cf_tableInfos = [], cf_debug = False, cf_maxInputsToSave = 0\<rparr>"

definition start_parse :: "string \<Rightarrow> json option" where
  "start_parse text = (if text = ''config'' then Some (demo_config ''http://h'') else None)"

definition start_net :: "nat \<Rightarrow> net_request \<Rightarrow> c_response" where
  "start_net k q = \<lparr>cr_statusCode = 500, cr_body = Some [], cr_bodyLength = 0\<rparr>"

definition start_world :: "(32 word, 64 word, nat, nat) world" where
  "start_world = \<lparr>wd_platform = \<lparr>pf_net = start_net, pf_parse = start_parse, pf_dump = (\<lambda>j. ''{}''), pf_writable = (\<lambda>f. True)\<rparr>,
     wd_onnx = demo_onnx, wd_os = demo_os, wd_db = 0\<rparr>"

definition start_ticks :: ticks where
  "start_ticks = \<lparr>tk_now = (\<lambda>k. 0), tk_seconds = 0, tk_dates = (\<lambda>k. ''d''), tk_row = (\<lambda>i j. 0), tk_table = (\<lambda>i. 0),
     tk_load = (\<lambda>i. demo_loading), tk_query = (\<lambda>i j k. k), tk_metrics = None\<rparr>"

definition fresh_center :: "(32 word, 64 word, nat, nat) command_center" where
  "fresh_center = new_command_center 0 demo_device"

definition opened_log :: "string \<Rightarrow> logger" where
  "opened_log dir = update_device_details ''d'' ''c'' False (new_logger\<lparr>lg_logDirectory := dir, lg_writeFile := dir @ ''/latest.txt'',
     lg_open := True, lg_position := 0, lg_lastLogTime := - 2 * lg_timer_interval new_logger * 10 ^ 9,
     lg_config := (lg_config new_logger)\<lparr>lc_secretKey := defaultSecretKey\<rparr>\<rparr>)"

definition log_device :: device where
  "log_device = demo_device\<lparr>dv_home := ''/home/'', dv_files := smap_ensure [] ''/home//logs/latest.txt'' (dv_files demo_device)\<rparr>"

definition started_sdk :: "(32 word, 64 word, nat, nat) sdk" where
  "started_sdk = \<lparr>sd_config = start_config,
     sd_server = (new_server_api demo_device)\<lparr>sa_device := log_device\<lparr>dv_files := smap_ensure [] ''/home//metrics/latest.txt'' (dv_files log_device)\<rparr>\<rparr>,
     sd_executor = \<lparr>ex_modelMap = [], ex_loadModelRetries = smap_put ''m'' 3 [], ex_isModelUpdated = smap_put ''m'' False [],
       ex_inferenceDataBase = \<lparr>id_inputs = [], id_inferIds = [], id_overWriteInferenceIndex = 0, id_maxInferencesSaved = 0\<rparr>, ex_created = 0\<rparr>,
     sd_features = new_feature_store_manager [],
     sd_events = \<lparr>ue_db = 0, ue_tableStoreMap = [], ue_modelInputToTableNameMap = [], ue_debugMode = False\<rparr>\<rparr>"

definition started_center :: "(32 word, 64 word, nat, nat) command_center" where
  "started_center = fresh_center\<lparr>ce_config := start_config, ce_initializeSuccess := True, ce_metricsAgent := opened_log ''/home//metrics'',
     ce_logger := opened_log ''/home//logs'', ce_server := (new_server_api demo_device)\<lparr>sa_device := log_device\<rparr>, ce_sdk := Some started_sdk\<rparr>"

lemma start_config: "load_user_config start_parse ''config'' = Inr start_config"
  by code_simp

lemma start_open: "init_logger demo_os 0 dir (new_logger, d) =
   (True, new_logger\<lparr>lg_logDirectory := dir, lg_writeFile := dir @ ''/latest.txt'', lg_open := True, lg_position := 0,
     lg_lastLogTime := - 2 * lg_timer_interval new_logger * 10 ^ 9, lg_config := (lg_config new_logger)\<lparr>lc_secretKey := defaultSecretKey\<rparr>\<rparr>,
    d\<lparr>dv_files := smap_ensure [] (dir @ ''/latest.txt'') (dv_files d)\<rparr>)"
  by (simp add: init_logger_def Let_def open_log_def demo_os_def new_logger_def)

lemma start_managers:
  "create_managers start_world start_ticks start_config (sd_server started_sdk) = Inr started_sdk"
  by (simp add: create_managers_def start_world_def start_config_def new_executor_def new_inference_db_def new_user_events_def
      started_sdk_def DEFAULT_LOAD_MODEL_RETRIES_def)

lemma start_load: "load_from_device start_world start_ticks start_config started_sdk = Inr started_sdk"
proof -
  have "get_file_from_device (sa_device (sd_server started_sdk)) (''m'' @ INFERENCEMETADATAFILENAME) = None"
    by (simp add: started_sdk_def log_device_def demo_device_def get_file_from_device_def INFERENCEMETADATAFILENAME_def)
  then show ?thesis
    by (simp add: load_from_device_def start_config_def load_plan_from_device_def get_inference_plan_data_from_device_def no_plan_data_def)
qed

lemma start_parameters [simp]:
  "wd_os start_world = demo_os" "pf_parse (wd_platform start_world) = start_parse" "tk_now start_ticks k = 0"
  by (simp_all add: start_world_def start_ticks_def)

definition log_center :: "(32 word, 64 word, nat, nat) command_center" where
  "log_center = fresh_center\<lparr>ce_logger := opened_log ''/home//logs'', ce_server := (new_server_api demo_device)\<lparr>sa_device := log_device\<rparr>\<rparr>"

lemma start_center: "cc_initialize start_world start_ticks False start_config log_center = Inr (1, started_center)"
proof -
  have fields: "\<not> ce_initializeSuccess log_center" "cf_valid start_config" "center_server log_center = (new_server_api demo_device)\<lparr>sa_device := log_device\<rparr>"
    "ce_metricsAgent log_center = new_logger" "dv_home log_device = ''/home/''" "cf_deviceId start_config = ''d''" "cf_clientId start_config = ''c''"
    by (simp_all add: log_center_def fresh_center_def new_command_center_def center_server_def start_config_def log_device_def)
  have device: "(new_server_api demo_device)\<lparr>sa_device := log_device\<lparr>dv_files := smap_ensure [] ''/home//metrics/latest.txt'' (dv_files log_device)\<rparr>\<rparr>
      = sd_server started_sdk" by (simp add: started_sdk_def)
  have center: "log_center\<lparr>ce_config := start_config, ce_metricsAgent := opened_log ''/home//metrics'', ce_sdk := Some started_sdk,
      ce_initializeSuccess := True\<rparr> = started_center"
    by (simp add: log_center_def started_center_def)
  show ?thesis
    by (simp add: cc_initialize_def fields start_open device start_managers start_load center [unfolded opened_log_def, simplified])
qed

lemma start_runs:
  "initialize_nimblenet start_world start_ticks False ''config'' ''/home/'' fresh_center = Inr (1, started_center)"
proof -
  have fields: "center_server fresh_center = new_server_api demo_device" "ce_logger fresh_center = new_logger" "ce_sdk fresh_center = None"
    "cf_valid start_config" "cf_deviceId start_config = ''d''" "cf_clientId start_config = ''c''" "cf_debug start_config = False"
    by (simp_all add: fresh_center_def new_command_center_def center_server_def start_config_def)
  show ?thesis using start_center
    by (simp add: initialize_nimblenet_def fields start_open start_config Let_def new_server_api_def log_center_def log_device_def
        opened_log_def set_server_def center_server_def fresh_center_def new_command_center_def demo_device_def)
qed

text \<open>The background loop before the first upload is due: nothing the server says gets through.\<close>

definition loop_ticks :: ticks where
  "loop_ticks = start_ticks\<lparr>tk_now := (\<lambda>k. - (10 ^ 10))\<rparr>"

lemma loop_now [simp]: "tk_now loop_ticks k = - (10 ^ 10)"
  by (simp add: loop_ticks_def)

definition waiting :: "(32 word, 64 word, nat, nat) command_center \<Rightarrow> bool" where
  "waiting cc = (ce_config cc = start_config \<and> ce_sdk cc \<noteq> None \<and>
     lg_timer_interval (ce_logger cc) = 5 \<and> lg_lastLogTime (ce_logger cc) = - (10 ^ 10) \<and>
     lg_timer_interval (ce_metricsAgent cc) = 5 \<and> lg_lastLogTime (ce_metricsAgent cc) = - (10 ^ 10))"

definition down :: c_response where
  "down = \<lparr>cr_statusCode = 500, cr_body = Some [], cr_bodyLength = 0\<rparr>"

lemma down_simps [simp]: "body_string down = Inr []" "cr_statusCode down = 500"
  by (simp_all add: down_def body_string_def)

lemma start_send: obtains sv where "api_send (wd_platform start_world) s r = (down, sv)"
  by (simp add: api_send_def start_world_def start_net_def send_request_def network_response_def down_def Let_def)

lemma start_get: "\<exists>sv. authorised_get (wd_platform start_world) b path n s = Inr (down, sv)"
  by (rule start_send [of s "get_request s path"]) (simp add: authorised_get.simps AUTH_ERR_def)

lemma start_empty [simp]: "parser_get start_parse d g [] = Inr d"
  by (simp add: parser_get_def get_json_def start_parse_def)

lemma start_register: "\<exists>sv. device_register (wd_platform start_world) s = Inr (False, sv)"
  by (rule start_send [of s "register_request (wd_platform start_world) s"])
    (simp add: device_register_def no_register_def no_base_def SUCCESS_def JSON_PARSE_ERR_def)

lemma start_auth: "parser_get start_parse no_auth auth_from_json str = Inr no_auth"
  by (simp add: parser_get_def get_json_def start_parse_def get_from_json_def auth_from_json_def demo_config_def field_def jat_jobject)

lemma start_init: "\<exists>r. server_init (wd_platform start_world) c s = Inr r"
proof -
  obtain sv where "device_register (wd_platform start_world) (s\<lparr>sa_registerRetries := sa_registerRetries s - 1, sa_HOST := cf_host c, sa_config := c\<rparr>) = Inr (False, sv)"
    using start_register by blast
  moreover have "\<not> ai_valid no_auth" by (simp add: no_auth_def)
  ultimately show ?thesis by (auto simp: server_init_def Let_def start_auth split: option.split)
qed

lemma write_log_clock:
  assumes "write_log os dates message kind (l, d) = (l', d')"
  shows "lg_timer_interval l' = lg_timer_interval l \<and> lg_lastLogTime l' = lg_lastLogTime l"
  using assms by (auto simp: write_log_def rotate_log_def open_log_def Let_def split: if_splits)

lemma waiting_log:
  assumes "waiting cc"
  shows "waiting (log_metrics w dates kind j (set_server sv (cc\<lparr>ce_cloudConfigFetchRetries := n\<rparr>)))"
proof -
  obtain l d where "LOGMETRICS (wd_os w) dates kind (pf_dump (wd_platform w) j) (ce_metricsAgent cc, sa_device sv) = (l, d)" by fastforce
  moreover from this have "lg_timer_interval l = lg_timer_interval (ce_metricsAgent cc) \<and> lg_lastLogTime l = lg_lastLogTime (ce_metricsAgent cc)"
    unfolding LOGMETRICS_def by (rule write_log_clock)
  ultimately show ?thesis using assms
    by (cases "ce_sdk cc") (simp_all add: waiting_def log_metrics_def with_metrics_def set_server_def center_server_def)
qed

lemma start_cloud:
  assumes "waiting cc"
  shows "\<exists>cc'. set_cloud_config start_world loop_ticks cc = Inr cc' \<and> waiting cc'"
proof (cases "fetches_left cc = 0")
  case True
  with assms show ?thesis by (simp add: set_cloud_config_idle)
next
  case False
  then have still: "\<not> ce_cloudConfigSet cc" "ce_cloudConfigFetchRetries cc \<noteq> 0" by (auto simp: fetches_left_def split: if_splits)
  have "\<exists>r sv. get_cloud_config (wd_platform start_world) 0 DEFAULT_AUTH_ERROR_RETRIES s = Inr (r, sv) \<and> br_status (cl_base r) \<noteq> SUCCESS" for s
    using start_get [of True "clients_path HTTPSERVICE (cf_clientId (sa_config s)) @ ''/events/config''" DEFAULT_AUTH_ERROR_RETRIES s]
    by (auto simp: get_cloud_config_def decode_response_def finish_cloud_config_def no_cloud_def no_base_def SUCCESS_def JSON_PARSE_ERR_def)
  then obtain r sv where "get_cloud_config (wd_platform start_world) 0 DEFAULT_AUTH_ERROR_RETRIES (center_server cc) = Inr (r, sv)"
    "br_status (cl_base r) \<noteq> SUCCESS" by blast
  with still waiting_log [OF assms] show ?thesis by (simp add: set_cloud_config_def Let_def)
qed

lemma start_update:
  assumes "waiting cc"
  shows "\<exists>cc'. on_sdk (update_resources start_world loop_ticks start_config) cc = Inr cc' \<and> waiting cc'"
proof -
  obtain s where s: "ce_sdk cc = Some s" using assms by (auto simp: waiting_def)
  have load: "\<exists>e s'. load_plan (wd_platform start_world) E c m s = Inr (e, s')" for E c m and s :: "(32 word, 64 word, nat, nat) sdk"
  proof -
    obtain sv where "authorised_get (wd_platform start_world) True
        (clients_path HTTPSERVICE (cf_clientId (sd_config s)) @ ''/models/'' @ m @ ''/version'') DEFAULT_AUTH_ERROR_RETRIES (sd_server s) = Inr (down, sv)"
      using start_get by blast
    then show ?thesis
      by (simp add: load_plan_def version_check_def version_request_of_def decode_response_def no_version_def no_base_def SUCCESS_def JSON_PARSE_ERR_def)
  qed
  have update: "\<exists>s'. update_plan_if_required (wd_platform start_world) E c m s = Inr s'" for E c m and s :: "(32 word, 64 word, nat, nat) sdk"
  proof -
    obtain e s' where "load_plan (wd_platform start_world) E c m (s\<lparr>sd_executor := snd (can_model_retry m (sd_executor s))\<rparr>) = Inr (e, s')"
      using load by blast
    then show ?thesis by (cases "can_model_retry m (sd_executor s)") (auto simp: update_plan_if_required_def Let_def)
  qed
  obtain s' where "update_plan_if_required (wd_platform start_world) (wd_onnx start_world) (tk_load loop_ticks 0) ''m'' s = Inr s'"
    using update by blast
  then have "update_resources start_world loop_ticks start_config s = Inr s'"
    by (simp add: update_resources_def start_config_def)
  with s assms show ?thesis by (simp add: on_sdk_def waiting_def)
qed

lemma start_pass:
  assumes "waiting cc"
  shows "\<exists>cc'. long_running_pass start_world loop_ticks b cc = Inr cc' \<and> waiting cc'"
proof -
  obtain ok sv where init: "server_init (wd_platform start_world) (ce_config cc) (center_server cc) = Inr (ok, sv)"
    using start_init by (metis surj_pair)
  have "waiting (set_server sv cc)" using assms by (cases "ce_sdk cc") (simp_all add: waiting_def set_server_def)
  then obtain cc1 where cc1: "set_cloud_config start_world loop_ticks (set_server sv cc) = Inr cc1" "waiting cc1" using start_cloud by blast
  obtain cc2 where cc2: "on_sdk (update_resources start_world loop_ticks start_config) cc1 = Inr cc2" "waiting cc2"
    using start_update [OF cc1(2)] by blast
  define cc3 where "cc3 = get_metrics start_world loop_ticks cc2"
  have "waiting cc3"
    using cc2(2) by (simp add: cc3_def get_metrics_def loop_ticks_def start_ticks_def)
  then have "\<exists>cc4. send_metrics start_world loop_ticks b cc3 = Inr cc4 \<and> waiting cc4"
    by (cases "ce_sdk cc3") (simp_all add: waiting_def send_metrics_def send_pending_logs_def loop_ticks_def set_server_def)
  then obtain cc4 where cc4: "send_metrics start_world loop_ticks b cc3 = Inr cc4" "waiting cc4" by blast
  then have "\<exists>cc5. send_log start_world loop_ticks b cc4 = Inr cc5 \<and> waiting cc5"
    by (cases "ce_sdk cc4") (simp_all add: waiting_def send_log_def send_pending_logs_def loop_ticks_def set_server_def)
  moreover have "ce_config cc = start_config" using assms by (simp add: waiting_def)
  ultimately show ?thesis using init cc1(1) cc2(1) cc4(1) by (simp add: long_running_pass_def cc3_def)
qed

lemma start_loop:
  assumes "waiting cc"
  shows "\<exists>cc'. perform_long_running_tasks start_world (replicate n loop_ticks) cc = Inr cc'"
proof -
  have "\<exists>cc'. ufold (\<lambda>(i, t). long_running_pass start_world t (0 < i)) (enumerate k (replicate n loop_ticks)) cc = Inr cc' \<and> waiting cc'" for k
  proof (rule ufold_total)
    fix x c assume "x \<in> set (enumerate k (replicate n loop_ticks))" "waiting c"
    then show "\<exists>u. (case x of (i, t) \<Rightarrow> long_running_pass start_world t (0 < i)) c = Inr u \<and> waiting u"
      using start_pass by (auto simp: in_set_enumerate_eq split: prod.split)
  qed (rule assms)
  then show ?thesis unfolding perform_long_running_tasks_def by blast
qed

lemma start_waiting: "waiting started_center"
  by (simp add: waiting_def started_center_def opened_log_def update_device_details_def new_logger_def LOG_TIMER_INTERVAL_IN_SECONDS_def)

lemma start_reached: "center_reach start_world started_center"
  by (rule center_reach.initialize [OF center_reach.start start_runs [unfolded fresh_center_def]])

subsection \<open>Witnesses\<close>

lemma start_sends_nothing_witness:
  "\<exists>cc. initialize_nimblenet start_world start_ticks False ''config'' ''/home/'' fresh_center = Inr (1, cc) \<and>
    sent (center_server cc) = [] \<and> ce_initializeSuccess cc"
  using start_sends_nothing [OF start_runs] start_runs
  by (simp add: fresh_center_def new_command_center_def center_server_def sent_def new_server_api_def demo_device_def)

lemma cloud_config_settles_witness:
  "\<exists>cc. perform_long_running_tasks start_world (replicate 3 loop_ticks) started_center = Inr cc \<and>
    set_cloud_config start_world loop_ticks cc = Inr cc"
proof -
  obtain cc where "perform_long_running_tasks start_world (replicate 3 loop_ticks) started_center = Inr cc"
    using start_loop [OF start_waiting] by blast
  with cloud_config_settles [OF start_reached this] show ?thesis by simp
qed

lemma second_start_resets_log_key_witness:
  "\<exists>r cc. initialize_nimblenet start_world start_ticks False ''config'' ''/home/'' (started_center\<lparr>ce_cloudConfigSet := True\<rparr>) = Inr (r, cc) \<and>
    lc_secretKey (lg_config (ce_logger cc)) = defaultSecretKey \<and> set_cloud_config start_world start_ticks cc = Inr cc"
proof -
  have "\<exists>r cc. initialize_nimblenet start_world start_ticks False ''config'' ''/home/'' (started_center\<lparr>ce_cloudConfigSet := True\<rparr>) = Inr (r, cc)"
    by (simp add: initialize_nimblenet_def start_config Let_def cc_initialize_def set_server_def started_center_def split: prod.split)
  then obtain r cc where r: "initialize_nimblenet start_world start_ticks False ''config'' ''/home/'' (started_center\<lparr>ce_cloudConfigSet := True\<rparr>) = Inr (r, cc)"
    by blast
  with second_start_resets_log_key [OF _ _ r, of start_ticks] show ?thesis
    by (auto simp: started_center_def demo_os_def)
qed

lemma calls_before_start_witness:
  "cc_get_inputs_for_inferId start_world ''i'' fresh_center = Inl Dangling"
proof -
  have "center_reach start_world fresh_center" unfolding fresh_center_def by (rule center_reach.start)
  moreover have "\<not> ce_initializeSuccess fresh_center" by (simp add: fresh_center_def new_command_center_def)
  ultimately show ?thesis using calls_before_start by blast
qed


lemma collection_interval_fixed_witness: "cg_metricsCollectionInterval (ce_cloudConfig started_center) = 20"
  by (rule collection_interval_fixed [OF start_reached])


end
