(* ===== verification/Linux_Client.thy ===== *)
theory Linux_Client
  imports Native_Interface Value_Type
begin

text \<open>
  \<open>linux/src/client.cpp\<close>: the client the SDK is linked with on Linux.  libcurl is a
  parameter: which pieces it hands to the write callback and how the transfer ends.
  So are the parser of JSON, and which allocations and \<open>fopen\<close>s succeed.  \<open>None\<close> is a
  process that has left through \<open>exit\<close>.  C strings are lists without \<open>NUL\<close>.
\<close>

section \<open>The buffer of a response\<close>

definition NUL :: char where "NUL = char_of (0 :: nat)"

record stringy =
  st_ptr :: string
  st_len :: nat

definition init_string :: "(nat \<Rightarrow> bool) \<Rightarrow> stringy option" where
  "init_string alloc = (if alloc 1 then Some \<lparr>st_ptr = [NUL], st_len = 0\<rparr> else None)"

text \<open>\<open>size * nmemb\<close> bytes at \<open>ptr\<close>; \<open>realloc\<close> keeps what was there.\<close>

definition writefunc :: "(nat \<Rightarrow> bool) \<Rightarrow> string \<Rightarrow> stringy \<Rightarrow> stringy option" where
  "writefunc alloc ptr s =
     (let new_len = st_len s + length ptr in
      if alloc (new_len + 1) then Some \<lparr>st_ptr = take (st_len s) (st_ptr s) @ ptr @ [NUL], st_len = new_len\<rparr> else None)"

fun deliver :: "(nat \<Rightarrow> bool) \<Rightarrow> string list \<Rightarrow> stringy \<Rightarrow> stringy option" where
  "deliver alloc [] s = Some s"
| "deliver alloc (ptr # ptrs) s = Option.bind (writefunc alloc ptr s) (deliver alloc ptrs)"

section \<open>Requests\<close>

definition c_str :: "string \<Rightarrow> string" where
  "c_str s = takeWhile (\<lambda>c. c \<noteq> NUL) s"

text \<open>
  \<open>std::string(jsonheaders[key])\<close> throws for a value that is not a string; the lines
  appended before stay in the list.  A document that is not an object throws at its
  first item, or has none.
\<close>

fun header_entries :: "(string \<times> json) list \<Rightarrow> string list" where
  "header_entries ((key, JString v) # items) = c_str (key @ '': '' @ v) # header_entries items"
| "header_entries items = []"

definition header_lines :: "(string \<Rightarrow> json option) \<Rightarrow> string \<Rightarrow> string list" where
  "header_lines parse headers_c = (case parse headers_c of Some (JObject m) \<Rightarrow> header_entries m | _ \<Rightarrow> [])"

record curl_request =
  cq_url :: string
  cq_httpheader :: "string list"
  cq_postfields :: "string option"

text \<open>\<open>ce_perform\<close>: the pieces, and whether the result was \<open>CURLE_OK\<close>; \<open>ce_getinfo\<close>: the status.\<close>

record curl_env =
  cu_alloc :: "nat \<Rightarrow> bool"
  cu_perform :: "curl_request \<Rightarrow> string list \<times> bool"
  cu_getinfo :: "curl_request \<Rightarrow> int option"

definition failed_response :: c_response where
  "failed_response = \<lparr>cr_statusCode = 900, cr_body = None, cr_bodyLength = 0\<rparr>"

definition curl_request_of :: "(string \<Rightarrow> json option) \<Rightarrow> net_request \<Rightarrow> curl_request" where
  "curl_request_of parse r =
     \<lparr>cq_url = c_str (nr_url r), cq_httpheader = header_lines parse (c_str (nr_headers r)),
      cq_postfields = (if c_str (nr_method r) \<noteq> ''GET'' then Some (c_str (nr_body r)) else None)\<rparr>"

definition linux_send_request :: "curl_env \<Rightarrow> (string \<Rightarrow> json option) \<Rightarrow> net_request \<Rightarrow> c_response option" where
  "linux_send_request E parse r =
     Option.bind (init_string (cu_alloc E)) (\<lambda>s0.
       case cu_perform E (curl_request_of parse r) of (pieces, ok) \<Rightarrow>
         Option.bind (deliver (cu_alloc E) pieces s0) (\<lambda>s.
           if \<not> ok then Some failed_response
           else case cu_getinfo E (curl_request_of parse r) of
             None \<Rightarrow> Some failed_response
           | Some http_code \<Rightarrow> Some \<lparr>cr_statusCode = cast_signed 32 http_code, cr_body = Some (st_ptr s),
               cr_bodyLength = cast_signed 32 (int (st_len s))\<rparr>))"

section \<open>Hardware\<close>

definition linux_get_battery_status :: string where
  "linux_get_battery_status = ''{\"status\":\"success\",\"error\":\"\",\"battery_level\":50,\"charging_status\":true}''"

definition linux_get_temperature_status :: string where
  "linux_get_temperature_status = ''{\"status\":\"success\",\"error\":\"\",\"cpu_temp\":20,\"gpu_temp\":20,\"battery_temp\":20}''"

definition linux_get_cpu_status :: string where
  "linux_get_cpu_status = ''{\"status\":\"success\",\"usage\":77.9, \"gpu_load\":10.9}''"

definition linux_get_memory_status :: string where
  "linux_get_memory_status = ''{\"status\":\"success\", \"ram\": 5.5, \"storage\": 70.4}''"

text \<open>\<open>gpu_vendor\<close> has no quotes.\<close>

definition linux_get_hardware_info :: string where
  "linux_get_hardware_info = ''{\"status\":\"success\", \"kernel_version\":\"kernel1\", \"model\":\"cpu model1\", \"cpu_arch\":\"cpu architecture\", '' @
     ''\"cpu_num\":8, \"clock_speed\": \"8.5\", \"cache\":12, \"cores\":8, \"threads\":3, gpu_vendor:\"gpu vendor\", '' @
     ''\"gpu_renderer\":\"gpu Renderer 1\", \"gpu_version\":\"GPU Version 1\"}''"

definition linux_get_metrics :: "string \<Rightarrow> string" where
  "linux_get_metrics metricType = ''{}''"

section \<open>Files\<close>

text \<open>\<open>can\<close>: which files \<open>fopen\<close> opens for writing; a null \<open>FILE\<close> is written to all the same.\<close>

definition linux_save :: "(string \<Rightarrow> bool) \<Rightarrow> string \<Rightarrow> string \<Rightarrow> bool \<Rightarrow> (string, string) smap \<Rightarrow> (string \<times> (string, string) smap) outcome" where
  "linux_save can inputStream filePath overwrite files =
     (if \<not> can filePath then Inl Dangling
      else let text = (if overwrite then [] else smap_at [] files filePath) @ c_str inputStream in
        Inr (''{\"status\":true, \"error\":\"\", \"file_location\":\"'' @ c_str filePath @ ''\"}'', smap_put filePath text files))"

text \<open>\<open>can\<close>: which files \<open>remove\<close> removes; the result does not tell.\<close>

definition linux_deleteData :: "(string \<Rightarrow> bool) \<Rightarrow> string \<Rightarrow> (string, string) smap \<Rightarrow> int \<times> (string, string) smap" where
  "linux_deleteData can filePath files = (1, if can filePath then smap_erase filePath files else files)"

definition linux_retrieve :: "string \<Rightarrow> (string, string) smap \<Rightarrow> string" where
  "linux_retrieve filePath files =
     (case smap_find files filePath of
        None \<Rightarrow> ''{\"status\":false, \"error\":\"ERROR\", \"data\":\"\"}''
      | Some text \<Rightarrow> ''{\"status\":true, \"error\":\"\", \"data\":'' @ c_str text @ ''}'')"

definition linux_check_if_exists :: "string \<Rightarrow> (string, string) smap \<Rightarrow> int" where
  "linux_check_if_exists filePath files = (if smap_find files filePath = None then 0 else 1)"

definition linux_save_to_cache :: "(string \<Rightarrow> bool) \<Rightarrow> string \<Rightarrow> string \<Rightarrow> (string, string) smap \<Rightarrow> (string \<times> (string, string) smap) outcome" where
  "linux_save_to_cache can data filePath files = linux_save can data filePath True files"

definition linux_retrieve_from_cache :: "string \<Rightarrow> (string, string) smap \<Rightarrow> string" where
  "linux_retrieve_from_cache filePath files = linux_retrieve filePath files"

text \<open>What \<open>log_debug\<close> and its siblings print.\<close>

definition linux_log :: "string \<Rightarrow> string \<Rightarrow> string" where
  "linux_log level message = level @ '':'' @ c_str message @ [CHR 0x0A]"

section \<open>Facts\<close>

lemma deliver_result:
  "deliver alloc ptrs s = Some t \<Longrightarrow> st_ptr s = d @ [NUL] \<Longrightarrow> st_len s = length d \<Longrightarrow>
    st_ptr t = d @ concat ptrs @ [NUL] \<and> st_len t = length (d @ concat ptrs)"
proof (induction ptrs arbitrary: s d)
  case (Cons ptr ptrs)
  then obtain u where u: "writefunc alloc ptr s = Some u" "deliver alloc ptrs u = Some t"
    by (auto simp: bind_eq_Some_conv)
  have "st_ptr u = (d @ ptr) @ [NUL]" "st_len u = length (d @ ptr)"
    using u(1) Cons.prems(2,3) by (auto simp: writefunc_def Let_def split: if_splits)
  from Cons.IH [OF u(2) this] show ?case by simp
qed simp

lemma deliver_total: "(\<And>n. alloc n) \<Longrightarrow> \<exists>t. deliver alloc ptrs s = Some t"
  by (induction ptrs arbitrary: s) (simp_all add: writefunc_def Let_def)

lemma c_str_terminated: "takeWhile (\<lambda>c. c \<noteq> NUL) (xs @ [NUL]) = c_str xs"
  by (induction xs) (simp_all add: c_str_def)

section \<open>Properties\<close>

text \<open>C34: in whatever pieces libcurl hands over the body of a response below 2 GiB, and
  whatever bytes it has, the SDK reads back exactly the pieces in their order, with
  the status of the server, both as a string with a length and, up to the first
  \<open>NUL\<close>, as a C string; a transfer that failed reads as status 900 with an empty body.
\<close>
theorem linux_response_reassembled:
  assumes "linux_send_request E parse r = Some resp" "cu_perform E (curl_request_of parse r) = (pieces, ok)"
    and "length (concat pieces) < 2 ^ 31"
  shows "if ok \<and> cu_getinfo E (curl_request_of parse r) \<noteq> None
    then cr_statusCode resp = cast_signed 32 (the (cu_getinfo E (curl_request_of parse r))) \<and>
      body_string (network_response resp) = Inr (concat pieces) \<and>
      body_c_string (network_response resp) = Inr (c_str (concat pieces))
    else cr_statusCode resp = 900 \<and> body_string (network_response resp) = Inr []"
proof (cases "ok \<and> cu_getinfo E (curl_request_of parse r) \<noteq> None")
  case True
  then obtain code where code: "cu_getinfo E (curl_request_of parse r) = Some code" by blast
  obtain s where s: "deliver (cu_alloc E) pieces \<lparr>st_ptr = [NUL], st_len = 0\<rparr> = Some s"
    "resp = \<lparr>cr_statusCode = cast_signed 32 code, cr_body = Some (st_ptr s), cr_bodyLength = cast_signed 32 (int (st_len s))\<rparr>"
    using assms(1,2) True code
    by (auto simp: linux_send_request_def init_string_def bind_eq_Some_conv split: if_splits)
  have t: "st_ptr s = concat pieces @ [NUL]" "st_len s = length (concat pieces)"
    using deliver_result [OF s(1), of "[]"] by simp_all
  have "cast_signed 32 (int (length (concat pieces))) = int (length (concat pieces))"
    using assms(3) by (simp add: cast_signed_def)
  with True code s(2) t show ?thesis
    by (simp add: network_response_def body_string_def body_c_string_def c_str_terminated [symmetric] NUL_def del: takeWhile_append)
next
  case False
  then have "resp = failed_response"
    using assms(1,2) by (auto simp: linux_send_request_def init_string_def bind_eq_Some_conv split: if_splits option.splits)
  then show ?thesis unfolding if_not_P [OF False] by (simp add: failed_response_def network_response_def body_string_def)
qed

text \<open>text saved under a path is what \<open>retrieve\<close> puts into its answer, until the file
  is deleted, whatever else is saved elsewhere; a path that was never written, or was
  deleted, gives the error answer.
\<close>
theorem linux_file_roundtrip:
  assumes "linux_save can str path True files = Inr (answer, files')" "NUL \<notin> set str" "other \<noteq> path"
    and "linux_save can str' other overwrite files' = Inr (answer', files'')" "removable path"
  shows "linux_retrieve path files'' = ''{\"status\":true, \"error\":\"\", \"data\":'' @ str @ ''}'' \<and>
    linux_check_if_exists path files'' = 1 \<and>
    linux_retrieve path (snd (linux_deleteData removable path files'')) = ''{\"status\":false, \"error\":\"ERROR\", \"data\":\"\"}''"
proof -
  have "c_str str = str" using assms(2) by (auto simp: c_str_def takeWhile_eq_all_conv)
  with assms(1,3-5) show ?thesis
    by (auto simp: linux_save_def Let_def linux_retrieve_def linux_check_if_exists_def linux_deleteData_def split: if_splits)
qed

text \<open>A server of two pieces, and an allocator that never fails.\<close>

definition demo_curl :: curl_env where
  "demo_curl = \<lparr>cu_alloc = (\<lambda>n. True), cu_perform = (\<lambda>q. ([''ab'', [NUL], ''c''], True)), cu_getinfo = (\<lambda>q. Some 200)\<rparr>"

definition demo_get :: net_request where
  "demo_get = \<lparr>nr_body = [], nr_headers = ''h'', nr_url = ''u'', nr_method = ''GET''\<rparr>"

lemma linux_response_reassembled_witness:
  "\<exists>resp. linux_send_request demo_curl (\<lambda>s. None) demo_get = Some resp \<and> cr_statusCode resp = 200 \<and>
    body_string (network_response resp) = Inr (''ab'' @ [NUL] @ ''c'') \<and> body_c_string (network_response resp) = Inr ''ab''"
proof -
  obtain resp where resp: "linux_send_request demo_curl (\<lambda>s. None) demo_get = Some resp"
    by (simp add: linux_send_request_def demo_curl_def init_string_def writefunc_def Let_def)
  have "cu_perform demo_curl (curl_request_of (\<lambda>s. None) demo_get) = ([''ab'', [NUL], ''c''], True)"
    by (simp add: demo_curl_def)
  moreover have "c_str (''ab'' @ [NUL] @ ''c'') = ''ab''" by code_simp
  ultimately show ?thesis
    using linux_response_reassembled [OF resp] resp by (simp add: demo_curl_def cast_signed_def)
qed

lemma linux_file_roundtrip_witness:
  "linux_retrieve ''p'' (smap_put ''q'' ''y'' (smap_put ''p'' ''x'' [])) = ''{\"status\":true, \"error\":\"\", \"data\":x}''"
proof -
  have "c_str ''x'' = ''x''" "c_str ''y'' = ''y''" "NUL \<notin> set ''x''" by code_simp+
  then show ?thesis
    using linux_file_roundtrip [of "\<lambda>f. True" "''x''" "''p''" "[]" _ "smap_put ''p'' ''x'' []" "''q''" "''y''" True _
        "smap_put ''q'' ''y'' (smap_put ''p'' ''x'' [])" "\<lambda>f. True"]
    by (simp add: linux_save_def)
qed

end
