(* ===== verification/Android_Client.thy ===== *)
theory Android_Client
  imports Server_Api
begin

text \<open>
  \<open>android/src/client.cpp\<close>: the client the SDK is linked with on Android.  It calls
  Java through JNI, so it attaches a native thread to the virtual machine for the time
  of a call.  The Java side is a parameter: whether a thread can be attached, which
  classes are found, and what the static methods return, \<open>None\<close> for a null reference,
  which the client goes on to use.
\<close>

section \<open>The virtual machine\<close>

record java_response =
  jr_statusCode :: int
  jr_headers :: "string option"
  jr_body :: "string option"
  jr_bodyLength :: int

record java =
  jv_attach :: bool
  jv_class :: "bool \<Rightarrow> string \<Rightarrow> bool"
  jv_sendRequest :: "net_request \<Rightarrow> java_response option"
  jv_save :: "string \<Rightarrow> string \<Rightarrow> string option"
  jv_retrieve :: "string \<Rightarrow> string option"
  jv_metrics :: "string option"

text \<open>
  The state of the calling thread, and the global method ids of \<open>save\<close> and
  \<open>retrieve\<close>: a thread that had to be attached uses what an earlier call left there.
\<close>

record jni =
  jn_attached :: bool
  jn_Save :: bool
  jn_Retrieve :: bool

text \<open>
  The start of every call: \<open>None\<close> when the thread cannot be attached, else whether it
  was attached by this call.  \<open>findClass\<close> goes through the class loader of the
  application, \<open>FindClass\<close> through that of the caller.
\<close>

definition jni_enter :: "java \<Rightarrow> string \<Rightarrow> jni \<Rightarrow> (bool \<times> jni) option outcome" where
  "jni_enter J clazz s =
     (if \<not> jn_attached s then
        (if \<not> jv_attach J then Inr None
         else if \<not> jv_class J True clazz then Inl Dangling
         else Inr (Some (True, s\<lparr>jn_attached := True\<rparr>)))
      else if \<not> jv_class J False clazz then Inl Dangling
      else Inr (Some (False, s)))"

definition jni_leave :: "bool \<Rightarrow> jni \<Rightarrow> jni" where
  "jni_leave attached s = (if attached then s\<lparr>jn_attached := False\<rparr> else s)"

text \<open>A reference that must not be null.\<close>

definition deref :: "'a option \<Rightarrow> 'a outcome" where
  "deref p = (case p of None \<Rightarrow> Inl Dangling | Some x \<Rightarrow> Inr x)"

section \<open>The calls\<close>

definition emptyResponse :: c_response where
  "emptyResponse = \<lparr>cr_statusCode = 900, cr_body = None, cr_bodyLength = 0\<rparr>"

text \<open>\<open>malloc(n)\<close> and \<open>memcpy\<close> of \<open>n\<close> bytes out of a Java array.\<close>

definition copy_array :: "string \<Rightarrow> int \<Rightarrow> string outcome" where
  "copy_array xs n = (if 0 \<le> n \<and> n \<le> int (length xs) then Inr (take (nat n) xs) else Inl (Out_Of_Bounds n))"

definition android_send_request :: "java \<Rightarrow> net_request \<Rightarrow> jni \<Rightarrow> (c_response \<times> jni) outcome" where
  "android_send_request J r s =
     ubind (jni_enter J ''ai/nimbleedge/io/Networking'' s) (\<lambda>e. case e of
       None \<Rightarrow> Inr (emptyResponse, s)
     | Some (attached, s1) \<Rightarrow>
         ubind (deref (jv_sendRequest J r)) (\<lambda>result.
         ubind (deref (jr_headers result)) (\<lambda>headers.
         ubind (deref (jr_body result)) (\<lambda>temp.
         ubind (copy_array temp (jr_bodyLength result)) (\<lambda>body.
           Inr (\<lparr>cr_statusCode = jr_statusCode result, cr_body = Some body, cr_bodyLength = jr_bodyLength result\<rparr>,
                jni_leave attached s1))))))"

definition android_save :: "java \<Rightarrow> string \<Rightarrow> string \<Rightarrow> jni \<Rightarrow> (string \<times> jni) outcome" where
  "android_save J inputStream filePath s =
     ubind (jni_enter J ''ai/nimbleedge/io/IO'' s) (\<lambda>e. case e of
       None \<Rightarrow> Inr ([], s)
     | Some (attached, s1) \<Rightarrow>
         let s2 = (if attached then s1 else s1\<lparr>jn_Save := True\<rparr>) in
         if \<not> jn_Save s2 then Inl Dangling
         else ubind (deref (jv_save J inputStream filePath)) (\<lambda>str. Inr (str, jni_leave attached s2)))"

definition android_retrieve :: "java \<Rightarrow> string \<Rightarrow> jni \<Rightarrow> (string \<times> jni) outcome" where
  "android_retrieve J filePath s =
     ubind (jni_enter J ''ai/nimbleedge/io/IO'' s) (\<lambda>e. case e of
       None \<Rightarrow> Inr ([], s)
     | Some (attached, s1) \<Rightarrow>
         let s2 = (if attached then s1 else s1\<lparr>jn_Retrieve := True\<rparr>) in
         if \<not> jn_Retrieve s2 then Inl Dangling
         else ubind (deref (jv_retrieve J filePath)) (\<lambda>str. Inr (str, jni_leave attached s2)))"

definition android_get_metrics :: "java \<Rightarrow> string \<Rightarrow> jni \<Rightarrow> (string option \<times> jni) outcome" where
  "android_get_metrics J metricType s =
     ubind (jni_enter J ''ai/nimbleedge/io/HardwareInfo'' s) (\<lambda>e. case e of
       None \<Rightarrow> Inr (None, s)
     | Some (attached, s1) \<Rightarrow>
         ubind (deref (jv_metrics J)) (\<lambda>str. Inr (Some str, jni_leave attached s1)))"

text \<open>The calls without an implementation.\<close>

definition android_deleteData :: "string \<Rightarrow> int" where "android_deleteData filePath = 1"
definition android_check_if_exists :: "string \<Rightarrow> int" where "android_check_if_exists filePath = 1"
definition android_save_to_cache :: "string \<Rightarrow> string \<Rightarrow> string option" where "android_save_to_cache data filePath = None"
definition android_retrieve_from_cache :: "string \<Rightarrow> string option" where "android_retrieve_from_cache filePath = None"
definition android_get_battery_status :: "string option" where "android_get_battery_status = None"
definition android_get_temperature_status :: "string option" where "android_get_temperature_status = None"
definition android_get_cpu_status :: "string option" where "android_get_cpu_status = None"
definition android_get_memory_status :: "string option" where "android_get_memory_status = None"
definition android_get_hardware_info :: "string option" where "android_get_hardware_info = None"

text \<open>\<open>log_debug\<close> and its siblings: priority, tag and message.  The other log calls do nothing.\<close>

definition android_log :: "string \<Rightarrow> string \<Rightarrow> string \<times> string \<times> string" where
  "android_log priority message = (priority, ''NIMBLE-CORE'', message)"

section \<open>Facts\<close>

lemma deref_Inr_iff [simp]: "deref p = Inr x \<longleftrightarrow> p = Some x"
  by (simp add: deref_def split: option.split)

lemma jni_enterE:
  assumes "jni_enter J clazz s = Inr e"
  obtains "e = None" "\<not> jn_attached s" "\<not> jv_attach J"
  | "e = Some (True, s\<lparr>jn_attached := True\<rparr>)" "\<not> jn_attached s"
  | "e = Some (False, s)" "jn_attached s"
  using assms by (auto simp: jni_enter_def split: if_splits)

text \<open>What a call does to the thread: it may only add a method id.\<close>

definition thread_kept :: "jni \<Rightarrow> jni \<Rightarrow> bool" where
  "thread_kept s t = (jn_attached t = jn_attached s \<and> (jn_Save s \<longrightarrow> jn_Save t) \<and> (jn_Retrieve s \<longrightarrow> jn_Retrieve t))"

lemma send_request_thread: "android_send_request J r s = Inr (resp, t) \<Longrightarrow> thread_kept s t"
  unfolding android_send_request_def ubind_Inr_iff
  by (erule exE, erule conjE, erule jni_enterE) (auto simp: ubind_Inr_iff jni_leave_def thread_kept_def)

lemma save_thread: "android_save J str path s = Inr (answer, t) \<Longrightarrow> thread_kept s t"
  unfolding android_save_def ubind_Inr_iff
  by (erule exE, erule conjE, erule jni_enterE) (auto simp: ubind_Inr_iff jni_leave_def thread_kept_def Let_def split: if_splits)

lemma retrieve_thread: "android_retrieve J path s = Inr (answer, t) \<Longrightarrow> thread_kept s t"
  unfolding android_retrieve_def ubind_Inr_iff
  by (erule exE, erule conjE, erule jni_enterE) (auto simp: ubind_Inr_iff jni_leave_def thread_kept_def Let_def split: if_splits)

lemma metrics_thread: "android_get_metrics J kind s = Inr (m, t) \<Longrightarrow> thread_kept s t"
  unfolding android_get_metrics_def ubind_Inr_iff
  by (erule exE, erule conjE, erule jni_enterE) (auto simp: ubind_Inr_iff jni_leave_def thread_kept_def)

text \<open>Any call on one thread.\<close>

inductive android_call :: "java \<Rightarrow> jni \<Rightarrow> jni \<Rightarrow> bool" for J where
  send_request: "android_send_request J r s = Inr (resp, t) \<Longrightarrow> android_call J s t"
| save: "android_save J str path s = Inr (answer, t) \<Longrightarrow> android_call J s t"
| retrieve: "android_retrieve J path s = Inr (answer, t) \<Longrightarrow> android_call J s t"
| metrics: "android_get_metrics J kind s = Inr (m, t) \<Longrightarrow> android_call J s t"

lemma android_call_thread: "android_call J s t \<Longrightarrow> thread_kept s t"
  by (cases rule: android_call.cases) (auto dest: send_request_thread save_thread retrieve_thread metrics_thread)

section \<open>Properties\<close>

text \<open>C33: whatever sequence of calls a thread makes, it ends as it was: a native thread is
  detached from the virtual machine again, a thread of Java stays attached, and a
  method id that was found is never lost; so what a thread of Java saved once can be
  called for ever by threads that have to attach.
\<close>
theorem android_calls_keep_thread:
  assumes "(android_call J)\<^sup>*\<^sup>* s t"
  shows "jn_attached t = jn_attached s \<and> (jn_Save s \<longrightarrow> jn_Save t) \<and> (jn_Retrieve s \<longrightarrow> jn_Retrieve t)"
  using assms
proof (induction rule: rtranclp_induct)
  case (step t u)
  with android_call_thread [OF step(2)] show ?case by (simp add: thread_kept_def)
qed simp

text \<open>the body of an Android response is read back byte for byte by the calls that use
  its length, but it has no terminating \<open>NUL\<close>: \<open>get_model\<close>, which reads it as a C
  string, runs past its end.
\<close>
theorem android_get_model_overreads:
  assumes "android_send_request J r s = Inr (resp, s')" "jv_sendRequest J r = Some j" "jr_body j = Some bytes"
    and "jn_attached s \<or> jv_attach J" "char_of (0 :: nat) \<notin> set bytes" "\<And>k q. pf_net pf k q = resp"
  shows "body_string (network_response resp) = Inr (take (nat (jr_bodyLength j)) bytes) \<and>
    get_model pf q retries sv = Inl (Out_Of_Bounds (jr_bodyLength j))"
proof -
  obtain e where e: "jni_enter J ''ai/nimbleedge/io/Networking'' s = Inr e"
    using assms(1) by (auto simp: android_send_request_def ubind_Inr_iff)
  then have "e \<noteq> None" using assms(4) by (auto simp: jni_enter_def split: if_splits)
  then obtain attached s1 where "e = Some (attached, s1)" by (metis option.exhaust surj_pair)
  with e assms(1-3) have n: "0 \<le> jr_bodyLength j" "jr_bodyLength j \<le> int (length bytes)"
    "resp = \<lparr>cr_statusCode = jr_statusCode j, cr_body = Some (take (nat (jr_bodyLength j)) bytes), cr_bodyLength = jr_bodyLength j\<rparr>"
    by (auto simp: android_send_request_def ubind_Inr_iff copy_array_def split: if_splits)
  have body: "body_string (network_response resp) = Inr (take (nat (jr_bodyLength j)) bytes)"
    using n by (simp add: network_response_def body_string_def)
  have "char_of (0 :: nat) \<notin> set (take (nat (jr_bodyLength j)) bytes)" using assms(5) by (meson in_set_takeD)
  then have "body_c_string (network_response resp) = Inl (Out_Of_Bounds (jr_bodyLength j))"
    using n by (simp add: network_response_def body_c_string_def)
  then have "get_model pf q retries sv = Inl (Out_Of_Bounds (jr_bodyLength j))"
    by (simp add: get_model.simps [of pf q retries sv] api_send_def send_request_def assms(6))
  with body show ?thesis by simp
qed

text \<open>Java that answers every request with three bytes.\<close>

definition demo_java :: java where
  "demo_java = \<lparr>jv_attach = True, jv_class = (\<lambda>loader name. True),
     jv_sendRequest = (\<lambda>r. Some \<lparr>jr_statusCode = 200, jr_headers = Some [], jr_body = Some ''abc'', jr_bodyLength = 3\<rparr>),
     jv_save = (\<lambda>str path. Some []), jv_retrieve = (\<lambda>path. Some ''x''), jv_metrics = Some ''{}''\<rparr>"

definition demo_thread :: jni where
  "demo_thread = \<lparr>jn_attached = False, jn_Save = False, jn_Retrieve = False\<rparr>"

definition demo_request :: net_request where
  "demo_request = \<lparr>nr_body = [], nr_headers = [], nr_url = ''u'', nr_method = ''GET''\<rparr>"

lemma demo_java_send: "android_send_request demo_java demo_request demo_thread =
    Inr (\<lparr>cr_statusCode = 200, cr_body = Some ''abc'', cr_bodyLength = 3\<rparr>, demo_thread)"
  by (simp add: android_send_request_def jni_enter_def demo_java_def demo_thread_def deref_def copy_array_def jni_leave_def)

lemma android_calls_keep_thread_witness:
  "\<exists>t. (android_call demo_java)\<^sup>*\<^sup>* demo_thread t \<and> jn_attached t = False"
proof -
  have run: "(android_call demo_java)\<^sup>*\<^sup>* demo_thread demo_thread"
    by (rule r_into_rtranclp) (rule android_call.send_request [OF demo_java_send])
  from android_calls_keep_thread [OF this] run show ?thesis by (auto simp: demo_thread_def)
qed

lemma android_get_model_overreads_witness:
  "\<forall>q sv. get_model \<lparr>pf_net = (\<lambda>k q. \<lparr>cr_statusCode = 200, cr_body = Some ''abc'', cr_bodyLength = 3\<rparr>), pf_parse = (\<lambda>s. None),
     pf_dump = (\<lambda>j. []), pf_writable = (\<lambda>f. True)\<rparr> q 3 sv = Inl (Out_Of_Bounds 3)"
proof -
  have "char_of (0 :: nat) \<notin> set ''abc''" by code_simp
  from android_get_model_overreads [OF demo_java_send _ _ _ this] show ?thesis
    by (simp add: demo_java_def)
qed

end
