(* ===== verification/Torch_Executor.thy ===== *)
theory Torch_Executor
  imports User_Events
begin

text \<open>
  \<open>Executors/pytorch/src/pytorchTrainer.cpp\<close>: the executor of a build with
  \<open>TORCH_EXECUTOR\<close>.  It owns its modules through raw pointers, so the modules live in an
  explicit heap.  LibTorch is a parameter: it loads a plan, sets parameters, runs a
  module, squeezes a tensor (and makes it contiguous), and accepts or refuses the shape
  of a tensor; \<open>None\<close> is an exception.  The
  executor catches none: \<open>None\<close> as the result of a call means that an exception left it,
  and the state that comes with it is the one the call had reached.
\<close>

section \<open>State\<close>

record 'f torch_tensor =
  tt_shape :: "int list"
  tt_data :: "'f list"

record ('f, 'm) torch_env =
  te_load :: "string \<Rightarrow> 'm option"
  te_set_model_params :: "'m \<Rightarrow> 'f torch_tensor list \<Rightarrow> 'm option"
  te_forward :: "'m \<Rightarrow> 'f torch_tensor \<Rightarrow> 'f torch_tensor option"
  te_squeeze0 :: "'f torch_tensor \<Rightarrow> 'f torch_tensor"
  te_shape_ok :: "int list \<Rightarrow> bool"
  te_stof :: "string \<Rightarrow> 'f option"

record torch_model_info =
  mo_modPtr :: "nat option"
  mo_modelLoaded :: bool

definition new_torch_model_info :: torch_model_info where
  "new_torch_model_info = \<lparr>mo_modPtr = None, mo_modelLoaded = False\<rparr>"

record 'm torch_executor =
  to_modelMap :: "(int, torch_model_info) smap"
  to_heap :: "nat \<Rightarrow> 'm option"
  to_next :: nat

definition new_torch_executor :: "'m torch_executor" where
  "new_torch_executor = \<lparr>to_modelMap = [], to_heap = (\<lambda>a. None), to_next = 0\<rparr>"

text \<open>\<open>new\<close>, \<open>delete\<close> and \<open>*\<close>.\<close>

definition new_module :: "'m \<Rightarrow> 'm torch_executor \<Rightarrow> nat \<times> 'm torch_executor" where
  "new_module m s = (to_next s, s\<lparr>to_heap := (to_heap s)(to_next s := Some m), to_next := Suc (to_next s)\<rparr>)"

definition delete_module :: "nat option \<Rightarrow> 'm torch_executor \<Rightarrow> 'm torch_executor outcome" where
  "delete_module p s = (case p of
     None \<Rightarrow> Inr s
   | Some a \<Rightarrow> if to_heap s a = None then Inl Dangling else Inr (s\<lparr>to_heap := (to_heap s)(a := None)\<rparr>))"

definition get_module :: "nat option \<Rightarrow> 'm torch_executor \<Rightarrow> (nat \<times> 'm) outcome" where
  "get_module p s = (case p of
     None \<Rightarrow> Inl Dangling
   | Some a \<Rightarrow> (case to_heap s a of None \<Rightarrow> Inl Dangling | Some m \<Rightarrow> Inr (a, m)))"

section \<open>Tensors from text\<close>

text \<open>\<open>while (getline(stream, token, delim))\<close>.\<close>

fun getline_tokens :: "char \<Rightarrow> string \<Rightarrow> string \<Rightarrow> string list" where
  "getline_tokens delim token [] = (if token = [] then [] else [token])"
| "getline_tokens delim token (c # cs) =
     (if c = delim then token # getline_tokens delim [] cs else getline_tokens delim (token @ [c]) cs)"

fun read_shape :: "string list \<Rightarrow> int list option" where
  "read_shape [] = Some []"
| "read_shape (word # ws) = (case stoll word of
     Inl _ \<Rightarrow> None
   | Inr n \<Rightarrow> map_option ((#) n) (read_shape ws))"

fun read_values :: "(string \<Rightarrow> 'f option) \<Rightarrow> string list \<Rightarrow> 'f list option" where
  "read_values stof [] = Some []"
| "read_values stof (word # ws) = (case stof word of
     None \<Rightarrow> None
   | Some x \<Rightarrow> map_option ((#) x) (read_values stof ws))"

text \<open>\<open>from_blob(data, shape)\<close> does not copy: a read of the tensor reads the caller's memory.\<close>

definition from_blob :: "('f, 'm) torch_env \<Rightarrow> 'f list \<Rightarrow> int list \<Rightarrow> 'f torch_tensor option outcome" where
  "from_blob E xs shape =
     (if \<not> te_shape_ok E shape then Inr None
      else let n = prod_list shape in
        if n < 0 \<or> int (length xs) < n then Inl (Out_Of_Bounds n)
        else Inr (Some \<lparr>tt_shape = shape, tt_data = take (nat n) xs\<rparr>))"

fun read_tensors ::
  "('f, 'm) torch_env \<Rightarrow> string list \<Rightarrow> nat \<Rightarrow> int list list \<Rightarrow> 'f torch_tensor list \<Rightarrow> 'f torch_tensor list option outcome" where
  "read_tensors E [] count shapes tensors = Inr (Some tensors)"
| "read_tensors E (line # lines) count shapes tensors =
     (let ws = getline_tokens (CHR '','') [] line in
      if count mod 2 = 0 then
        (case read_shape ws of
           None \<Rightarrow> Inr None
         | Some shape \<Rightarrow> read_tensors E lines (Suc count) (shapes @ [shape]) tensors)
      else
        (case read_values (te_stof E) ws of
           None \<Rightarrow> Inr None
         | Some modelarr \<Rightarrow>
             ubind (vec_get shapes (int (count div 2))) (\<lambda>shape.
             ubind (from_blob E modelarr shape) (\<lambda>t. case t of
               None \<Rightarrow> Inr None
             | Some tensor \<Rightarrow> read_tensors E lines (Suc count) shapes (tensors @ [tensor])))))"

definition get_tensors_from_model_string :: "('f, 'm) torch_env \<Rightarrow> string \<Rightarrow> 'f torch_tensor list option outcome" where
  "get_tensors_from_model_string E model = read_tensors E (getline_tokens (CHR 0x0A) [] model) 0 [] []"

section \<open>Operations\<close>

definition torch_check_plan_loaded :: "'m torch_executor \<Rightarrow> int \<Rightarrow> bool" where
  "torch_check_plan_loaded s resourceId = smap_has (to_modelMap s) resourceId"

definition torch_check_model_loaded :: "'m torch_executor \<Rightarrow> int \<Rightarrow> bool" where
  "torch_check_model_loaded s resourceId =
     (case smap_find (to_modelMap s) resourceId of Some modInfo \<Rightarrow> mo_modelLoaded modInfo | None \<Rightarrow> False)"

definition torch_load_model ::
  "('f, 'm) torch_env \<Rightarrow> string \<Rightarrow> int \<Rightarrow> 'm torch_executor \<Rightarrow> (bool option \<times> 'm torch_executor) outcome" where
  "torch_load_model E model resourceId s =
     (case smap_find (to_modelMap s) resourceId of
        None \<Rightarrow> Inr (Some False, s)
      | Some modInfo \<Rightarrow>
          ubind (get_tensors_from_model_string E model) (\<lambda>r. case r of
            None \<Rightarrow> Inr (None, s)
          | Some tensor_list \<Rightarrow>
              ubind (get_module (mo_modPtr modInfo) s) (\<lambda>(a, m). case te_set_model_params E m tensor_list of
                None \<Rightarrow> Inr (None, s)
              | Some m' \<Rightarrow> Inr (Some True, s\<lparr>to_heap := (to_heap s)(a := Some m'),
                  to_modelMap := smap_put resourceId (modInfo\<lparr>mo_modelLoaded := True\<rparr>) (to_modelMap s)\<rparr>))))"

text \<open>The module made for an existing entry is lost when the entry is replaced.\<close>

definition replace_module ::
  "('f, 'm) torch_env \<Rightarrow> string \<Rightarrow> int \<Rightarrow> 'm torch_executor \<Rightarrow> (bool \<times> 'm torch_executor) outcome" where
  "replace_module E plan resourceId s =
     (case smap_find (to_modelMap s) resourceId of
        None \<Rightarrow> Inr (True, s)
      | Some modInfo \<Rightarrow>
          ubind (delete_module (mo_modPtr modInfo) s) (\<lambda>s1. case te_load E plan of
            None \<Rightarrow> Inr (False, s1)
          | Some m \<Rightarrow>
              let (a, s2) = new_module m s1 in
              Inr (True, s2\<lparr>to_modelMap := smap_put resourceId \<lparr>mo_modPtr = Some a, mo_modelLoaded = False\<rparr> (to_modelMap s2)\<rparr>)))"

definition torch_load_plan ::
  "('f, 'm) torch_env \<Rightarrow> string \<Rightarrow> int \<Rightarrow> 'm torch_executor \<Rightarrow> (bool option \<times> 'm torch_executor) outcome" where
  "torch_load_plan E plan resourceId s =
     ubind (replace_module E plan resourceId s) (\<lambda>(ok, s1).
       if \<not> ok then Inr (None, s1)
       else let s2 = s1\<lparr>to_modelMap := smap_put resourceId new_torch_model_info (to_modelMap s1)\<rparr> in
         case te_load E plan of
           None \<Rightarrow> Inr (None, s2)
         | Some m \<Rightarrow>
             let (a, s3) = new_module m s2 in
             Inr (Some True, s3\<lparr>to_modelMap :=
               smap_put resourceId (new_torch_model_info\<lparr>mo_modPtr := Some a\<rparr>) (to_modelMap s3)\<rparr>))"

definition torch_load_model_and_plan ::
  "('f, 'm) torch_env \<Rightarrow> int \<Rightarrow> string \<Rightarrow> string \<Rightarrow> 'm torch_executor \<Rightarrow> (bool option \<times> 'm torch_executor) outcome" where
  "torch_load_model_and_plan E resourceId model plan s =
     ubind (torch_load_plan E plan resourceId s) (\<lambda>(r, s1).
       if r = Some True then torch_load_model E model resourceId s1 else Inr (r, s1))"

definition torch_delete_model_and_plan :: "int \<Rightarrow> 'm torch_executor \<Rightarrow> 'm torch_executor outcome" where
  "torch_delete_model_and_plan resourceId s =
     (case smap_find (to_modelMap s) resourceId of
        None \<Rightarrow> Inr s
      | Some modInfo \<Rightarrow>
          ubind (delete_module (mo_modPtr modInfo) s) (\<lambda>s1.
            Inr (s1\<lparr>to_modelMap := smap_erase resourceId (to_modelMap s1)\<rparr>)))"

text \<open>
  The result of an inference: \<open>None\<close> an exception, \<open>Some None\<close> a null pointer.  The log
  buffer of the caller gets one byte, a \<open>NUL\<close>; it has \<open>logSize\<close> bytes.
\<close>

definition torch_get_inference ::
  "('f, 'm) torch_env \<Rightarrow> int \<Rightarrow> 'f list \<Rightarrow> int list \<Rightarrow> int \<Rightarrow> nat \<Rightarrow> 'm torch_executor \<Rightarrow> 'f list option option outcome" where
  "torch_get_inference E resourceId input inputShape iShapeLen logSize s =
     (case smap_find (to_modelMap s) resourceId of
        None \<Rightarrow> Inr (Some None)
      | Some modInfo \<Rightarrow>
          if \<not> mo_modelLoaded modInfo then Inr (Some None)
          else if iShapeLen < 0 then Inr None
          else if int (length inputShape) < iShapeLen then Inl (Out_Of_Bounds iShapeLen)
          else ubind (from_blob E input (take (nat iShapeLen) inputShape)) (\<lambda>t. case t of
            None \<Rightarrow> Inr None
          | Some tensor \<Rightarrow>
              ubind (get_module (mo_modPtr modInfo) s) (\<lambda>(a, m). case te_forward E m tensor of
                None \<Rightarrow> Inr None
              | Some out \<Rightarrow> (case tt_shape (te_squeeze0 E out) of
                  [] \<Rightarrow> Inr None
                | len # ds \<Rightarrow>
                    if len < 0 \<or> int (length (tt_data (te_squeeze0 E out))) < len then Inl (Out_Of_Bounds len)
                    else if logSize = 0 then Inl (Out_Of_Bounds 0)
                    else Inr (Some (Some (take (nat len) (tt_data (te_squeeze0 E out)))))))))"

section \<open>The invariant\<close>

definition torch_ok :: "'m torch_executor \<Rightarrow> bool" where
  "torch_ok s =
     (smap_ok (to_modelMap s) \<and>
      (\<forall>r modInfo. smap_find (to_modelMap s) r = Some modInfo \<longrightarrow>
         (\<exists>a. mo_modPtr modInfo = Some a \<and> a < to_next s \<and> to_heap s a \<noteq> None)) \<and>
      (\<forall>r r' i j. smap_find (to_modelMap s) r = Some i \<longrightarrow> smap_find (to_modelMap s) r' = Some j \<longrightarrow>
         mo_modPtr i = mo_modPtr j \<longrightarrow> r = r'))"

lemma torch_ok_entry:
  assumes "torch_ok s" "smap_find (to_modelMap s) r = Some modInfo"
  obtains a m where "mo_modPtr modInfo = Some a" "a < to_next s" "to_heap s a = Some m"
  using assms by (force simp: torch_ok_def)

lemma torch_ok_other:
  "torch_ok s \<Longrightarrow> smap_find (to_modelMap s) r = Some i \<Longrightarrow> smap_find (to_modelMap s) r' = Some j \<Longrightarrow>
    mo_modPtr i = mo_modPtr j \<Longrightarrow> r = r'"
  unfolding torch_ok_def by blast

lemma torch_ok_new: "torch_ok new_torch_executor"
  by (simp add: torch_ok_def new_torch_executor_def)

text \<open>One entry gets a fresh module; every other entry keeps its own.\<close>

lemma torch_ok_put:
  assumes "smap_ok mp" "a \<le> b"
    and "\<And>r' i. r' \<noteq> r \<Longrightarrow> smap_find mp r' = Some i \<Longrightarrow> \<exists>c m. mo_modPtr i = Some c \<and> c < a \<and> heap c = Some m"
    and "\<And>r1 r2 i j. r1 \<noteq> r \<Longrightarrow> r2 \<noteq> r \<Longrightarrow> smap_find mp r1 = Some i \<Longrightarrow> smap_find mp r2 = Some j \<Longrightarrow>
      mo_modPtr i = mo_modPtr j \<Longrightarrow> r1 = r2"
  shows "torch_ok \<lparr>to_modelMap = smap_put r \<lparr>mo_modPtr = Some b, mo_modelLoaded = l\<rparr> mp,
    to_heap = heap(b := Some m), to_next = Suc b\<rparr>"
  unfolding torch_ok_def
proof (intro conjI allI impI)
  let ?s = "\<lparr>to_modelMap = smap_put r \<lparr>mo_modPtr = Some b, mo_modelLoaded = l\<rparr> mp, to_heap = heap(b := Some m), to_next = Suc b\<rparr>"
  show "smap_ok (to_modelMap ?s)" using assms(1) by simp
  show "\<exists>a. mo_modPtr i = Some a \<and> a < to_next ?s \<and> to_heap ?s a \<noteq> None" if "smap_find (to_modelMap ?s) r' = Some i" for r' i
    using that assms(2) assms(3) [of r' i] by (fastforce split: if_splits)
  show "r1 = r2" if "smap_find (to_modelMap ?s) r1 = Some i" "smap_find (to_modelMap ?s) r2 = Some j" "mo_modPtr i = mo_modPtr j" for r1 r2 i j
  proof (cases "r1 = r \<or> r2 = r")
    case True
    have "mo_modPtr k \<noteq> Some b" if "r' \<noteq> r" "smap_find mp r' = Some k" for r' k
      using assms(2) assms(3) [OF that] by auto
    with True that show ?thesis by (cases "r1 = r"; cases "r2 = r") force+
  next
    case False
    then show ?thesis using that assms(4) [of r1 r2 i j] by simp
  qed
qed

lemma torch_record: "s = \<lparr>to_modelMap = to_modelMap s, to_heap = to_heap s, to_next = to_next (s :: 'm torch_executor)\<rparr>"
  by simp

lemma torch_load_plan_ok:
  assumes "torch_load_plan E plan r s = Inr (Some b, s')" "torch_ok s"
  shows "torch_ok s'"
proof -
  have map_ok: "smap_ok (to_modelMap s)" using assms(2) by (simp add: torch_ok_def)
  obtain m where m: "te_load E plan = Some m"
    using assms(1) by (auto simp: torch_load_plan_def Let_def ubind_Inr_iff split: if_splits option.splits)
  show ?thesis
  proof (cases "smap_find (to_modelMap s) r")
    case None
    have "s' = \<lparr>to_modelMap = smap_put r \<lparr>mo_modPtr = Some (to_next s), mo_modelLoaded = False\<rparr>
          (smap_put r new_torch_model_info (to_modelMap s)), to_heap = (to_heap s)(to_next s := Some m), to_next = Suc (to_next s)\<rparr>"
      using assms(1) None m
      by (cases s) (auto simp: torch_load_plan_def replace_module_def new_module_def new_torch_model_info_def)
    then show ?thesis
      by (simp only:) (rule torch_ok_put [where a = "to_next s"],
        use map_ok torch_ok_entry [OF assms(2)] torch_ok_other [OF assms(2)] in \<open>auto elim!: torch_ok_entry [OF assms(2)]\<close>)
  next
    case (Some i)
    obtain c mc where c: "mo_modPtr i = Some c" "c < to_next s" "to_heap s c = Some mc"
      using torch_ok_entry [OF assms(2) Some] .
    let ?heap = "((to_heap s)(c := None))(to_next s := Some m)"
    let ?map = "smap_put r new_torch_model_info (smap_put r \<lparr>mo_modPtr = Some (to_next s), mo_modelLoaded = False\<rparr> (to_modelMap s))"
    have "s' = \<lparr>to_modelMap = smap_put r \<lparr>mo_modPtr = Some (Suc (to_next s)), mo_modelLoaded = False\<rparr> ?map,
        to_heap = ?heap(Suc (to_next s) := Some m), to_next = Suc (Suc (to_next s))\<rparr>"
      using assms(1) Some m c
      by (cases s) (auto simp: torch_load_plan_def replace_module_def new_module_def new_torch_model_info_def delete_module_def)
    moreover have "\<exists>d m. mo_modPtr j = Some d \<and> d < to_next s \<and> ?heap d = Some m"
      if j: "r' \<noteq> r" "smap_find ?map r' = Some j" for r' j
    proof -
      have j': "smap_find (to_modelMap s) r' = Some j" using j by simp
      obtain d md where d: "mo_modPtr j = Some d" "d < to_next s" "to_heap s d = Some md"
        using torch_ok_entry [OF assms(2) j'] .
      have "d \<noteq> c" using torch_ok_other [OF assms(2) j' Some] d(1) c(1) j(1) by auto
      with d show ?thesis by auto
    qed
    moreover have "r1 = r2" if "r1 \<noteq> r" "r2 \<noteq> r" "smap_find ?map r1 = Some i1" "smap_find ?map r2 = Some i2" "mo_modPtr i1 = mo_modPtr i2"
      for r1 r2 i1 i2 using that torch_ok_other [OF assms(2), of r1 i1 r2 i2] by simp
    ultimately show ?thesis
      by (simp only:) (rule torch_ok_put [where a = "to_next s"], use map_ok in auto)
  qed
qed

lemma torch_load_model_moves:
  assumes "torch_load_model E model r s = Inr (b, s')" "s' \<noteq> s"
  shows "\<exists>i a m m'. smap_find (to_modelMap s) r = Some i \<and> mo_modPtr i = Some a \<and> to_heap s a = Some m \<and>
    s' = s\<lparr>to_heap := (to_heap s)(a := Some m'), to_modelMap := smap_put r (i\<lparr>mo_modelLoaded := True\<rparr>) (to_modelMap s)\<rparr>"
proof -
  obtain i where i: "smap_find (to_modelMap s) r = Some i"
    using assms by (cases "smap_find (to_modelMap s) r") (auto simp: torch_load_model_def)
  obtain rs where "get_tensors_from_model_string E model = Inr rs"
    using assms(1) i by (auto simp: torch_load_model_def ubind_Inr_iff)
  then obtain ts where ts: "get_tensors_from_model_string E model = Inr (Some ts)"
    using assms i by (cases rs) (auto simp: torch_load_model_def)
  obtain a m where am: "get_module (mo_modPtr i) s = Inr (a, m)"
    using assms(1) i ts by (auto simp: torch_load_model_def ubind_Inr_iff)
  have "mo_modPtr i = Some a" "to_heap s a = Some m" using am by (auto simp: get_module_def split: option.splits)
  moreover obtain m' where "te_set_model_params E m ts = Some m'"
    using assms i ts am by (cases "te_set_model_params E m ts") (auto simp: torch_load_model_def)
  ultimately show ?thesis using assms(1) i ts am by (auto simp: torch_load_model_def)
qed

lemma torch_load_model_ok:
  assumes "torch_load_model E model r s = Inr (b, s')" "torch_ok s"
  shows "torch_ok s'"
proof (cases "s' = s")
  case False
  then obtain i a m m' where i: "smap_find (to_modelMap s) r = Some i" "mo_modPtr i = Some a" "to_heap s a = Some m"
    and s': "s' = s\<lparr>to_heap := (to_heap s)(a := Some m'), to_modelMap := smap_put r (i\<lparr>mo_modelLoaded := True\<rparr>) (to_modelMap s)\<rparr>"
    using torch_load_model_moves [OF assms(1)] by blast
  have found: "\<exists>j. smap_find (to_modelMap s) r' = Some j \<and> mo_modPtr j = mo_modPtr k" if "smap_find (to_modelMap s') r' = Some k" for r' k
    using that i(1) by (auto simp: s' split: if_splits)
  show ?thesis
    unfolding torch_ok_def
  proof (intro conjI allI impI)
    show "smap_ok (to_modelMap s')" using assms(2) by (simp add: s' torch_ok_def)
    show "\<exists>a. mo_modPtr k = Some a \<and> a < to_next s' \<and> to_heap s' a \<noteq> None" if k: "smap_find (to_modelMap s') r' = Some k" for r' k
    proof -
      obtain j where j: "smap_find (to_modelMap s) r' = Some j" "mo_modPtr j = mo_modPtr k" using found [OF k] by blast
      obtain d md where "mo_modPtr j = Some d" "d < to_next s" "to_heap s d = Some md" using torch_ok_entry [OF assms(2) j(1)] .
      with j show ?thesis by (intro exI [of _ d]) (auto simp: s')
    qed
    show "r1 = r2" if "smap_find (to_modelMap s') r1 = Some i1" "smap_find (to_modelMap s') r2 = Some i2" "mo_modPtr i1 = mo_modPtr i2"
      for r1 r2 i1 i2
      using found [OF that(1)] found [OF that(2)] that(3) torch_ok_other [OF assms(2)] by metis
  qed
qed (use assms(2) in simp)

lemma torch_delete_ok:
  assumes "torch_delete_model_and_plan r s = Inr s'" "torch_ok s"
  shows "torch_ok s'"
proof (cases "smap_find (to_modelMap s) r")
  case None
  then show ?thesis using assms by (simp add: torch_delete_model_and_plan_def)
next
  case (Some i)
  obtain c mc where c: "mo_modPtr i = Some c" "c < to_next s" "to_heap s c = Some mc"
    using torch_ok_entry [OF assms(2) Some] .
  have s': "s' = s\<lparr>to_heap := (to_heap s)(c := None), to_modelMap := smap_erase r (to_modelMap s)\<rparr>"
    using assms(1) Some c by (simp add: torch_delete_model_and_plan_def delete_module_def)
  have found: "smap_find (to_modelMap s) r' = Some k \<and> r' \<noteq> r" if "smap_find (to_modelMap s') r' = Some k" for r' k
    using that by (auto simp: s' split: if_splits)
  show ?thesis
    unfolding torch_ok_def
  proof (intro conjI allI impI)
    show "smap_ok (to_modelMap s')" using assms(2) by (simp add: s' torch_ok_def)
    show "\<exists>a. mo_modPtr k = Some a \<and> a < to_next s' \<and> to_heap s' a \<noteq> None" if k: "smap_find (to_modelMap s') r' = Some k" for r' k
    proof -
      obtain d md where d: "mo_modPtr k = Some d" "d < to_next s" "to_heap s d = Some md"
        using torch_ok_entry [OF assms(2)] found [OF k] by blast
      have "d \<noteq> c" using torch_ok_other [OF assms(2) _ Some] found [OF k] d(1) c(1) by metis
      with d show ?thesis by (simp add: s')
    qed
    show "r1 = r2" if "smap_find (to_modelMap s') r1 = Some i1" "smap_find (to_modelMap s') r2 = Some i2" "mo_modPtr i1 = mo_modPtr i2"
      for r1 r2 i1 i2
      using found [OF that(1)] found [OF that(2)] that(3) torch_ok_other [OF assms(2)] by metis
  qed
qed

section \<open>Properties\<close>

text \<open>The calls that change the executor and end without an exception.\<close>

inductive torch_step :: "('f, 'm) torch_env \<Rightarrow> 'm torch_executor \<Rightarrow> 'm torch_executor \<Rightarrow> bool" for E where
  load_plan: "torch_load_plan E plan r s = Inr (Some b, s') \<Longrightarrow> torch_step E s s'"
| load_model: "torch_load_model E model r s = Inr (Some b, s') \<Longrightarrow> torch_step E s s'"
| load_both: "torch_load_model_and_plan E r model plan s = Inr (Some b, s') \<Longrightarrow> torch_step E s s'"
| delete: "torch_delete_model_and_plan r s = Inr s' \<Longrightarrow> torch_step E s s'"

lemma torch_step_ok: "torch_step E s s' \<Longrightarrow> torch_ok s \<Longrightarrow> torch_ok s'"
proof (induction rule: torch_step.induct)
  case (load_both r model plan s b s')
  then obtain x s1 where s1: "torch_load_plan E plan r s = Inr (x, s1)"
    "(if x = Some True then torch_load_model E model r s1 else Inr (x, s1)) = Inr (Some b, s')"
    by (auto simp: torch_load_model_and_plan_def ubind_Inr_iff)
  then obtain y where "x = Some y" by (cases x) auto
  with s1 torch_load_plan_ok [of E plan r s y s1] load_both(2) torch_load_model_ok [of E model r s1 "Some b" s']
  show ?case by (auto split: if_splits)
qed (auto intro: torch_load_plan_ok torch_load_model_ok torch_delete_ok)


text \<open>when a new plan for a loaded resource does not load, the exception leaves the
  resource with a freed module that still counts as loaded: the next inference and the
  next deletion use freed memory.
\<close>
theorem torch_failed_reload_dangles:
  assumes "torch_ok s" "torch_check_model_loaded s r" "te_load E plan = None"
    and "te_shape_ok E shape" "0 \<le> prod_list shape" "prod_list shape \<le> int (length input)"
  shows "\<exists>s'. torch_load_plan E plan r s = Inr (None, s') \<and> torch_check_model_loaded s' r \<and>
    torch_get_inference E r input shape (int (length shape)) logSize s' = Inl Dangling \<and>
    torch_delete_model_and_plan r s' = Inl Dangling"
proof -
  obtain i where i: "smap_find (to_modelMap s) r = Some i" "mo_modelLoaded i"
    using assms(2) by (auto simp: torch_check_model_loaded_def split: option.splits)
  obtain a m where a: "mo_modPtr i = Some a" "to_heap s a = Some m" using torch_ok_entry [OF assms(1) i(1)] by metis
  let ?s = "s\<lparr>to_heap := (to_heap s)(a := None)\<rparr>"
  have "torch_load_plan E plan r s = Inr (None, ?s)"
    using i a assms(3) by (simp add: torch_load_plan_def replace_module_def delete_module_def)
  moreover have "torch_get_inference E r input shape (int (length shape)) logSize ?s = Inl Dangling"
    using i a assms(4-6) by (simp add: torch_get_inference_def from_blob_def get_module_def Let_def)
  ultimately show ?thesis using i a
    by (intro exI [of _ ?s]) (simp add: torch_check_model_loaded_def torch_delete_model_and_plan_def delete_module_def)
qed

text \<open>replacing the plan of a resource makes two modules and keeps one: the other
  stays allocated and nothing points to it any more.
\<close>
theorem torch_reload_leaks:
  assumes "torch_ok s" "torch_check_plan_loaded s r" "te_load E plan = Some m"
  shows "\<exists>s'. torch_load_plan E plan r s = Inr (Some True, s') \<and> to_heap s' (to_next s) = Some m \<and>
    (\<forall>r' i. smap_find (to_modelMap s') r' = Some i \<longrightarrow> mo_modPtr i \<noteq> Some (to_next s))"
proof -
  obtain i where i: "smap_find (to_modelMap s) r = Some i"
    using assms(2) by (auto simp: torch_check_plan_loaded_def smap_has_def)
  obtain a ma where a: "mo_modPtr i = Some a" "a < to_next s" "to_heap s a = Some ma" using torch_ok_entry [OF assms(1) i] .
  have "mo_modPtr j \<noteq> Some (to_next s)" if "smap_find (to_modelMap s) r' = Some j" for r' j
    using torch_ok_entry [OF assms(1) that] by (metis less_irrefl option.inject)
  then show ?thesis using i a assms(3)
    by (auto simp: torch_load_plan_def replace_module_def delete_module_def new_module_def new_torch_model_info_def)
qed

text \<open>A library that loads any plan that is not empty.\<close>

definition demo_torch :: "(int, nat) torch_env" where
  "demo_torch = \<lparr>te_load = (\<lambda>plan. if plan = [] then None else Some (length plan)), te_set_model_params = (\<lambda>m ts. Some (m + length ts)),
     te_forward = (\<lambda>m t. Some t), te_squeeze0 = id, te_shape_ok = (\<lambda>shape. True), te_stof = (\<lambda>w. Some (int (length w)))\<rparr>"

definition demo_torch_loaded :: "nat torch_executor" where
  "demo_torch_loaded = \<lparr>to_modelMap = [(7, \<lparr>mo_modPtr = Some 0, mo_modelLoaded = True\<rparr>)], to_heap = (\<lambda>a. None)(0 := Some 2), to_next = 1\<rparr>"

lemma demo_torch_run:
  "torch_load_model_and_plan demo_torch 7 [CHR ''1'', CHR 0x0A, CHR ''5''] ''p'' new_torch_executor = Inr (Some True, demo_torch_loaded)"
proof -
  have tensors: "get_tensors_from_model_string demo_torch [CHR ''1'', CHR 0x0A, CHR ''5''] = Inr (Some [\<lparr>tt_shape = [1], tt_data = [1]\<rparr>])"
    by code_simp
  have "te_load demo_torch ''p'' = Some 1" by (simp add: demo_torch_def)
  then have "torch_load_plan demo_torch ''p'' 7 new_torch_executor =
      Inr (Some True, demo_torch_loaded\<lparr>to_modelMap := [(7, \<lparr>mo_modPtr = Some 0, mo_modelLoaded = False\<rparr>)], to_heap := (\<lambda>a. None)(0 := Some 1)\<rparr>)"
    by (simp add: torch_load_plan_def replace_module_def new_module_def new_torch_executor_def new_torch_model_info_def demo_torch_loaded_def)
  then show ?thesis
    by (simp add: torch_load_model_and_plan_def torch_load_model_def tensors demo_torch_loaded_def get_module_def) (simp add: demo_torch_def numeral_2_eq_2)
qed

lemma demo_torch_reached: "(torch_step demo_torch)\<^sup>*\<^sup>* new_torch_executor demo_torch_loaded"
  by (rule r_into_rtranclp) (rule torch_step.load_both [OF demo_torch_run])

lemma demo_torch_ok: "torch_ok demo_torch_loaded"
  by (rule torch_step_ok [OF torch_step.load_both [OF demo_torch_run] torch_ok_new])


lemma torch_failed_reload_dangles_witness:
  "\<exists>s'. torch_load_plan demo_torch [] 7 demo_torch_loaded = Inr (None, s') \<and> torch_delete_model_and_plan 7 s' = Inl Dangling"
proof -
  have "torch_check_model_loaded demo_torch_loaded 7" by (simp add: demo_torch_loaded_def torch_check_model_loaded_def)
  moreover have "te_load demo_torch [] = None" "te_shape_ok demo_torch [1]" by (simp_all add: demo_torch_def)
  ultimately show ?thesis using torch_failed_reload_dangles [OF demo_torch_ok, of 7 demo_torch "[]" "[1]" "[0]"] by auto
qed

lemma torch_reload_leaks_witness:
  "\<exists>s'. torch_load_plan demo_torch ''p'' 7 demo_torch_loaded = Inr (Some True, s') \<and> to_heap s' 1 = Some 1"
proof -
  have "torch_check_plan_loaded demo_torch_loaded 7" by (simp add: demo_torch_loaded_def torch_check_plan_loaded_def smap_has_def)
  moreover have "te_load demo_torch ''p'' = Some 1" by (simp add: demo_torch_def)
  ultimately show ?thesis using torch_reload_leaks [OF demo_torch_ok, of 7 demo_torch "''p''" 1] by (auto simp: demo_torch_loaded_def)
qed

end
