(* ===== verification/Model_Lock.thy ===== *)
theory Model_Lock
  imports Transition_System
begin

text \<open>
  The lifetime of the \<open>ONNXModel\<close> of one model id: inference threads call
  \<open>ONNXExecutor::get_inference\<close> while the command thread reloads the plan with
  \<open>ONNXExecutor::load_plan\<close>.  A step is one access to the shared map or to a lock.

  A reader runs \<open>check_plan_loaded\<close> (the map is locked only inside it), then evaluates
  \<open>modelMap[modelId]->get_inference(..)\<close> without the lock and without a copy of the
  \<open>shared_ptr\<close>: it holds a plain pointer (\<open>MCalled\<close>), locks the \<open>_modelMutex\<close> of the
  object (\<open>MRunning\<close>) and unlocks it at the end.  The loader builds a new object (or
  throws, and gives up), and under the lock of the map assigns the \<open>shared_ptr\<close>, which
  deletes the old object before the lock is released.
\<close>

section \<open>States and steps\<close>

datatype infer_pc = MIdle | MChecked | MCalled nat | MRunning nat

datatype load_pc = BIdle | BBuilt nat | BAssigned "nat option"

record model_state =
  ml_live :: "nat \<Rightarrow> bool"
  ml_next :: nat
  ml_entry :: "nat option"
  ml_threads :: "nat \<Rightarrow> infer_pc"
  ml_loader :: load_pc

definition model_init :: model_state where
  "model_init = \<lparr>ml_live = (\<lambda>a. False), ml_next = 0, ml_entry = None, ml_threads = (\<lambda>t. MIdle), ml_loader = BIdle\<rparr>"

text \<open>\<open>_modelMapMutex\<close> is held by the loader from the assignment to the end of the deletion.\<close>

fun map_locked :: "load_pc \<Rightarrow> bool" where
  "map_locked (BAssigned old) = True"
| "map_locked _ = False"

definition destroy :: "nat option \<Rightarrow> (nat \<Rightarrow> bool) \<Rightarrow> nat \<Rightarrow> bool" where
  "destroy old live = (case old of None \<Rightarrow> live | Some a \<Rightarrow> live(a := False))"

lemma destroy_iff [simp]: "destroy old live a \<longleftrightarrow> live a \<and> old \<noteq> Some a"
  by (auto simp: destroy_def split: option.splits)

inductive model_step :: "model_state \<Rightarrow> model_state \<Rightarrow> bool" where
  check_plan: "ml_threads s t = MIdle \<Longrightarrow> \<not> map_locked (ml_loader s) \<Longrightarrow> ml_entry s \<noteq> None \<Longrightarrow>
    model_step s (s\<lparr>ml_threads := (ml_threads s)(t := MChecked)\<rparr>)"
| read_entry: "ml_threads s t = MChecked \<Longrightarrow> ml_entry s = Some a \<Longrightarrow>
    model_step s (s\<lparr>ml_threads := (ml_threads s)(t := MCalled a)\<rparr>)"
| lock_model: "ml_threads s t = MCalled a \<Longrightarrow> (\<And>u. ml_threads s u \<noteq> MRunning a) \<Longrightarrow>
    model_step s (s\<lparr>ml_threads := (ml_threads s)(t := MRunning a)\<rparr>)"
| unlock_model: "ml_threads s t = MRunning a \<Longrightarrow>
    model_step s (s\<lparr>ml_threads := (ml_threads s)(t := MIdle)\<rparr>)"
| build_model: "ml_loader s = BIdle \<Longrightarrow>
    model_step s (s\<lparr>ml_live := (ml_live s)(ml_next s := True), ml_next := Suc (ml_next s), ml_loader := BBuilt (ml_next s)\<rparr>)"
| assign_entry: "ml_loader s = BBuilt a \<Longrightarrow>
    model_step s (s\<lparr>ml_entry := Some a, ml_loader := BAssigned (ml_entry s)\<rparr>)"
| delete_model: "ml_loader s = BAssigned old \<Longrightarrow>
    model_step s (s\<lparr>ml_live := destroy old (ml_live s), ml_loader := BIdle\<rparr>)"

text \<open>A thread uses the object it points to while it waits for or holds its mutex.\<close>

fun uses :: "infer_pc \<Rightarrow> nat option" where
  "uses (MCalled a) = Some a"
| "uses (MRunning a) = Some a"
| "uses _ = None"

inductive_cases model_stepE: "model_step s s'"

section \<open>The invariant\<close>

fun owned :: "load_pc \<Rightarrow> nat option" where
  "owned (BBuilt a) = Some a"
| "owned (BAssigned old) = old"
| "owned BIdle = None"

definition live_inv :: "model_state \<Rightarrow> bool" where
  "live_inv s =
     ((\<forall>a. ml_live s a \<longleftrightarrow> ml_entry s = Some a \<or> owned (ml_loader s) = Some a) \<and>
      (\<forall>a. ml_live s a \<longrightarrow> a < ml_next s) \<and>
      (\<forall>a. ml_entry s = Some a \<longrightarrow> owned (ml_loader s) \<noteq> Some a))"

definition pointers_inv :: "model_state \<Rightarrow> bool" where
  "pointers_inv s =
     ((\<forall>t. ml_threads s t \<noteq> MIdle \<longrightarrow> ml_entry s \<noteq> None) \<and>
      (\<forall>t a. uses (ml_threads s t) = Some a \<longrightarrow> a < ml_next s \<and> ml_loader s \<noteq> BBuilt a))"

definition mutex_inv :: "model_state \<Rightarrow> bool" where
  "mutex_inv s = (\<forall>t u a. ml_threads s t = MRunning a \<longrightarrow> ml_threads s u = MRunning a \<longrightarrow> t = u)"

definition model_inv :: "model_state \<Rightarrow> bool" where
  "model_inv s = (live_inv s \<and> pointers_inv s \<and> mutex_inv s)"

lemma live_step: "model_step s s' \<Longrightarrow> live_inv s \<Longrightarrow> live_inv s'"
  by (erule model_step.cases) (auto simp: live_inv_def)

lemma pointers_step:
  assumes "model_step s s'" "live_inv s" "pointers_inv s"
  shows "pointers_inv s'"
  using assms(1)
proof cases
  case (read_entry t a)
  with assms(2,3) show ?thesis
    by (simp add: pointers_inv_def live_inv_def) (metis owned.simps(1))
next
  case (lock_model t a)
  with assms(3) show ?thesis by (simp add: pointers_inv_def) (metis infer_pc.distinct(3) uses.simps(1))
next
  case (build_model)
  with assms(3) show ?thesis by (simp add: pointers_inv_def) (metis less_Suc_eq less_irrefl)
next
  case (unlock_model t a)
  with assms(3) show ?thesis by (auto simp: pointers_inv_def)
qed (use assms(3) in \<open>simp_all add: pointers_inv_def\<close>)

lemma mutex_step: "model_step s s' \<Longrightarrow> mutex_inv s \<Longrightarrow> mutex_inv s'"
  by (erule model_step.cases) (fastforce simp: mutex_inv_def)+

interpretation models: invariant_system model_init model_step model_inv
proof
  show "model_inv model_init" by (simp add: model_inv_def live_inv_def pointers_inv_def mutex_inv_def model_init_def)
  show "model_step s s' \<Longrightarrow> model_inv s \<Longrightarrow> model_inv s'" for s s'
    using live_step pointers_step mutex_step by (simp add: model_inv_def)
qed

abbreviation model_reach :: "model_state \<Rightarrow> bool" where
  "model_reach \<equiv> reach model_init model_step"

section \<open>Properties\<close>


text \<open>C23: nothing makes a reload wait for a running inference: whenever the command thread
  has built a new model, its next two steps free the old one under every thread that runs
  in it or is about to.
\<close>
theorem reload_frees_running_model:
  assumes "model_reach s" "ml_loader s = BBuilt b" "ml_entry s = Some a" "uses (ml_threads s t) = Some a"
  shows "\<exists>s'. (model_step OO model_step) s s' \<and> ml_threads s' = ml_threads s \<and> \<not> ml_live s' a \<and> model_reach s'"
proof -
  let ?s1 = "s\<lparr>ml_entry := Some b, ml_loader := BAssigned (Some a)\<rparr>"
  let ?s2 = "?s1\<lparr>ml_live := destroy (Some a) (ml_live ?s1), ml_loader := BIdle\<rparr>"
  have "model_step s ?s1" using assign_entry [OF assms(2)] assms(3) by simp
  moreover have "model_step ?s1 ?s2" by (rule delete_model) simp
  ultimately have "(model_step OO model_step) s ?s2" "model_reach ?s2"
    using assms(1) by (blast intro: reach_step)+
  then show ?thesis by (intro exI [of _ ?s2]) simp
qed

section \<open>An example run\<close>

text \<open>A first model is loaded; thread 0 runs in it while the next one is built.\<close>

definition first_model :: model_state where
  "first_model = \<lparr>ml_live = (\<lambda>a. False)(0 := True), ml_next = 1, ml_entry = Some 0, ml_threads = (\<lambda>t. MIdle), ml_loader = BIdle\<rparr>"

definition model_reloading :: model_state where
  "model_reloading = \<lparr>ml_live = (\<lambda>a. False)(0 := True, 1 := True), ml_next = 2, ml_entry = Some 0,
     ml_threads = (\<lambda>t. MIdle)(0 := MRunning 0), ml_loader = BBuilt 1\<rparr>"

lemma first_model_reach: "model_reach first_model"
proof -
  define s1 where "s1 = model_init\<lparr>ml_live := (\<lambda>a. False)(0 := True), ml_next := 1, ml_loader := BBuilt 0\<rparr>"
  define s2 where "s2 = s1\<lparr>ml_entry := Some 0, ml_loader := BAssigned None\<rparr>"
  note defs = s1_def s2_def model_init_def
  have "model_step model_init s1" using build_model [of model_init] by (simp add: defs)
  moreover have "model_step s1 s2" using assign_entry [of s1 0] by (simp add: defs)
  moreover have "model_step s2 first_model"
    using delete_model [of s2 None] by (simp add: defs first_model_def destroy_def)
  ultimately show ?thesis by (meson reach.intros)
qed

lemma model_reloading_reach: "model_reach model_reloading"
proof -
  define s1 where "s1 = first_model\<lparr>ml_threads := (\<lambda>t. MIdle)(0 := MChecked)\<rparr>"
  define s2 where "s2 = first_model\<lparr>ml_threads := (\<lambda>t. MIdle)(0 := MCalled 0)\<rparr>"
  define s3 where "s3 = first_model\<lparr>ml_threads := (\<lambda>t. MIdle)(0 := MRunning 0)\<rparr>"
  note defs = s1_def s2_def s3_def first_model_def
  have "model_step first_model s1" using check_plan [of first_model 0] by (simp add: defs)
  moreover have "model_step s1 s2" using read_entry [of s1 0 0] by (simp add: defs)
  moreover have "model_step s2 s3" using lock_model [of s2 0 0] by (simp add: defs)
  moreover have "model_step s3 model_reloading"
    using build_model [of s3] by (simp add: defs model_reloading_def numeral_2_eq_2)
  ultimately show ?thesis using first_model_reach by (meson reach_step)
qed


lemma reload_frees_running_model_witness:
  "\<exists>s'. model_reach s' \<and> ml_threads s' 0 = MRunning 0 \<and> \<not> ml_live s' 0"
  using reload_frees_running_model [OF model_reloading_reach, of 1 0 0]
  by (auto simp: model_reloading_def)

end
