(* ===== verification/Start_Lock.thy ===== *)
theory Start_Lock
  imports Transition_System
begin

text \<open>
  Several threads of the client in \<open>CommandCenter::initialize\<close> and in the other calls.
  \<open>initialize\<close> takes \<open>_initMutex\<close> with \<open>try_lock\<close> and returns 0 when another call holds
  it; the calls of the client read \<open>_initializeSuccess\<close> without a lock.  A step is one
  access to the mutex, to the flag or to a manager pointer.  \<open>st_news s n\<close> counts the
  objects made for the \<open>n\<close>-th pointer (\<open>_resourceManager\<close>, \<open>_mlExecutor\<close>,
  \<open>_featureStoreManager\<close>, \<open>_userEventsManager\<close>), \<open>st_threads\<close> the command threads.  What
  the managers do is the business of \<open>Command_Center\<close>; that an exception of a
  constructor ends the program is assumed.
\<close>

section \<open>States and steps\<close>

datatype start_pc = SIdle | SLocked | SCreating nat | SLoaded | SStarted | SPublished | SCalling

record start_state =
  st_mutex :: "nat option"
  st_success :: bool
  st_news :: "nat \<Rightarrow> nat"
  st_threads :: nat
  st_pcs :: "nat \<Rightarrow> start_pc"

definition start_init :: start_state where
  "start_init = \<lparr>st_mutex = None, st_success = False, st_news = (\<lambda>n. 0), st_threads = 0, st_pcs = (\<lambda>t. SIdle)\<rparr>"

definition MANAGERS :: nat where "MANAGERS = 4"

definition goto :: "nat \<Rightarrow> start_pc \<Rightarrow> start_state \<Rightarrow> start_state" where
  "goto t p s = s\<lparr>st_pcs := (st_pcs s)(t := p)\<rparr>"

inductive start_step :: "start_state \<Rightarrow> start_state \<Rightarrow> bool" where
  busy: "st_pcs s t = SIdle \<Longrightarrow> st_mutex s = Some u \<Longrightarrow> start_step s s"
| try_lock: "st_pcs s t = SIdle \<Longrightarrow> st_mutex s = None \<Longrightarrow>
    start_step s (goto t SLocked (s\<lparr>st_mutex := Some t\<rparr>))"
| already: "st_pcs s t = SLocked \<Longrightarrow> st_success s \<Longrightarrow>
    start_step s (goto t SIdle (s\<lparr>st_mutex := None\<rparr>))"
| invalid_config: "st_pcs s t = SLocked \<Longrightarrow> \<not> st_success s \<Longrightarrow>
    start_step s (goto t SIdle (s\<lparr>st_mutex := None\<rparr>))"
| valid_config: "st_pcs s t = SLocked \<Longrightarrow> \<not> st_success s \<Longrightarrow>
    start_step s (goto t (SCreating 0) s)"
| new_manager: "st_pcs s t = SCreating n \<Longrightarrow> n < MANAGERS \<Longrightarrow>
    start_step s (goto t (SCreating (Suc n)) (s\<lparr>st_news := (st_news s)(n := Suc (st_news s n))\<rparr>))"
| load_from_device: "st_pcs s t = SCreating MANAGERS \<Longrightarrow>
    start_step s (goto t SLoaded s)"
| start_thread: "st_pcs s t = SLoaded \<Longrightarrow>
    start_step s (goto t SStarted (s\<lparr>st_threads := Suc (st_threads s)\<rparr>))"
| publish: "st_pcs s t = SStarted \<Longrightarrow>
    start_step s (goto t SPublished (s\<lparr>st_success := True\<rparr>))"
| unlock: "st_pcs s t = SPublished \<Longrightarrow>
    start_step s (goto t SIdle (s\<lparr>st_mutex := None\<rparr>))"
| read_flag: "st_pcs s t = SIdle \<Longrightarrow> st_success s \<Longrightarrow>
    start_step s (goto t SCalling s)"
| return_call: "st_pcs s t = SCalling \<Longrightarrow>
    start_step s (goto t SIdle s)"

section \<open>The invariant\<close>

fun inside :: "start_pc \<Rightarrow> bool" where
  "inside SIdle = False"
| "inside SCalling = False"
| "inside _ = True"

definition made :: "nat \<Rightarrow> start_state \<Rightarrow> bool" where
  "made k s = (st_news s = (\<lambda>n. if n < k then 1 else 0))"

definition settled :: "start_state \<Rightarrow> bool" where
  "settled s = (if st_success s then made MANAGERS s \<and> st_threads s = 1 else made 0 s \<and> st_threads s = 0)"

fun stage_ok :: "start_pc \<Rightarrow> start_state \<Rightarrow> bool" where
  "stage_ok (SCreating k) s = (\<not> st_success s \<and> made k s \<and> k \<le> MANAGERS \<and> st_threads s = 0)"
| "stage_ok SLoaded s = (\<not> st_success s \<and> made MANAGERS s \<and> st_threads s = 0)"
| "stage_ok SStarted s = (\<not> st_success s \<and> made MANAGERS s \<and> st_threads s = 1)"
| "stage_ok SPublished s = (st_success s \<and> settled s)"
| "stage_ok _ s = settled s"

definition holder_inv :: "start_state \<Rightarrow> bool" where
  "holder_inv s = held inside (st_pcs s) (st_mutex s)"

definition stage_inv :: "start_state \<Rightarrow> bool" where
  "stage_inv s = (case st_mutex s of None \<Rightarrow> settled s | Some t \<Rightarrow> stage_ok (st_pcs s t) s)"

definition start_inv :: "start_state \<Rightarrow> bool" where
  "start_inv s = (holder_inv s \<and> stage_inv s \<and> (\<forall>t. st_pcs s t = SCalling \<longrightarrow> st_success s))"

lemma goto_simps [simp]:
  "st_pcs (goto t p s) = (st_pcs s)(t := p)" "st_mutex (goto t p s) = st_mutex s" "st_success (goto t p s) = st_success s"
  "st_news (goto t p s) = st_news s" "st_threads (goto t p s) = st_threads s"
  by (simp_all add: goto_def)

lemma made_goto [simp]: "made k (goto t p s) = made k s" "made k (s\<lparr>st_mutex := m\<rparr>) = made k s"
  "made k (s\<lparr>st_success := b\<rparr>) = made k s" "made k (s\<lparr>st_threads := i\<rparr>) = made k s"
  by (simp_all add: made_def)

lemma settled_goto [simp]: "settled (goto t p s) = settled s" "settled (s\<lparr>st_mutex := m\<rparr>) = settled s"
  by (simp_all add: settled_def)

lemma made_Suc: "made n s \<Longrightarrow> made (Suc n) (s\<lparr>st_news := (st_news s)(n := Suc (st_news s n))\<rparr>)"
  by (auto simp: made_def fun_eq_iff)

lemma stage_goto [simp]: "stage_ok p (goto t q s) = stage_ok p s"
  by (cases p) simp_all

lemma holder_step:
  assumes "start_step s s'" "holder_inv s"
  shows "holder_inv s'"
  using assms(1)
proof cases
  case (try_lock t)
  with assms(2) show ?thesis by (simp add: holder_inv_def held_enter)
qed (use assms(2) in \<open>simp_all add: holder_inv_def held_move held_leave\<close>)

lemma calling_step:
  "start_step s s' \<Longrightarrow> (\<forall>t. st_pcs s t = SCalling \<longrightarrow> st_success s) \<Longrightarrow> (\<forall>t. st_pcs s' t = SCalling \<longrightarrow> st_success s')"
  by (erule start_step.cases) auto

lemma stage_at:
  "holder_inv s \<Longrightarrow> stage_inv s \<Longrightarrow> inside (st_pcs s t) \<Longrightarrow> st_mutex s = Some t \<and> stage_ok (st_pcs s t) s"
  unfolding holder_inv_def stage_inv_def by (auto dest: held_owner)

lemma stage_step:
  assumes "start_step s s'" "holder_inv s" "stage_inv s"
  shows "stage_inv s'"
proof -
  note at = stage_at [OF assms(2,3)]
  have free: "st_mutex s \<noteq> Some t" if "\<not> inside (st_pcs s t)" for t
    using that assms(2) by (simp add: holder_inv_def held_other)
  show ?thesis
    using assms(1)
  proof cases
    case (busy t u)
    then show ?thesis using assms(3) by simp
  next
    case (try_lock t)
    then show ?thesis using assms(3) by (simp add: stage_inv_def)
  next
    case (already t)
    then show ?thesis using at [of t] by (simp add: stage_inv_def)
  next
    case (invalid_config t)
    then show ?thesis using at [of t] by (simp add: stage_inv_def)
  next
    case (valid_config t)
    then show ?thesis using at [of t] by (simp add: stage_inv_def settled_def)
  next
    case (new_manager t n)
    then show ?thesis using at [of t] made_Suc [of n s] by (simp add: stage_inv_def)
  next
    case (load_from_device t)
    then show ?thesis using at [of t] by (simp add: stage_inv_def)
  next
    case (start_thread t)
    then show ?thesis using at [of t] by (simp add: stage_inv_def)
  next
    case (publish t)
    then show ?thesis using at [of t] by (simp add: stage_inv_def settled_def)
  next
    case (unlock t)
    then show ?thesis using at [of t] by (simp add: stage_inv_def)
  next
    case (read_flag t)
    then show ?thesis using assms(3) free [of t] by (auto simp: stage_inv_def split: option.splits)
  next
    case (return_call t)
    then show ?thesis using assms(3) free [of t] by (auto simp: stage_inv_def split: option.splits)
  qed
qed

interpretation starts: invariant_system start_init start_step start_inv
proof
  show "start_inv start_init"
    by (simp add: start_inv_def holder_inv_def held_def stage_inv_def settled_def made_def start_init_def)
  show "start_step s s' \<Longrightarrow> start_inv s \<Longrightarrow> start_inv s'" for s s'
    unfolding start_inv_def using holder_step stage_step calling_step [of s s'] by simp
qed

abbreviation start_reach :: "start_state \<Rightarrow> bool" where
  "start_reach \<equiv> reach start_init start_step"

lemma stage_cases:
  assumes "start_inv s"
  obtains k where "made k s" "k \<le> MANAGERS" "st_threads s \<le> 1" "st_threads s = 1 \<or> st_success s \<Longrightarrow> k = MANAGERS"
proof (cases "st_mutex s")
  case None
  then show ?thesis using assms that by (auto simp: start_inv_def stage_inv_def settled_def split: if_splits)
next
  case (Some t)
  then show ?thesis using assms that
    by (cases "st_pcs s t") (auto simp: start_inv_def stage_inv_def settled_def split: if_splits)
qed

section \<open>Properties\<close>

text \<open>C6: however many threads call \<open>initialize\<close>, each manager is made at most once and at
  most one command thread is started; and whoever runs after it, the command thread or a
  call of the client that has read \<open>_initializeSuccess\<close>, finds every manager made.
\<close>
theorem started_once:
  assumes "start_reach s"
  shows "(\<forall>n. st_news s n \<le> 1) \<and> st_threads s \<le> 1 \<and>
    (st_threads s = 1 \<or> st_success s \<or> st_pcs s t = SCalling \<longrightarrow> (\<forall>n < MANAGERS. st_news s n = 1))"
proof -
  have inv: "start_inv s" by (rule starts.reach_inv [OF assms])
  obtain k where "made k s" "k \<le> MANAGERS" "st_threads s \<le> 1" "st_threads s = 1 \<or> st_success s \<Longrightarrow> k = MANAGERS"
    using stage_cases [OF inv] by metis
  moreover have "st_pcs s t = SCalling \<Longrightarrow> st_success s" using inv by (auto simp: start_inv_def)
  ultimately show ?thesis by (auto simp: made_def)
qed

text \<open>How many steps a call of \<open>initialize\<close> or of the client can still take.\<close>

fun steps_left :: "start_pc \<Rightarrow> nat" where
  "steps_left SIdle = 0"
| "steps_left SCalling = 1"
| "steps_left SPublished = 1"
| "steps_left SStarted = 2"
| "steps_left SLoaded = 3"
| "steps_left (SCreating n) = 4 + (MANAGERS - n)"
| "steps_left SLocked = 5 + MANAGERS"

lemma can_step:
  assumes "start_reach s" "st_pcs s t \<noteq> SIdle"
  shows "\<exists>s'. start_step s s' \<and> steps_left (st_pcs s' t) < steps_left (st_pcs s t) \<and>
    (\<forall>u. u \<noteq> t \<longrightarrow> st_pcs s' u = st_pcs s u)"
proof -
  have inv: "start_inv s" by (rule starts.reach_inv [OF assms(1)])
  have next_pc: ?thesis if "start_step s (goto t p s1)" "st_pcs s1 = st_pcs s" "steps_left p < steps_left (st_pcs s t)" for p s1
    using that by (intro exI [of _ "goto t p s1"]) simp
  show ?thesis
  proof (cases "st_pcs s t")
    case (SCreating n)
    have "n \<le> MANAGERS" using inv SCreating stage_at [of s t] by (simp add: start_inv_def)
    then consider "n = MANAGERS" | "n < MANAGERS" by linarith
    then show ?thesis
    proof cases
      case 1
      with SCreating show ?thesis by (intro next_pc [OF load_from_device]) simp_all
    next
      case 2
      then show ?thesis using SCreating by (intro next_pc [OF new_manager [OF SCreating 2]]) simp_all
    qed
  next
    case SLocked
    show ?thesis
    proof (cases "st_success s")
      case True
      with SLocked show ?thesis by (intro next_pc [OF already [OF SLocked]]) simp_all
    next
      case False
      with SLocked show ?thesis by (intro next_pc [OF valid_config [OF SLocked]]) simp_all
    qed
  next
    case SLoaded
    then show ?thesis by (intro next_pc [OF start_thread [OF SLoaded]]) simp_all
  next
    case SStarted
    then show ?thesis by (intro next_pc [OF publish [OF SStarted]]) simp_all
  next
    case SPublished
    then show ?thesis by (intro next_pc [OF unlock [OF SPublished]]) simp_all
  next
    case SCalling
    then show ?thesis by (intro next_pc [OF return_call [OF SCalling]]) simp_all
  qed (use assms(2) in simp)
qed

lemma step_nearer:
  assumes "start_step s s'" "st_pcs s t \<noteq> SIdle" "st_pcs s' t \<noteq> st_pcs s t"
  shows "steps_left (st_pcs s' t) < steps_left (st_pcs s t)"
  using assms(1)
proof cases
  case (new_manager u n)
  with assms(2,3) show ?thesis by (auto split: if_splits)
qed (use assms(2,3) in \<open>auto split: if_splits\<close>)

text \<open>\<open>initialize\<close> never waits and ends: in every reachable state each thread inside a call
  can take a step, whatever the others do, and every step it takes brings the call nearer
  to its end.
\<close>
theorem start_never_blocks:
  assumes "start_reach s" "st_pcs s t \<noteq> SIdle"
  shows "(\<exists>s'. start_step s s' \<and> st_pcs s' t \<noteq> st_pcs s t) \<and>
    (\<forall>s'. start_step s s' \<longrightarrow> st_pcs s' t = st_pcs s t \<or> steps_left (st_pcs s' t) < steps_left (st_pcs s t))"
  using can_step [OF assms] step_nearer [OF _ assms(2)] by fastforce

section \<open>An example run\<close>

text \<open>Thread 0 has started the SDK and is about to set the flag.\<close>

definition almost_started :: start_state where
  "almost_started = \<lparr>st_mutex = Some 0, st_success = False, st_news = (\<lambda>n. 0)(0 := 1, 1 := 1, 2 := 1, 3 := 1), st_threads = 1,
     st_pcs = (\<lambda>t. SIdle)(0 := SStarted)\<rparr>"

lemma almost_started_reach: "start_reach almost_started"
proof -
  define s where "s m p f i = \<lparr>st_mutex = m, st_success = False, st_news = f, st_threads = i, st_pcs = (\<lambda>t. SIdle)(0 := p)\<rparr>"
    for m p f i
  let ?z = "\<lambda>n. 0 :: nat"
  let ?s = "s (Some 0)"
  have lock: "start_step start_init (?s SLocked ?z 0)"
    using try_lock [of start_init 0] by (simp add: s_def start_init_def goto_def)
  have valid: "start_step (?s SLocked ?z 0) (?s (SCreating 0) ?z 0)"
    using valid_config [of "?s SLocked ?z 0" 0] by (simp add: s_def goto_def)
  have manager: "start_step (?s (SCreating n) f 0) (?s (SCreating (Suc n)) (f(n := Suc (f n))) 0)" if "n < 4" for n f
    using new_manager [of "?s (SCreating n) f 0" 0 n] that by (simp add: s_def goto_def MANAGERS_def)
  have load: "start_step (?s (SCreating 4) f 0) (?s SLoaded f 0)" for f
    using load_from_device [of "?s (SCreating 4) f 0" 0] by (simp add: s_def goto_def MANAGERS_def)
  have thread: "start_step (?s SLoaded f 0) (?s SStarted f 1)" for f
    using start_thread [of "?s SLoaded f 0" 0] by (simp add: s_def goto_def)
  let ?run = "[?s SLocked ?z 0, ?s (SCreating 0) ?z 0, ?s (SCreating 1) (?z(0 := 1)) 0, ?s (SCreating 2) (?z(0 := 1, 1 := 1)) 0,
    ?s (SCreating 3) (?z(0 := 1, 1 := 1, 2 := 1)) 0, ?s (SCreating 4) (?z(0 := 1, 1 := 1, 2 := 1, 3 := 1)) 0,
    ?s SLoaded (?z(0 := 1, 1 := 1, 2 := 1, 3 := 1)) 0, almost_started]"
  have "run_of start_step start_init ?run"
    using lock valid manager [of 0 ?z] manager [of 1 "?z(0 := 1)"] manager [of 2 "?z(0 := 1, 1 := 1)"]
      manager [of 3 "?z(0 := 1, 1 := 1, 2 := 1)"] load thread [of "?z(0 := 1, 1 := 1, 2 := 1, 3 := 1)"]
    by (simp add: almost_started_def s_def [of _ SStarted] numeral_eq_Suc)
  from run_of_reach [OF reach_start this] show ?thesis by simp
qed

lemma started_once_witness: "st_news almost_started 0 = 1 \<and> st_news almost_started 3 = 1 \<and> st_threads almost_started \<le> 1"
  using started_once [OF almost_started_reach, of 0] by (simp add: almost_started_def MANAGERS_def)

lemma start_never_blocks_witness:
  "\<exists>s'. start_step almost_started s' \<and> steps_left (st_pcs s' 0) < 2"
  using start_never_blocks [OF almost_started_reach, of 0] by (fastforce simp: almost_started_def)

end
