(* ===== verification/Logger_Lock.thy ===== *)
theory Logger_Lock
  imports Transition_System
begin

text \<open>
  The threads that share one \<open>Logger\<close>: any number of them in \<open>write_log\<close>, and the command
  thread in \<open>send_pending_logs\<close>.  Both look at \<open>_writeFilePtr\<close> before they lock
  \<open>_logMutex\<close>, and both may rotate \<open>latest.txt\<close> while they hold it: \<open>fclose\<close>, \<open>rename\<close>,
  \<open>fopen\<close>.  A step is one of these actions; \<open>LChecked (Some line)\<close> is a thread in
  \<open>write_log\<close>, \<open>LChecked None\<close> one in \<open>send_pending_logs\<close>.

  A \<open>FILE\<close> is a number, \<open>lf_open\<close> are the open ones.  Files are lists of lines;
  \<open>lf_rotated\<close> are the rotated ones, oldest first: here their names differ (\<open>Logger_Contract\<close>
  says what happens when they do not) and none is uploaded yet.  When a file is rotated
  (\<open>rotation_due\<close>) is left open.  \<open>fails\<close>: \<open>fopen\<close> may fail.
\<close>

section \<open>States and steps\<close>

datatype log_pc =
    LIdle
  | LChecked "string option"
  | LLocked "string option"
  | LWritten
  | LClosed
  | LRenamed

record log_state =
  lf_file :: "nat option"
  lf_open :: "nat \<Rightarrow> bool"
  lf_next :: nat
  lf_mutex :: "nat option"
  lf_latest :: "string list"
  lf_rotated :: "string list list"
  lf_pcs :: "nat \<Rightarrow> log_pc"

definition log_init :: log_state where
  "log_init = \<lparr>lf_file = Some 0, lf_open = (\<lambda>p. False)(0 := True), lf_next = 1, lf_mutex = None, lf_latest = [],
     lf_rotated = [], lf_pcs = (\<lambda>t. LIdle)\<rparr>"

definition at_pc :: "nat \<Rightarrow> log_pc \<Rightarrow> log_state \<Rightarrow> log_state" where
  "at_pc t p s = s\<lparr>lf_pcs := (lf_pcs s)(t := p)\<rparr>"

definition leave :: "nat \<Rightarrow> log_state \<Rightarrow> log_state" where
  "leave t s = at_pc t LIdle (s\<lparr>lf_mutex := None\<rparr>)"

text \<open>\<open>fprintf\<close>, \<open>ftell\<close> and \<open>fclose\<close> are defined on an open file only.\<close>

definition usable :: "log_state \<Rightarrow> nat \<Rightarrow> bool" where
  "usable s p = (lf_file s = Some p \<and> lf_open s p)"

inductive log_step :: "bool \<Rightarrow> log_state \<Rightarrow> log_state \<Rightarrow> bool" for fails :: bool where
  null_check: "lf_pcs s t = LIdle \<Longrightarrow> lf_file s \<noteq> None \<Longrightarrow> log_step fails s (at_pc t (LChecked job) s)"
| lock_log: "lf_pcs s t = LChecked job \<Longrightarrow> lf_mutex s = None \<Longrightarrow>
    log_step fails s (at_pc t (LLocked job) (s\<lparr>lf_mutex := Some t\<rparr>))"
| print_line: "lf_pcs s t = LLocked (Some line) \<Longrightarrow> usable s p \<Longrightarrow>
    log_step fails s (at_pc t LWritten (s\<lparr>lf_latest := lf_latest s @ [line]\<rparr>))"
| no_rotation: "lf_pcs s t = LWritten \<Longrightarrow> usable s p \<Longrightarrow> log_step fails s (leave t s)"
| nothing_to_send: "lf_pcs s t = LLocked None \<Longrightarrow> usable s p \<Longrightarrow> log_step fails s (leave t s)"
| close_full: "lf_pcs s t = LWritten \<Longrightarrow> usable s p \<Longrightarrow>
    log_step fails s (at_pc t LClosed (s\<lparr>lf_open := (lf_open s)(p := False)\<rparr>))"
| close_pending: "lf_pcs s t = LLocked None \<Longrightarrow> usable s p \<Longrightarrow>
    log_step fails s (at_pc t LClosed (s\<lparr>lf_open := (lf_open s)(p := False)\<rparr>))"
| rename_log: "lf_pcs s t = LClosed \<Longrightarrow>
    log_step fails s (at_pc t LRenamed (s\<lparr>lf_rotated := lf_rotated s @ [lf_latest s], lf_latest := []\<rparr>))"
| rename_fails: "lf_pcs s t = LClosed \<Longrightarrow> log_step fails s (at_pc t LRenamed s)"
| reopen: "lf_pcs s t = LRenamed \<Longrightarrow>
    log_step fails s (leave t (s\<lparr>lf_file := Some (lf_next s), lf_open := (lf_open s)(lf_next s := True), lf_next := Suc (lf_next s)\<rparr>))"
| reopen_fails: "lf_pcs s t = LRenamed \<Longrightarrow> fails \<Longrightarrow>
    log_step fails s (leave t (s\<lparr>lf_file := None\<rparr>))"

text \<open>What the log says, from the oldest rotated file to the current one.\<close>

definition log_lines :: "log_state \<Rightarrow> string list" where
  "log_lines s = concat (lf_rotated s) @ lf_latest s"

section \<open>The invariant\<close>

fun has_lock :: "log_pc \<Rightarrow> bool" where
  "has_lock LIdle = False"
| "has_lock (LChecked job) = False"
| "has_lock _ = True"

definition only_open :: "nat option \<Rightarrow> log_state \<Rightarrow> bool" where
  "only_open p s = (\<forall>q. lf_open s q \<longleftrightarrow> p = Some q)"

fun file_stage :: "bool \<Rightarrow> log_pc \<Rightarrow> log_state \<Rightarrow> bool" where
  "file_stage fails LWritten s = (lf_file s \<noteq> None \<and> only_open (lf_file s) s)"
| "file_stage fails LClosed s = only_open None s"
| "file_stage fails LRenamed s = only_open None s"
| "file_stage fails _ s = (only_open (lf_file s) s \<and> (lf_file s = None \<longrightarrow> fails))"

definition file_inv :: "bool \<Rightarrow> log_state \<Rightarrow> bool" where
  "file_inv fails s = (case lf_mutex s of None \<Rightarrow> file_stage fails LIdle s | Some t \<Rightarrow> file_stage fails (lf_pcs s t) s)"

definition log_inv :: "bool \<Rightarrow> log_state \<Rightarrow> bool" where
  "log_inv fails s = (held has_lock (lf_pcs s) (lf_mutex s) \<and> file_inv fails s)"

lemma at_pc_simps [simp]:
  "lf_pcs (at_pc t p s) = (lf_pcs s)(t := p)" "lf_mutex (at_pc t p s) = lf_mutex s" "lf_file (at_pc t p s) = lf_file s"
  "lf_open (at_pc t p s) = lf_open s" "lf_latest (at_pc t p s) = lf_latest s" "lf_rotated (at_pc t p s) = lf_rotated s"
  "only_open q (at_pc t p s) = only_open q s"
  by (simp_all add: at_pc_def only_open_def)

lemma leave_simps [simp]:
  "lf_pcs (leave t s) = (lf_pcs s)(t := LIdle)" "lf_mutex (leave t s) = None" "lf_file (leave t s) = lf_file s"
  "lf_open (leave t s) = lf_open s" "lf_latest (leave t s) = lf_latest s" "lf_rotated (leave t s) = lf_rotated s"
  "only_open q (leave t s) = only_open q s"
  by (simp_all add: leave_def only_open_def)

lemma held_log_step:
  assumes "log_step fails s s'" "held has_lock (lf_pcs s) (lf_mutex s)"
  shows "held has_lock (lf_pcs s') (lf_mutex s')"
  using assms(1)
proof cases
  case (lock_log t job)
  with assms(2) show ?thesis by (simp add: held_enter)
qed (use assms(2) in \<open>simp_all add: held_move held_leave\<close>)

lemma file_at: "log_inv fails s \<Longrightarrow> has_lock (lf_pcs s t) \<Longrightarrow> lf_mutex s = Some t \<and> file_stage fails (lf_pcs s t) s"
  unfolding log_inv_def file_inv_def by (auto dest: held_owner)

lemma file_free: "log_inv fails s \<Longrightarrow> \<not> has_lock (lf_pcs s t) \<Longrightarrow> lf_mutex s \<noteq> Some t"
  unfolding log_inv_def by (blast dest: held_other)

lemma file_stage_frame:
  "only_open (lf_file s') s' = only_open (lf_file s) s \<Longrightarrow> only_open None s' = only_open None s \<Longrightarrow> lf_file s' = lf_file s \<Longrightarrow>
    file_stage fails p s' = file_stage fails p s"
  by (cases p) simp_all


lemma file_step:
  assumes "log_step fails s s'" "log_inv fails s"
  shows "file_inv fails s'"
proof -
  note at = file_at [OF assms(2)] and free = file_free [OF assms(2)]
  have inv: "file_inv fails s" using assms(2) by (simp add: log_inv_def)
  show ?thesis
    using assms(1)
  proof cases
    case (null_check t job)
    then have "file_stage fails p s' = file_stage fails p s" for p by (intro file_stage_frame) simp_all
    then show ?thesis using null_check inv free [of t] by (auto simp: file_inv_def split: option.splits)
  next
    case (lock_log t job)
    then show ?thesis using inv by (simp add: file_inv_def only_open_def)
  next
    case (print_line t line p)
    then show ?thesis using at [of t] by (auto simp: file_inv_def only_open_def usable_def)
  next
    case (no_rotation t p)
    then show ?thesis using at [of t] by (auto simp: file_inv_def only_open_def)
  next
    case (nothing_to_send t p)
    then show ?thesis using at [of t] by (auto simp: file_inv_def only_open_def)
  next
    case (close_full t p)
    then show ?thesis using at [of t] by (auto simp: file_inv_def only_open_def usable_def)
  next
    case (close_pending t p)
    then show ?thesis using at [of t] by (auto simp: file_inv_def only_open_def usable_def)
  next
    case (rename_log t)
    then show ?thesis using at [of t] by (auto simp: file_inv_def only_open_def)
  next
    case (rename_fails t)
    then show ?thesis using at [of t] by (auto simp: file_inv_def only_open_def)
  next
    case (reopen t)
    then show ?thesis using at [of t] by (auto simp: file_inv_def only_open_def)
  next
    case (reopen_fails t)
    then show ?thesis using at [of t] by (auto simp: file_inv_def only_open_def)
  qed
qed

interpretation logs: invariant_system log_init "log_step fails" "log_inv fails" for fails
proof
  show "log_inv fails log_init"
    by (auto simp: log_inv_def held_def file_inv_def only_open_def log_init_def)
  show "log_step fails s s' \<Longrightarrow> log_inv fails s \<Longrightarrow> log_inv fails s'" for s s'
    using held_log_step file_step by (simp add: log_inv_def)
qed

abbreviation log_reach :: "bool \<Rightarrow> log_state \<Rightarrow> bool" where
  "log_reach fails \<equiv> reach log_init (log_step fails)"

section \<open>Properties\<close>

text \<open>A thread with the lock that is about to use the file.\<close>

fun needs_file :: "log_pc \<Rightarrow> bool" where
  "needs_file (LLocked job) = True"
| "needs_file LWritten = True"
| "needs_file _ = False"

text \<open>C22: as long as \<open>fopen\<close> works, no interleaving of the threads that log with the one that
  sends makes a thread use a null or closed \<open>FILE\<close>, and when the lock is free exactly one
  \<open>FILE\<close> is open, so rotations leak none.
\<close>
theorem log_file_usable:
  assumes "log_reach False s"
  shows "(needs_file (lf_pcs s t) \<longrightarrow> (\<exists>p. usable s p)) \<and>
    (lf_mutex s = None \<longrightarrow> (\<exists>p. \<forall>q. lf_open s q \<longleftrightarrow> q = p))"
proof -
  have inv: "log_inv False s" by (rule logs.reach_inv [OF assms])
  have "\<exists>p. usable s p" if "needs_file (lf_pcs s t)"
    using file_at [OF inv, of t] that by (cases "lf_pcs s t") (auto simp: usable_def only_open_def)
  moreover have "\<exists>p. \<forall>q. lf_open s q \<longleftrightarrow> q = p" if "lf_mutex s = None"
    using inv that by (auto simp: log_inv_def file_inv_def only_open_def)
  ultimately show ?thesis by blast
qed


definition only_waits :: "log_state \<Rightarrow> bool" where
  "only_waits s = (\<forall>t. has_lock (lf_pcs s t) \<longrightarrow> (\<exists>job. lf_pcs s t = LLocked job))"

lemma only_waits_pcs: "only_waits s \<Longrightarrow> lf_pcs s t \<notin> {LWritten, LClosed, LRenamed}"
  unfolding only_waits_def by (drule spec [of _ t]) (cases "lf_pcs s t", auto)

lemma dead_step:
  assumes "log_step fails s s'" "lf_file s = None" "only_waits s"
  shows "lf_file s' = None \<and> log_lines s' = log_lines s \<and> only_waits s'"
  using assms(1)
proof cases
  case (lock_log t job)
  then show ?thesis using assms(2,3) by (auto simp: log_lines_def only_waits_def)
qed (use assms(2) only_waits_pcs [OF assms(3)] in \<open>auto simp: usable_def\<close>)

text \<open>C24: when \<open>fopen\<close> fails after a rotation, a thread that has already looked at the pointer
  takes the lock and uses a null \<open>FILE\<close>; and nothing is ever logged again.
\<close>
theorem failed_reopen_ends_log:
  assumes "log_reach True s" "lf_pcs s t = LRenamed" "lf_pcs s u = LChecked job"
  shows "\<exists>s'. (log_step True OO log_step True) s s' \<and> lf_pcs s' u = LLocked job \<and> lf_file s' = None \<and>
    (\<forall>s''. (log_step True)\<^sup>*\<^sup>* s' s'' \<longrightarrow> lf_file s'' = None \<and> log_lines s'' = log_lines s)"
proof -
  let ?s1 = "leave t (s\<lparr>lf_file := None\<rparr>)"
  let ?s2 = "at_pc u (LLocked job) (?s1\<lparr>lf_mutex := Some u\<rparr>)"
  have "log_step True s ?s1" by (rule reopen_fails [OF assms(2)]) simp
  moreover have "log_step True ?s1 ?s2" by (rule lock_log) (use assms in auto)
  ultimately have run: "(log_step True OO log_step True) s ?s2" by blast
  have mutex: "lf_mutex s = Some t" using file_at [OF logs.reach_inv [OF assms(1)], of t] assms(2) by simp
  have waits: "only_waits ?s2"
    using logs.reach_inv [OF assms(1)] mutex by (auto simp: log_inv_def held_def only_waits_def)
  have stuck: "lf_file s'' = None \<and> log_lines s'' = log_lines s \<and> only_waits s''" if "(log_step True)\<^sup>*\<^sup>* ?s2 s''" for s''
    using that
  proof (induction rule: rtranclp_induct)
    case base
    show ?case using waits by (simp add: log_lines_def)
  next
    case (step y z)
    then show ?case using dead_step [OF step(2)] by simp
  qed
  show ?thesis using run stuck assms(2,3) by (intro exI [of _ ?s2]) auto
qed

section \<open>Example runs\<close>

text \<open>Thread 0 has rotated the file; thread 1 has looked at the pointer before.\<close>

definition log_rotating :: log_state where
  "log_rotating = \<lparr>lf_file = Some 0, lf_open = (\<lambda>p. False)(0 := True, 0 := False), lf_next = 1, lf_mutex = Some 0, lf_latest = [],
     lf_rotated = [[''line'']], lf_pcs = (\<lambda>t. LIdle)(0 := LRenamed, 1 := LChecked None)\<rparr>"

definition log_locked :: log_state where
  "log_locked = log_init\<lparr>lf_mutex := Some 0, lf_pcs := (\<lambda>t. LIdle)(0 := LLocked (Some ''line''))\<rparr>"

lemma log_locked_reach: "log_reach fails log_locked"
proof -
  define s1 where "s1 = log_init\<lparr>lf_pcs := (\<lambda>t. LIdle)(0 := LChecked (Some ''line''))\<rparr>"
  note defs = s1_def log_init_def log_locked_def
  have "log_step fails log_init s1" using null_check [of log_init 0] by (simp add: defs at_pc_def)
  moreover have "log_step fails s1 log_locked" using lock_log [of s1 0] by (simp add: defs at_pc_def)
  ultimately show ?thesis by (meson reach.intros)
qed

lemma log_rotating_reach: "log_reach fails log_rotating"
proof -
  define s1 where "s1 = log_locked\<lparr>lf_latest := [''line''], lf_pcs := (\<lambda>t. LIdle)(0 := LWritten)\<rparr>"
  define s2 where "s2 = s1\<lparr>lf_pcs := (\<lambda>t. LIdle)(0 := LWritten, 1 := LChecked None)\<rparr>"
  define s3 where "s3 = s2\<lparr>lf_open := (lf_open s2)(0 := False), lf_pcs := (lf_pcs s2)(0 := LClosed)\<rparr>"
  note defs = s1_def s2_def s3_def log_locked_def log_init_def
  have "log_step fails log_locked s1" using print_line [of log_locked 0 "''line''" 0] by (simp add: defs at_pc_def usable_def)
  moreover have "log_step fails s1 s2" using null_check [of s1 1] by (simp add: defs at_pc_def)
  moreover have "log_step fails s2 s3" using close_full [of s2 0 0] by (simp add: defs at_pc_def usable_def)
  moreover have "log_step fails s3 log_rotating"
    using rename_log [of s3 0] by (simp add: defs at_pc_def log_rotating_def fun_upd_twist)
  ultimately show ?thesis using log_locked_reach by (meson reach_step)
qed

lemma log_file_usable_witness: "\<exists>p. usable log_locked p"
  using log_file_usable [OF log_locked_reach, of 0] by (simp add: log_locked_def)


lemma failed_reopen_ends_log_witness:
  "\<exists>s'. log_reach True s' \<and> lf_pcs s' 1 = LLocked None \<and> lf_file s' = None"
  using failed_reopen_ends_log [OF log_rotating_reach, of 0 1 None] log_rotating_reach
  by (fastforce simp: log_rotating_def intro: reach_step)

end
