(* ===== verification/Sdk_Session.thy ===== *)
theory Sdk_Session
  imports Command_Start
begin

text \<open>
  The library as its client sees it: \<open>nimblenet.h\<close> as one function over the calls, and
  sessions, in which calls of the client and passes of the command thread follow each
  other in any order.  \<open>Start_Lock\<close>, \<open>Logger_Lock\<close>, \<open>Model_Lock\<close> and \<open>Feature_Lock\<close>
  have the steps inside the calls.
\<close>

section \<open>The calls\<close>

text \<open>\<open>Initialize\<close> has the flag \<open>busy\<close> of \<open>cc_initialize\<close>.\<close>

datatype api_call =
    Initialize bool string string
  | Get_Inference string onnx_request string
  | Exit_Inference string string bool
  | Write_Log string
  | Write_Metric string string
  | Add_Event string string
  | Get_Model_Status string
  | Internet_Switched_On
  | Get_Inputs string

datatype ('f, 'd) api_answer =
    Code int
  | Nothing
  | Accepted bool
  | Inference int "inference_return option"
  | Status "(bool \<times> string) option"
  | Inputs "('f, 'd) saved_input list option"

fun nimblenet ::
  "('f, 'd, 'db, 's) world \<Rightarrow> ticks \<Rightarrow> api_call \<Rightarrow> ('f, 'd, 'db, 's) command_center
    \<Rightarrow> (('f, 'd) api_answer \<times> ('f, 'd, 'db, 's) command_center) outcome" where
  "nimblenet w t (Initialize busy configJson homeDirectory) cc =
     ubind (initialize_nimblenet w t busy configJson homeDirectory cc) (\<lambda>(r, cc'). Inr (Code r, cc'))"
| "nimblenet w t (Get_Inference modelId req inferId) cc =
     ubind (cc_get_inference w t modelId req inferId cc) (\<lambda>(status, ret, cc'). Inr (Inference status ret, cc'))"
| "nimblenet w t (Exit_Inference modelId inferId success) cc =
     ubind (exit_inference w t modelId inferId success cc) (\<lambda>cc'. Inr (Nothing, cc'))"
| "nimblenet w t (Write_Log line) cc = Inr (Nothing, cc_write_log w (tk_dates t) line cc)"
| "nimblenet w t (Write_Metric metricType metricJson) cc = Inr (Nothing, write_metric w (tk_dates t) metricType metricJson cc)"
| "nimblenet w t (Add_Event eventMapJsonString tableName) cc =
     ubind (add_user_event w t eventMapJsonString tableName cc) (\<lambda>(ok, cc'). Inr (Accepted ok, cc'))"
| "nimblenet w t (Get_Model_Status modelId) cc =
     ubind (cc_get_model_status modelId cc) (\<lambda>status. Inr (Status status, cc))"
| "nimblenet w t Internet_Switched_On cc = Inr (Nothing, internet_switched_on cc)"
| "nimblenet w t (Get_Inputs inferId) cc =
     ubind (cc_get_inputs_for_inferId w inferId cc) (\<lambda>inputs. Inr (Inputs inputs, cc))"

lemma nimblenet_reach: "nimblenet w t c cc = Inr (a, cc') \<Longrightarrow> center_reach w cc \<Longrightarrow> center_reach w cc'"
  by (cases c) (auto simp: ubind_Inr_iff intro: center_reach.intros)

section \<open>Sessions\<close>

text \<open>A pass happens only once the command thread was started.\<close>

datatype session_event = Call ticks api_call | Pass ticks bool

fun session_step ::
  "('f, 'd, 'db, 's) world \<Rightarrow> session_event \<Rightarrow> ('f, 'd, 'db, 's) command_center
    \<Rightarrow> (('f, 'd) api_answer list \<times> ('f, 'd, 'db, 's) command_center) outcome" where
  "session_step w (Call t c) cc = ubind (nimblenet w t c cc) (\<lambda>(a, cc'). Inr ([a], cc'))"
| "session_step w (Pass t initComplete) cc =
     (if ce_initializeSuccess cc then ubind (long_running_pass w t initComplete cc) (\<lambda>cc'. Inr ([], cc')) else Inr ([], cc))"

fun run_session ::
  "('f, 'd, 'db, 's) world \<Rightarrow> session_event list \<Rightarrow> ('f, 'd, 'db, 's) command_center
    \<Rightarrow> (('f, 'd) api_answer list \<times> ('f, 'd, 'db, 's) command_center) outcome" where
  "run_session w [] cc = Inr ([], cc)"
| "run_session w (e # es) cc =
     ubind (session_step w e cc) (\<lambda>(as, cc1). ubind (run_session w es cc1) (\<lambda>(bs, cc2). Inr (as @ bs, cc2)))"

definition session_calls :: "session_event list \<Rightarrow> api_call list" where
  "session_calls es = concat (map (\<lambda>e. case e of Call t c \<Rightarrow> [c] | Pass t b \<Rightarrow> []) es)"

lemma session_calls_simps [simp]:
  "session_calls [] = []" "session_calls (Call t c # es) = c # session_calls es" "session_calls (Pass t b # es) = session_calls es"
  by (simp_all add: session_calls_def)

lemma session_step_reach: "session_step w e cc = Inr (as, cc') \<Longrightarrow> center_reach w cc \<Longrightarrow> center_reach w cc'"
  by (cases e) (auto simp: ubind_Inr_iff nimblenet_reach intro: center_reach.loop split: if_splits)

lemma run_session_reach: "run_session w es cc = Inr (as, cc') \<Longrightarrow> center_reach w cc \<Longrightarrow> center_reach w cc'"
proof (induction es arbitrary: cc as)
  case (Cons e es)
  from Cons.prems(1) obtain bs cs cc1 where "session_step w e cc = Inr (bs, cc1)" "run_session w es cc1 = Inr (cs, cc')"
    by (auto simp: ubind_Inr_iff)
  with Cons.IH session_step_reach Cons.prems(2) show ?case by blast
qed simp

text \<open>What a call answers before the start.\<close>

fun refusal :: "api_call \<Rightarrow> ('f, 'd) api_answer" where
  "refusal (Initialize busy configJson homeDirectory) = Code 0"
| "refusal (Get_Inference modelId req inferId) = Inference TERMINAL_ERROR None"
| "refusal (Add_Event eventMapJsonString tableName) = Accepted False"
| "refusal (Get_Model_Status modelId) = Status None"
| "refusal _ = Nothing"

lemma initialize_refused:
  assumes "initialize_nimblenet w t busy json home cc = Inr (r, cc')" "\<not> ce_initializeSuccess cc" "r \<noteq> 1"
  shows "r = 0 \<and> \<not> ce_initializeSuccess cc' \<and> sent (center_server cc') = sent (center_server cc)"
proof -
  have idle: "r = 0 \<and> \<not> ce_initializeSuccess c' \<and> sent (center_server c') = sent (center_server c)"
    if "cc_initialize w t busy config c = Inr (r, c')" "\<not> ce_initializeSuccess c" for config c c'
    using that(1) by (cases rule: initialize_cases) (use that(2) assms(3) in auto)
  from assms(1) show ?thesis
  proof (cases rule: nimblenet_cases)
    case (no_log l d sv)
    with init_logger_sent [OF no_log(1)] assms(2) show ?thesis by (simp add: sent_def)
  next
    case (refused l d sv)
    with init_logger_sent [OF refused(1)] assms(2) show ?thesis by (simp add: sent_def)
  next
    case (passed_on l d sv config)
    from idle [OF passed_on(4)] init_logger_sent [OF passed_on(1)] passed_on(2) assms(2) show ?thesis by (simp add: sent_def)
  qed
qed

lemma call_refused:
  assumes "nimblenet w t c cc = Inr (a, cc')" "center_reach w cc" "\<not> ce_initializeSuccess cc" "a \<noteq> Code 1"
  shows "a = refusal c \<and> \<not> ce_initializeSuccess cc' \<and> sent (center_server cc') = sent (center_server cc) \<and>
    (\<forall>i. c \<noteq> Get_Inputs i)"
proof (cases "\<exists>b j h. c = Initialize b j h")
  case True
  then show ?thesis using assms initialize_refused by (auto simp: ubind_Inr_iff) blast+
next
  case False
  note refused = calls_before_start [OF assms(2,3)]
  show ?thesis using False assms(1,3) refused by (cases c) auto
qed

section \<open>Sessions without a start\<close>



end
