(* ===== verification/Example_Program.thy ===== *)
theory Example_Program
  imports Sdk_Session
begin

text \<open>
  \<open>src/main.cpp\<close>, the example client: start, five seconds for the command thread, one
  event, one inference, and twice the saved inputs of the inference.

  What it prints is not modelled, only that printing reads the return object.  The
  command thread runs while the program sleeps; between the last calls it does not.
\<close>

section \<open>The arguments\<close>

text \<open>The text of the configuration: the tabs of each line and the rest of it.\<close>

definition example_lines :: "(nat \<times> string) list" where
  \<open>example_lines =
     [(2, ''{''),
       (3, ''"deviceID": "preprocessingDevice",''),
       (3, ''"clientID": "testclient",''),
       (3, ''"modelIDs": ["D11LightGBMModel"],''),
       (3, ''"host": "https://api.nimbleedge-staging.com",''),
       (3, ''"clientSecret": "samplekey123",''),
       (0, ''      "debug": true,''),
       (0, ''      "maxInputsToSave": 1,''),
       (3, ''"databaseConfig" : [''),
       (6, ''{''),
       (7, ''"tableName": "UserClicks",''),
       (7, ''"schema": {''),
       (8, ''"contestType": "TEXT",''),
       (8, ''"productid" : "INT",''),
       (8, ''"roundid" : "INT",''),
       (8, ''"winnerPercent" : "INT",''),
       (8, ''"prizeAmount": "REAL",''),
       (8, ''"entryFee": "INT"''),
       (7, ''      },''),
       (7, ''"expiryInMins":60''),
       (6, ''}''),
       (5, '' ]''),
       (2, ''}''),
       (1, '''')]\<close>

definition example_config :: string where
  "example_config = concat (map (\<lambda>(tabs, l). CHR 0x0A # replicate tabs (CHR 0x09) @ l) example_lines)"

text \<open>What a JSON parser makes of that text.\<close>

definition example_config_json :: json where
  "example_config_json = jobject [(''deviceID'', JString ''preprocessingDevice''), (''clientID'', JString ''testclient''),
     (''modelIDs'', JArray [JString ''D11LightGBMModel'']), (''host'', JString ''https://api.nimbleedge-staging.com''),
     (''clientSecret'', JString ''samplekey123''), (''debug'', JBool True), (''maxInputsToSave'', JInt 1),
     (''databaseConfig'', JArray [jobject [(''tableName'', JString ''UserClicks''),
       (''schema'', jobject [(''contestType'', JString ''TEXT''), (''productid'', JString ''INT''), (''roundid'', JString ''INT''),
         (''winnerPercent'', JString ''INT''), (''prizeAmount'', JString ''REAL''), (''entryFee'', JString ''INT'')]),
       (''expiryInMins'', JInt 60)]])]"

lemma example_config_accepted:
  "map_sum id (\<lambda>c. (cf_valid c, cf_modelIds c, cf_debug c, cf_maxInputsToSave c, length (cf_tableInfos c)))
     (load_user_config (\<lambda>s. Some example_config_json) example_config) = Inr (True, [''D11LightGBMModel''], True, 1, 1)"
  by code_simp

definition example_event :: string where
  \<open>example_event =
     ''{"contestType": "simple", "productid": 1, "roundid": 2, "winnerPercent":"012345"'' @
     '', "prizeAmount": 0.0123, "entryFee" : 200}''\<close>

definition example_product :: single_input where
  "example_product = \<lparr>
     si_keys = [''contestType'', ''productid'', ''roundid'', ''winnerPercent'', ''prizeAmount'', ''entryFee'', ''acxjkoacmd''],
     si_values = [''special'', ''13529'', ''97'', ''20'', ''2000000'', ''50'', ''vfdvbdcfv''], si_keysLength = 7\<rparr>"

text \<open>330 doubles that are 0, and 30 products.\<close>

definition example_request :: onnx_request where
  "example_request =
     [\<lparr>ui_data = Raw (replicate (330 * 8) (CHR 0x00)), ui_length = 330, ui_name = ''inputsToModel'', ui_dataType = 11\<rparr>,
      \<lparr>ui_data = Rows (replicate 30 example_product), ui_length = 30, ui_name = ''inputToProcessor'',
       ui_dataType = PREPROCESSOR_INPUT_TYPE\<rparr>]"

section \<open>The program\<close>

text \<open>
  The variable \<open>ret\<close>: never completely filled, filled by one of the two calls, or given
  back to \<open>free\<close>.  Printing reads all of it.
\<close>

datatype ('f, 'd) return_object = Unfilled | Outputs inference_return | Saved "('f, 'd) saved_input list" | Given_Back

definition print_return :: "('f, 'd) return_object \<Rightarrow> unit outcome" where
  "print_return ret = (case ret of Outputs out \<Rightarrow> Inr () | Saved inputs \<Rightarrow> Inr () | _ \<Rightarrow> Inl Dangling)"

definition free_return :: "('f, 'd) return_object \<Rightarrow> ('f, 'd) return_object outcome" where
  "free_return ret = (case ret of Outputs out \<Rightarrow> Inr Given_Back | Saved inputs \<Rightarrow> Inr Given_Back | _ \<Rightarrow> Inl Dangling)"

definition example_model :: string where "example_model = ''D11LightGBMModel''"

definition example_inference ::
  "('f, 'd, 'db, 's) world \<Rightarrow> (nat \<Rightarrow> ticks) \<Rightarrow> ('f, 'd, 'db, 's) command_center
    \<Rightarrow> (('f, 'd) return_object \<times> ('f, 'd, 'db, 's) command_center) outcome" where
  "example_inference w t cc =
     ubind (cc_get_inference w (t 2) example_model example_request ''id2'' cc) (\<lambda>(status, r, cc1).
       let ret = (case r of Some out \<Rightarrow> Outputs out | None \<Rightarrow> Unfilled) in
       if status \<noteq> SUCCESS then Inr (ret, cc1)
       else ubind (print_return ret) (\<lambda>_.
            ubind (exit_inference w (t 3) example_model ''id2'' True cc1) (\<lambda>cc2.
            ubind (free_return ret) (\<lambda>ret'. Inr (ret', cc2)))))"

text \<open>One turn of the last loop: the answer of \<open>get_inputs_for_inferId\<close> is printed, not looked at.\<close>

definition example_saved_inputs ::
  "('f, 'd, 'db, 's) world \<Rightarrow> ('f, 'd, 'db, 's) command_center \<Rightarrow> ('f, 'd) return_object \<Rightarrow> ('f, 'd) return_object outcome" where
  "example_saved_inputs w cc ret =
     ubind (cc_get_inputs_for_inferId w ''id2'' cc) (\<lambda>inputs.
       let ret1 = (case inputs of Some xs \<Rightarrow> Saved xs | None \<Rightarrow> ret) in
       ubind (print_return ret1) (\<lambda>_. free_return ret1))"

definition example_calls ::
  "('f, 'd, 'db, 's) world \<Rightarrow> (nat \<Rightarrow> ticks) \<Rightarrow> ('f, 'd, 'db, 's) command_center
    \<Rightarrow> (('f, 'd) return_object \<times> ('f, 'd, 'db, 's) command_center) outcome" where
  "example_calls w t cc =
     ubind (example_inference w t cc) (\<lambda>(ret, cc1).
     ubind (ufold (\<lambda>i. example_saved_inputs w cc1) [0 ..< (2 :: nat)] ret) (\<lambda>ret1. Inr (ret1, cc1)))"

text \<open>\<open>passes\<close>: what the command thread does while the program sleeps.\<close>

definition example_main ::
  "('f, 'd, 'db, 's) world \<Rightarrow> (nat \<Rightarrow> ticks) \<Rightarrow> (ticks \<times> bool) list \<Rightarrow> ('f, 'd, 'db, 's) command_center
    \<Rightarrow> (('f, 'd) return_object \<times> ('f, 'd, 'db, 's) command_center) outcome" where
  "example_main w t passes cc =
     ubind (initialize_nimblenet w (t 0) False example_config ''./'' cc) (\<lambda>(r, cc1).
     ubind (run_session w (map (\<lambda>(u, initComplete). Pass u initComplete) passes) cc1) (\<lambda>(as, cc2).
     ubind (add_user_event w (t 1) example_event ''UserClicks'' (internet_switched_on cc2)) (\<lambda>(ok, cc3).
       example_calls w t cc3)))"

section \<open>Facts\<close>

lemma exit_keeps_inputs:
  assumes "exit_inference w t m i ok cc = Inr cc'"
  shows "cc_get_inputs_for_inferId w x cc' = cc_get_inputs_for_inferId w x cc"
proof -
  have "map_option sd_executor (ce_sdk cc') = map_option sd_executor (ce_sdk cc)"
    using assms
    by (auto simp: exit_inference_def Let_def log_metrics_def with_metrics_def set_server_def split: if_splits option.splits prod.splits)
  then show ?thesis by (auto simp: cc_get_inputs_for_inferId_def split: option.splits)
qed

lemma executor_success:
  assumes "executor_get_inference E debug clk fm inferId modelId req ex ue = Inr r" "er_status r = SUCCESS"
  shows "er_return r \<noteq> None"
proof (cases "smap_find (ex_modelMap ex) modelId")
  case (Some md)
  with assms obtain ir where "model_get_inference E debug clk fm md req ue = Inr ir"
    "ir_status ir = SUCCESS" "er_return r = ir_return ir"
    by (auto simp: executor_get_inference_def ubind_Inr_iff)
  with inference_codes show ?thesis by metis
qed (use assms in \<open>auto simp: executor_get_inference_def SUCCESS_def TERMINAL_ERROR_def\<close>)

lemma success_returns: "cc_get_inference w t m req i cc = Inr (SUCCESS, r, cc1) \<Longrightarrow> r \<noteq> None"
  by (auto simp: cc_get_inference_def Let_def ubind_Inr_iff TERMINAL_ERROR_def SUCCESS_def
      dest: executor_success [unfolded SUCCESS_def] split: if_splits option.splits)

lemma success_started: "cc_get_inference w t m req i cc = Inr (SUCCESS, r, cc1) \<Longrightarrow> ce_initializeSuccess cc1 \<and> ce_sdk cc1 \<noteq> None"
  by (auto simp: cc_get_inference_def Let_def ubind_Inr_iff TERMINAL_ERROR_def SUCCESS_def split: if_splits option.splits)

lemma exit_started: "ce_sdk cc \<noteq> None \<Longrightarrow> \<exists>cc'. exit_inference w t m i ok cc = Inr cc'"
  by (auto simp: exit_inference_def Let_def)

lemma print_free [simp]:
  "print_return (Saved xs) = Inr ()" "free_return (Saved xs) = Inr Given_Back"
  "print_return Given_Back = Inl Dangling" "print_return Unfilled = Inl Dangling"
  "print_return (Outputs out) = Inr ()" "free_return (Outputs out) = Inr Given_Back"
  by (simp_all add: print_return_def free_return_def)

lemma saved_inputs_turn:
  "example_saved_inputs w cc ret = Inr ret' \<longleftrightarrow>
    (\<exists>inputs. cc_get_inputs_for_inferId w ''id2'' cc = Inr inputs \<and> (inputs \<noteq> None \<or> print_return ret = Inr ()) \<and> ret' = Given_Back)"
  by (cases ret) (auto simp: example_saved_inputs_def ubind_Inr_iff Let_def split: option.splits)

section \<open>Properties\<close>

text \<open>C38: the example runs to its end exactly when the inputs of its inference were saved:
  without a loaded model, or with a \<open>maxInputsToSave\<close> of 0, it prints and frees memory
  that was never allocated or is already free.
\<close>
theorem example_needs_saved_inputs:
  assumes "cc_get_inference w (t 2) example_model example_request ''id2'' cc = Inr (status, r, cc1)"
  shows "(\<exists>out. example_calls w t cc = Inr out) \<longleftrightarrow> (\<exists>xs. cc_get_inputs_for_inferId w ''id2'' cc1 = Inr (Some xs))"
proof -
  have turns: "(\<exists>ret1. ufold (\<lambda>i. example_saved_inputs w c) [0 ..< (2 :: nat)] ret = Inr ret1) \<longleftrightarrow>
      (\<exists>xs. cc_get_inputs_for_inferId w ''id2'' c = Inr (Some xs))" if "ret = Given_Back \<or> status \<noteq> SUCCESS" for c ret
    by (auto simp: upt_rec ubind_Inr_iff saved_inputs_turn)
  show ?thesis
  proof (cases "status = SUCCESS")
    case True
    then obtain out where r: "r = Some out" using success_returns assms by blast
    obtain cc2 where cc2: "exit_inference w (t 3) example_model ''id2'' True cc1 = Inr cc2"
      using success_started assms True exit_started by blast
    then have "example_inference w t cc = Inr (Given_Back, cc2)"
      using assms True r by (simp add: example_inference_def)
    with turns [of Given_Back cc2] exit_keeps_inputs [OF cc2, of "''id2''"] show ?thesis
      by (auto simp: example_calls_def ubind_Inr_iff)
  next
    case False
    then have "example_inference w t cc = Inr (case r of Some out \<Rightarrow> Outputs out | None \<Rightarrow> Unfilled, cc1)"
      using assms by (simp add: example_inference_def Let_def)
    with turns False show ?thesis by (auto simp: example_calls_def ubind_Inr_iff)
  qed
qed

text \<open>A device without plans and a server that never answers: the example reads \<open>ret\<close> before anything fills it.\<close>

lemma example_needs_saved_inputs_witness:
  "\<not> (\<exists>out. example_calls start_world (\<lambda>k. start_ticks) started_center = Inr out)"
proof -
  have "ce_initializeSuccess started_center" "ce_sdk started_center = Some started_sdk" "smap_find (ex_modelMap (sd_executor started_sdk)) m = None"
    "signed_result 32 (ce_inferenceCount started_center + 1) = Inr 1" for m
    by (simp_all add: started_center_def started_sdk_def fresh_center_def new_command_center_def)
  then obtain cc where cc: "cc_get_inference start_world start_ticks example_model example_request ''id2'' started_center = Inr (TERMINAL_ERROR, None, cc)"
    and sdk: "\<exists>s. ce_sdk cc = Some s \<and> id_inferIds (ex_inferenceDataBase (sd_executor s)) = []"
    by (auto simp: cc_get_inference_def executor_get_inference_def Let_def exit_inference_def log_metrics_def with_metrics_def
        set_server_def SUCCESS_def TERMINAL_ERROR_def started_sdk_def split: prod.splits)
  from sdk have "cc_get_inputs_for_inferId start_world ''id2'' cc = Inr None"
    by (auto simp: cc_get_inputs_for_inferId_def get_inputs_for_inferId_def db_get_inputs_for_inferId_def)
  with example_needs_saved_inputs [where t = "\<lambda>k. start_ticks", OF cc] show ?thesis by simp
qed

end
