(* ===== verification/Log_Format.thy ===== *)
theory Log_Format
  imports Logger
begin

text \<open>
  The templates of \<open>nimblenet/util/include/Logger.h\<close>: \<open>formatlog\<close> turns a format and its
  arguments into a buffer, the functions behind \<open>LOG_TO_ERROR\<close> and its siblings write it
  to the file and to the console of the platform.  What \<open>snprintf\<close> makes of a format and
  its arguments is a parameter: the text, or \<open>None\<close> when it fails.
\<close>

definition INT_MAX :: int where "INT_MAX = 2 ^ 31 - 1"

text \<open>\<open>snprintf(buf, n, ..)\<close>: its result, and the bytes it stores, at most \<open>n\<close> with the \<open>NUL\<close>.\<close>

definition snprintf_result :: "string option \<Rightarrow> int" where
  "snprintf_result r = (case r of None \<Rightarrow> - 1 | Some msg \<Rightarrow> if INT_MAX < int (length msg) then - 1 else int (length msg))"

definition snprintf_bytes :: "nat \<Rightarrow> string \<Rightarrow> string" where
  "snprintf_bytes n msg = (if n = 0 then [] else take (n - 1) msg @ [CHR 0x00])"

text \<open>The value of a \<open>char*\<close> as the code reads it, up to the first \<open>NUL\<close>.\<close>

definition c_text :: "string \<Rightarrow> string" where
  "c_text bytes = takeWhile (\<lambda>c. c \<noteq> CHR 0x00) bytes"

text \<open>\<open>new char[size]\<close>: the second \<open>snprintf\<close> must stay inside.\<close>

definition formatlog :: "string option \<Rightarrow> string outcome" where
  "formatlog r =
     ubind (signed_result 32 (snprintf_result r + 1)) (\<lambda>size_s.
       if size_s \<le> 0 then Inl Uncaught
       else case r of
         None \<Rightarrow> Inl Uncaught
       | Some msg \<Rightarrow>
           let bytes = snprintf_bytes (nat size_s) msg in
           if nat size_s < length bytes then Inl (Out_Of_Bounds size_s) else Inr bytes)"

datatype log_level = Debug | Info | Warn | Error | Fatal | Metrics | Outside

fun level_type :: "log_level \<Rightarrow> string" where
  "level_type Debug = ''DEBUG:::''"
| "level_type Info = ''INFO:::''"
| "level_type Warn = ''WARN:::''"
| "level_type Error = ''ERROR:::''"
| "level_type Fatal = ''FATAL:::''"
| "level_type Metrics = ''METRICS:::''"
| "level_type Outside = ''OUTSIDE:::''"

text \<open>\<open>log_debug\<close> is left out of a build with \<open>NDEBUG\<close>.\<close>

definition on_console :: "bool \<Rightarrow> log_level \<Rightarrow> bool" where
  "on_console ndebug level = (case level of Debug \<Rightarrow> \<not> ndebug | Metrics \<Rightarrow> False | Outside \<Rightarrow> False | _ \<Rightarrow> True)"

type_synonym console = "(log_level \<times> string) list"

definition log_at ::
  "log_os \<Rightarrow> bool \<Rightarrow> (nat \<Rightarrow> string) \<Rightarrow> log_level \<Rightarrow> string option \<Rightarrow> console \<times> logger \<times> device
    \<Rightarrow> (console \<times> logger \<times> device) outcome" where
  "log_at os ndebug dates level r = (\<lambda>(out, l, d).
     ubind (formatlog r) (\<lambda>buf.
       Inr (if on_console ndebug level then out @ [(level, c_text buf)] else out,
            write_log os dates (c_text buf) (level_type level) (l, d))))"

definition CLIENTDEBUGLOG :: "string option \<Rightarrow> console \<times> logger \<times> device \<Rightarrow> (console \<times> logger \<times> device) outcome" where
  "CLIENTDEBUGLOG r = (\<lambda>(out, l, d).
     if \<not> lg_isDebug l then Inr (out, l, d)
     else ubind (formatlog r) (\<lambda>buf. Inr (out @ [(Debug, c_text buf)], l, d)))"

section \<open>Facts\<close>

lemma formatlog_short:
  assumes "int (length msg) < INT_MAX"
  shows "formatlog (Some msg) = Inr (msg @ [CHR 0x00])"
  using assms by (simp add: formatlog_def snprintf_result_def snprintf_bytes_def INT_MAX_def Let_def nat_add_distrib)

lemma formatlog_edge:
  "formatlog None = Inl Uncaught"
  "int (length msg) = INT_MAX \<Longrightarrow> formatlog (Some msg) = Inl Arith_Overflow"
  "INT_MAX < int (length msg) \<Longrightarrow> formatlog (Some msg) = Inl Uncaught"
  by (simp_all add: formatlog_def snprintf_result_def INT_MAX_def signed_result_def)

lemma c_text_whole: "CHR 0x00 \<notin> set msg \<Longrightarrow> c_text (msg @ [CHR 0x00]) = msg"
  unfolding c_text_def by (induction msg) auto

text \<open>The functions of \<open>Logger\<close> are these with the text they get.\<close>

lemma log_at_levels:
  assumes "int (length msg) < INT_MAX" "CHR 0x00 \<notin> set msg"
  shows "log_at os True dates Debug (Some msg) (out, ld) = Inr (out, LOGDEBUG os dates msg ld)"
    and "log_at os ndebug dates Info (Some msg) (out, ld) = Inr (out @ [(Info, msg)], LOGINFO os dates msg ld)"
    and "log_at os ndebug dates Warn (Some msg) (out, ld) = Inr (out @ [(Warn, msg)], LOGWARN os dates msg ld)"
    and "log_at os ndebug dates Error (Some msg) (out, ld) = Inr (out @ [(Error, msg)], LOGERROR os dates msg ld)"
    and "log_at os ndebug dates Fatal (Some msg) (out, ld) = Inr (out @ [(Fatal, msg)], LOGFATAL os dates msg ld)"
    and "log_at os ndebug dates Outside (Some msg) (out, ld) = Inr (out, OUTSIDELOG os dates msg ld)"
  using assms
  by (cases ld; simp add: log_at_def on_console_def formatlog_short c_text_whole LOGDEBUG_def LOGINFO_def LOGWARN_def
      LOGERROR_def LOGFATAL_def OUTSIDELOG_def)+

lemma log_at_metrics:
  assumes "msg = kind @ '' ::: '' @ json" "int (length msg) < INT_MAX" "CHR 0x00 \<notin> set msg"
  shows "log_at os ndebug dates Metrics (Some msg) (out, ld) = Inr (out, LOGMETRICS os dates kind json ld)"
proof -
  have "LOGMETRICS os dates kind json ld = write_log os dates msg ''METRICS:::'' ld"
    by (simp only: LOGMETRICS_def assms(1))
  then show ?thesis using assms(2,3) by (cases ld) (simp add: log_at_def on_console_def formatlog_short c_text_whole)
qed

text \<open>
  \<open>formatlog\<close> never writes outside its buffer; it fails for texts of at least \<open>INT_MAX\<close>
  bytes and when \<open>snprintf\<close> does, and the exception leaves the SDK.
\<close>

lemma formatlog_total:
  "formatlog r = Inr buf \<longleftrightarrow> (\<exists>msg. r = Some msg \<and> int (length msg) < INT_MAX \<and> buf = msg @ [CHR 0x00])"
proof (cases r)
  case (Some msg)
  consider "int (length msg) < INT_MAX" | "int (length msg) = INT_MAX" | "INT_MAX < int (length msg)" by linarith
  then show ?thesis by cases (auto simp: Some formatlog_short formatlog_edge)
qed (simp add: formatlog_edge)

end
