(* ===== verification/Spec2Isabelle.thy ===== *)
theory Spec2Isabelle
  imports Base64 Pre_Processor_Contract Group_Keys Table_Input User_Events_Contract
    Config_Manager Server_Api_Contract Feature_Lock
    Onnx_Contract Onnx_Inference Onnx_Executor_Contract Onnx_Memory Resource_Update
    Logger_Contract Secret_Generator Command_Start Linux_Client Android_Client Torch_Executor
    Model_Lock Start_Lock Logger_Lock Example_Program Log_Format
begin

text \<open>
  A model of the nimbleSDK core (\<open>src/nimblenet\<close>) and of its platform clients, with
  the theorems that make it correct.

  The program.  The SDK runs machine-learning plans on a device.  A client initialises
  it with a JSON configuration, sends it events and asks for inferences.  A background
  thread registers the device, fetches the configuration of the cloud, new plans and
  new features, and uploads logs and metrics.  \<open>CommandCenter\<close> owns the parts:
  \<open>ResourceManager\<close> (plans and features of the device and of the server), \<open>ServerAPI\<close>
  (HTTP calls with registration and retries), \<open>ONNXExecutor\<close> (models, inference, saved
  inputs), \<open>FeatureStoreManager\<close> (feature vectors shared between threads),
  \<open>UserEventsManager\<close> (event tables in SQLite and in memory, and the preprocessors that
  turn them into model inputs) and two \<open>Logger\<close>s.

  Outcomes.  A computation whose C++ could be undefined has the type \<open>'a outcome\<close>:
  \<open>Inl fault\<close> is undefined behaviour or an exception that leaves the SDK
  (\<open>Dangling\<close>, \<open>Out_Of_Bounds\<close>, \<open>Arith_Overflow\<close>, \<open>Uncaught\<close>), \<open>Inr x\<close> a defined
  result; error codes of the program are values inside \<open>Inr\<close>.  Loops over containers are
  \<open>ufold\<close>; every recursion terminates, no fuel is used.  Machine integers are \<open>w word\<close> or
  \<open>int\<close> with the range written out (\<open>signed_result\<close>, \<open>cast_signed\<close>).

  Theories, from the bottom up.
  \<^item> \<open>Prelude\<close>: outcomes, loops, vectors.  \<open>Std_Map\<close>: \<open>std::map\<close> as a sorted association
    list, with the map laws as a locale and its interpretation.
  \<^item> \<open>Base64\<close> (\<open>util/src/base64.cpp\<close>): encoder and decoder on bytes; the round trip.
  \<^item> \<open>Value_Type\<close>, \<open>Aggregate_Column\<close>, \<open>Rolling_Window\<close>, \<open>Pre_Processor\<close>
    (\<open>UserEvents/AggregateColumn\<close>, \<open>RollingWindow\<close>, \<open>PreProcessor\<close>): one record per class,
    one definition per method.  The arithmetic of the template parameter is a record of
    operations: \<open>int32_t\<close> and \<open>int64_t\<close> are instances, \<open>float\<close> and \<open>double\<close> are
    parameters.  \<open>Column_Contract\<close>, \<open>Window_Contract\<close>, \<open>Pre_Processor_Contract\<close> relate the
    incremental columns to recomputation over the live events, and say what happens when
    events expire.  \<open>Group_Keys\<close>: when the key of a group determines the group.
  \<^item> \<open>User_Events_Struct\<close>, \<open>Table_Store\<close>, \<open>User_Events\<close> (\<open>TableStore\<close>, \<open>UserEventsManager\<close>):
    the event log of a table, its preprocessors, and the manager over SQLite, which is a
    parameter: a step function on an abstract database.  The contracts: preprocessors made
    before or after a row agree, the table invariant, what an accepted or refused event does.
    \<open>Table_Input\<close>: the contract of one preprocessor carried through a table it shares with
    others, up to the input handed to a model.
  \<^item> \<open>Json_Model\<close>, \<open>Config_Manager\<close>, \<open>Native_Interface\<close>, \<open>Server_Api\<close>: JSON values (the
    text syntax is a parameter), configuration, files and requests of the device, every
    call of the server.  \<open>Server_Api_Contract\<close>: bounds on requests and registrations,
    registration over a restart; the locale \<open>retry_budget\<close>, which the resource manager
    interprets again.
  \<^item> \<open>Feature_Store\<close>, \<open>Feature_Lock\<close>: the stores, and the lock protocol of one store as a
    step relation over any number of readers and one writer.
  \<^item> \<open>Onnx_Structs\<close>, \<open>Onnx_Model\<close>, \<open>Onnx_Executor\<close> (\<open>Executors/onnx\<close>): plan metadata,
    tensors with their buffers, inference, the dummy run, models, retries and saved
    inputs.  ONNX Runtime is a parameter.  \<open>Onnx_Contract\<close>, \<open>Onnx_Inference\<close>,
    \<open>Onnx_Executor_Contract\<close>: memory safety of accepted requests, freshness of inputs, the
    ring of saved inputs against the list of the last ones, the executor's invariant.
    \<open>Onnx_Memory\<close>: the blocks of a return object over a \<open>malloc\<close> heap, who frees them and
    when, and what a dummy run leaves behind.
  \<^item> \<open>Resource_Structs\<close>, \<open>Resource_Manager\<close>: the record \<open>sdk\<close> of all managers, plans and
    features.  \<open>Resource_Demo\<close> has the examples, \<open>Resource_Contract\<close> and \<open>Resource_Update\<close> the
    properties: plans over a restart, failed updates, parts in order, feature updates.
  \<^item> \<open>Logger\<close> (\<open>util/src/Logger.cpp\<close>): log files, rotation, upload.  \<open>Logger_Contract\<close>: lines
    read back as written, the bound on the current file, no log is removed before the
    server took it, and all rotated files are sent in the end.  \<open>Log_Format\<close>: \<open>formatlog\<close>
    and the functions behind the macros \<open>LOG_TO_ERROR\<close> and so on.
  \<^item> \<open>Command_Center\<close> (\<open>CommandCenter\<close>, \<open>nimblenet.cpp\<close>): the start, the calls of the
    client, one pass of the background loop.  \<open>Command_Contract\<close>: the invariant of the whole
    SDK, kept by every call and pass, and the states the SDK can reach as an inductive
    predicate; \<open>Command_Start\<close>: the properties.
  \<^item> \<open>Sdk_Session\<close> (\<open>nimblenet.h\<close>): the calls as one function, and sessions of calls and passes
    in any order; what they answer when no start succeeds.  \<open>Example_Program\<close>
    (\<open>main.cpp\<close>): the example client and when it runs to its end.
  \<^item> Threads.  \<open>Transition_System\<close>: reachable states of a step relation, the locale
    \<open>invariant_system\<close>, and a mutex.  It is interpreted by the four protocols of the code:
    \<open>Feature_Lock\<close>, \<open>Start_Lock\<close> (calls of \<open>initialize\<close> at the same time), \<open>Logger_Lock\<close>
    (threads that log, rotate and send) and \<open>Model_Lock\<close> (inferences while a plan is
    reloaded, where the code frees a model in use).
  \<^item> \<open>Linux_Client\<close>, \<open>Android_Client\<close> (\<open>linux/src/client.cpp\<close>, \<open>android/src/client.cpp\<close>): the
    two implementations of \<open>client.h\<close>, with libcurl and the Java virtual machine as
    parameters.
  \<^item> \<open>Torch_Executor\<close> (\<open>Executors/pytorch\<close>): the executor of a build with
    \<open>TORCH_EXECUTOR\<close>, its modules in an explicit heap; which calls keep every module
    alive and which lose or free one.  \<open>Secret_Generator\<close> (\<open>scripts\<close>): the numbers of the
    logger's default key.

  Parameters and what is asked of them.  The platform (\<open>platform\<close>: the answers of the
  server, parser and printer of JSON, writable files), SQLite (\<open>sql\<close>), ONNX Runtime
  (\<open>onnx_env\<close>), the operating system (\<open>log_os\<close>), clocks (functions that give the results of
  successive readings; nothing is assumed of their order unless a theorem says so).
  Hypotheses on them are named premises; each property with premises has a witness that
  instantiates them.

  Reading the functions of a call.  \<open>world\<close> bundles the parameters of the components,
  \<open>ticks\<close> the clock readings of one pass.  \<open>perform_long_running_tasks w ts\<close> is the first
  \<open>length ts\<close> passes of the endless loop, so a theorem for all \<open>ts\<close> is one about the loop.

  Not modelled.  The lines the parts write to the log about themselves (calls of
  \<open>LOG_TO_ERROR\<close> and its siblings) do not change any other state and are left out.  Calls of
  the client and passes of the loop are whole steps in the theories of the parts; their
  steps are modelled where the code locks, in the four theories named above.  Where it
  does not (\<open>_inferenceStartMap\<close>, the saved inputs, the event tables) calls at the same
  time are data races, without a defined meaning.  The class loader of Android and the
  test \<open>ONNXModelTest.cpp\<close> are left out.
\<close>

end
